(* ===== verification/Prelude.thy ===== *)
theory Prelude
  imports Main "HOL-Library.State_Monad" "HOL-Library.Char_ord"
begin

text \<open>
  What every component shares: the collections the component theories fill, the vocabulary for
  running a stateful step, and a few facts on lists and on \<open>find\<close> that the tables of the
  database use.
\<close>

section \<open>Collections\<close>

named_theorems run_simps \<open>how one operation of the model runs on a state\<close>
named_theorems frame \<open>what an operation leaves unchanged\<close>
named_theorems schema_intros \<open>operations that keep the database schema's constraints\<close>

section \<open>Running a step\<close>

text \<open>
  A Go function that touches shared state is a value of \<open>('s, 'a) state\<close>; one that returns
  \<open>(T, error)\<close> has a sum type as its result, with the error on the left.
\<close>

abbreviation ret :: "'a \<Rightarrow> ('s, 'a) state" where
  "ret \<equiv> State_Monad.return"

lemma run_state_eqD: "run_state m s = (a, t) \<Longrightarrow> fst (run_state m s) = a \<and> snd (run_state m s) = t"
  by simp

lemma run_bindE:
  assumes "run_state (m \<bind> f) s = (b, u)"
  obtains a t where "run_state m s = (a, t)" and "run_state (f a) t = (b, u)"
  using assms by (cases "run_state m s") auto

text \<open>A step that keeps a property of the state, whatever its result.\<close>

definition keeps :: "('s \<Rightarrow> bool) \<Rightarrow> ('s, 'a) state \<Rightarrow> bool" where
  "keeps P m \<longleftrightarrow> (\<forall>s. P s \<longrightarrow> P (snd (run_state m s)))"

lemma keepsI: "(\<And>s a t. P s \<Longrightarrow> run_state m s = (a, t) \<Longrightarrow> P t) \<Longrightarrow> keeps P m"
  unfolding keeps_def by (metis prod.collapse)

lemma keepsD: "keeps P m \<Longrightarrow> run_state m s = (a, t) \<Longrightarrow> P s \<Longrightarrow> P t"
  unfolding keeps_def by (metis snd_conv)

lemma keeps_ret [intro, simp]: "keeps P (ret x)"
  by (simp add: keeps_def)

lemma keeps_bind [intro]:
  assumes "keeps P m" and "\<And>a. keeps P (f a)"
  shows "keeps P (m \<bind> f)"
  using assms by (auto simp: keeps_def split: prod.splits)

lemma keeps_if [intro]: "keeps P m \<Longrightarrow> keeps P n \<Longrightarrow> keeps P (if b then m else n)"
  by simp

lemma keeps_sum [intro]:
  "(\<And>e. keeps P (f e)) \<Longrightarrow> (\<And>a. keeps P (g a)) \<Longrightarrow> keeps P (case r of Inl e \<Rightarrow> f e | Inr a \<Rightarrow> g a)"
  by (cases r) auto

lemma keeps_option [intro]:
  "keeps P n \<Longrightarrow> (\<And>a. keeps P (g a)) \<Longrightarrow> keeps P (case r of None \<Rightarrow> n | Some a \<Rightarrow> g a)"
  by (cases r) auto

section \<open>Lists\<close>

lemma find_append: "find P (xs @ ys) = (case find P xs of None \<Rightarrow> find P ys | Some x \<Rightarrow> Some x)"
  by (induction xs) auto

lemma find_SomeD: "find P xs = Some x \<Longrightarrow> x \<in> set xs \<and> P x"
  by (auto simp: find_Some_iff)

lemma find_unique:
  assumes "x \<in> set xs" and "P x" and "\<And>y. y \<in> set xs \<Longrightarrow> P y \<Longrightarrow> y = x"
  shows "find P xs = Some x"
proof (cases "find P xs")
  case None
  with assms(1,2) show ?thesis by (auto simp: find_None_iff)
next
  case (Some y)
  then show ?thesis using assms(3) find_SomeD by fastforce
qed

lemma distinct_map_eqD: "distinct (map f xs) \<Longrightarrow> x \<in> set xs \<Longrightarrow> y \<in> set xs \<Longrightarrow> f x = f y \<Longrightarrow> x = y"
  by (auto simp: distinct_map dest: inj_onD)

lemma filter_key_le_1:
  assumes "distinct (map f xs)" and "\<And>x. P x \<Longrightarrow> f x = i"
  shows "length (filter P xs) \<le> 1"
  using assms(1)
proof (induction xs)
  case (Cons x xs)
  show ?case
  proof (cases "P x")
    case True
    with Cons.prems assms(2) have "filter P xs = []"
      by (auto simp: filter_empty_conv)
    with True show ?thesis by simp
  qed (use Cons in simp)
qed simp

lemma strict_keys_distinct: "sorted_wrt (\<lambda>x y. f x < f y) xs \<Longrightarrow> distinct (map f xs)"
  for f :: "'a \<Rightarrow> 'b :: preorder"
  by (induction xs) auto

lemma differing_keys_distinct: "sorted_wrt (\<lambda>x y. f x \<noteq> f y) xs \<Longrightarrow> distinct (map f xs)"
  by (induction xs) auto

lemma find_map_same:
  assumes "\<And>x. P (f x) = P x"
  shows "find P (map f xs) = map_option f (find P xs)"
  using assms by (induction xs) auto

lemma sorted_wrt_snoc: "sorted_wrt R (xs @ [x]) \<longleftrightarrow> sorted_wrt R xs \<and> (\<forall>y \<in> set xs. R y x)"
  by (auto simp: sorted_wrt_append)

end
