(* ===== verification/Models.thy ===== *)
theory Models
  imports Prelude
begin

text \<open>
  The rows of the database (internal/db/models.go), the errors operations return, the outside world
  a request can observe (clock, random bytes, database failures) as the parameter \<open>env\<close>, and the
  state the server changes as the record \<open>world\<close>.

  An instant is an integer number of nanoseconds since 1970; Go's zero time, which \<open>IsZero\<close> tests,
  is \<open>zero_time\<close>.  Identifiers are the \<open>bigint\<close> identity values of the tables.
\<close>

section \<open>Instants, durations, errors\<close>

type_synonym instant = int
type_synonym duration = int

definition zero_time :: instant where
  "zero_time = -62135596800000000000"

definition Second :: duration where
  "Second = 1000000000"

definition Minute :: duration where
  "Minute = 60 * Second"

definition Hour :: duration where
  "Hour = 60 * Minute"

text \<open>\<open>int(d.Seconds())\<close>: whole seconds, rounded towards zero.\<close>

definition seconds :: "duration \<Rightarrow> int" where
  "seconds d = sgn d * (\<bar>d\<bar> div Second)"

text \<open>\<open>t.Unix()\<close>: whole seconds since 1970, rounded down.\<close>

definition Unix :: "instant \<Rightarrow> int" where
  "Unix t = t div Second"

datatype db_error = ConnectionFailed | UniqueViolation | CheckViolation | ForeignKeyViolation

datatype goerr =
    ErrRecordNotFound \<comment> \<open>gorm's\<close>
  | ErrNotFound
  | ErrSeatTaken
  | ErrSessionExpired
  | ErrSessionRevoked
  | ErrInvalidCredentials
  | ErrRand
  | ErrDB db_error
  | ErrText string
  | ErrPanic string \<comment> \<open>not an error but a run-time panic, which ends the handler\<close>
  | ErrValidation "(string \<times> string) list" \<comment> \<open>a \<open>ValidationError\<close>: its messages by field\<close>
  | ErrWrapped string goerr \<comment> \<open>\<open>fmt.Errorf("text: \%w", err)\<close>\<close>

text \<open>\<open>errors.Is\<close> and \<open>errors.As\<close> look through the wrapping.\<close>

fun errors_Is :: "goerr \<Rightarrow> goerr \<Rightarrow> bool" where
  "errors_Is (ErrWrapped m e) t = (ErrWrapped m e = t \<or> errors_Is e t)"
| "errors_Is e t = (e = t)"

fun errors_As_validation :: "goerr \<Rightarrow> (string \<times> string) list option" where
  "errors_As_validation (ErrWrapped m e) = errors_As_validation e"
| "errors_As_validation (ErrValidation fields) = Some fields"
| "errors_As_validation _ = None"

section \<open>Rows\<close>

record user =
  User_ID :: int
  User_Subject :: string
  User_Email :: string
  User_CreatedAt :: instant
  User_UpdatedAt :: instant

record session =
  Session_ID :: int
  Session_TokenHash :: string
  Session_UserID :: int
  Session_ExpiresAt :: instant
  Session_RevokedAt :: "instant option"
  Session_CreatedAt :: instant
  Session_UpdatedAt :: instant

record operator =
  Operator_ID :: int
  Operator_Email :: string
  Operator_PasswordHash :: string
  Operator_CreatedAt :: instant
  Operator_UpdatedAt :: instant

record operator_session =
  OpSession_ID :: int
  OpSession_TokenHash :: string
  OpSession_OperatorID :: int
  OpSession_ExpiresAt :: instant
  OpSession_RevokedAt :: "instant option"
  OpSession_CreatedAt :: instant
  OpSession_UpdatedAt :: instant

record application =
  App_ID :: int
  App_Name :: string
  App_Description :: string
  App_FirstParty :: bool
  App_AllowedScopes :: "string list"
  App_CreatedAt :: instant
  App_UpdatedAt :: instant

record identity_provider =
  IdP_ID :: int
  IdP_ApplicationID :: int
  IdP_Provider :: string
  IdP_ClientID :: string
  IdP_ClientSecretEncrypted :: string
  IdP_Enabled :: bool
  IdP_CreatedAt :: instant
  IdP_UpdatedAt :: instant

record user_identity =
  Ident_ID :: int
  Ident_UserID :: int
  Ident_Provider :: string
  Ident_ProviderSubject :: string
  Ident_Email :: string
  Ident_EmailVerified :: bool
  Ident_Name :: string
  Ident_CreatedAt :: instant
  Ident_UpdatedAt :: instant

record oauth_client =
  Client_ID :: int
  Client_ApplicationID :: int
  Client_ClientID :: string
  Client_ClientSecretHash :: string
  Client_ClientType :: string
  Client_TokenEndpointAuthMethod :: string
  Client_RedirectURIs :: "string list"
  Client_PostLogoutRedirectURIs :: "string list"
  Client_AllowedOrigins :: "string list"
  Client_Environment :: string
  Client_CreatedAt :: instant
  Client_UpdatedAt :: instant

record authorization_code =
  Code_ID :: int
  Code_CodeHash :: string
  Code_OAuthClientID :: int
  Code_UserID :: int
  Code_RedirectURI :: string
  Code_Scope :: string
  Code_Nonce :: "string option"
  Code_CodeChallenge :: string
  Code_CodeChallengeMethod :: string
  Code_ExpiresAt :: instant
  Code_ConsumedAt :: "instant option"
  Code_CreatedAt :: instant
  Code_UpdatedAt :: instant

section \<open>The outside world\<close>

text \<open>
  What happens to a database statement: it runs, it is refused before it has any effect, or it runs
  and the connection is lost before the caller hears of it.
\<close>

datatype fault = NoFault | Refused | LostReply

text \<open>A request the server itself sends to an upstream provider.\<close>

record upstream_request =
  up_method :: string
  up_url :: string
  up_headers :: "(string \<times> string) list"
  up_body :: string

text \<open>
  The \<open>k\<close>-th reading of the clock, the fate of the \<open>k\<close>-th database statement and the bytes of the
  \<open>k\<close>-th call of \<open>rand.Read\<close> for \<open>n\<close> bytes (\<open>None\<close> when it fails) are chosen from outside; so are
  the case folding of PostgreSQL's \<open>citext\<close>, the lower-casing and the quoting of strings that are
  not ASCII, what net/netip takes for an IPv6 address and how net/url words its complaint about a
  text it cannot parse; the answer to the \<open>k\<close>-th request to an upstream provider (status and body, or
  none), what the OpenID Connect library makes of an ID token (the subject and the claims' text, given
  the issuer, the client and the token), and the key Argon2id derives (from password, salt,
  iterations, memory, parallelism and length), \<open>None\<close> when it panics; and how many seconds the
  local time zone is ahead of UTC at an instant.
\<close>

record env =
  clock :: "nat \<Rightarrow> instant"
  db_fault :: "nat \<Rightarrow> fault"
  entropy :: "nat \<Rightarrow> nat \<Rightarrow> string option"
  citext :: "string \<Rightarrow> string"
  unicode_lower :: "string \<Rightarrow> string"
  unicode_quote :: "string \<Rightarrow> string"
  ipv6_literal :: "string \<Rightarrow> bool"
  url_error :: "string \<Rightarrow> string"
  net_reply :: "nat \<Rightarrow> upstream_request \<Rightarrow> (nat \<times> string) option"
  oidc_verify :: "nat \<Rightarrow> string \<Rightarrow> string \<Rightarrow> string \<Rightarrow> (string \<times> string) option"
  argon2_IDKey :: "string \<Rightarrow> string \<Rightarrow> nat \<Rightarrow> nat \<Rightarrow> nat \<Rightarrow> nat \<Rightarrow> string option"
  zone_offset :: "instant \<Rightarrow> int"

text \<open>What the package \<open>crypto/rand\<close> promises: a successful read fills the buffer.\<close>

definition entropy_fills :: "env \<Rightarrow> bool" where
  "entropy_fills E \<longleftrightarrow> (\<forall>k n b. entropy E k n = Some b \<longrightarrow> length b = n)"

text \<open>Argon2id does not panic on positive parameters and derives keys of the length asked for.\<close>

definition argon2_derives :: "env \<Rightarrow> bool" where
  "argon2_derives E \<longleftrightarrow> (\<forall>password salt t m p len. 0 < t \<longrightarrow> 0 < p \<longrightarrow> 0 < len \<longrightarrow>
     (\<exists>key. argon2_IDKey E password salt t m p len = Some key \<and> length key = len))"

text \<open>A clock that does not run backwards.\<close>

definition clock_steady :: "env \<Rightarrow> bool" where
  "clock_steady E \<longleftrightarrow> mono (clock E)"

section \<open>The state\<close>

text \<open>A table: its rows in the order of their identifiers, and the next identity value.\<close>

record 'r table =
  tbl_rows :: "'r list"
  tbl_next :: int

record world =
  users :: "user table"
  sessions :: "session table"
  operators :: "operator table"
  operator_sessions :: "operator_session table"
  applications :: "application table"
  identity_providers :: "identity_provider table"
  user_identities :: "user_identity table"
  oauth_clients :: "oauth_client table"
  codes :: "authorization_code table"
  ticks :: nat
  db_calls :: nat
  entropy_reads :: nat
  net_calls :: nat
  login_dummy :: "string option" \<comment> \<open>\<open>dummyOnce\<close> and \<open>dummyHash\<close> of the login service\<close>

definition empty_table :: "'r table" where
  "empty_table = \<lparr>tbl_rows = [], tbl_next = 1\<rparr>"

definition empty_world :: world where
  "empty_world =
     \<lparr>users = empty_table, sessions = empty_table, operators = empty_table,
      operator_sessions = empty_table, applications = empty_table,
      identity_providers = empty_table, user_identities = empty_table,
      oauth_clients = empty_table, codes = empty_table,
      ticks = 0, db_calls = 0, entropy_reads = 0, net_calls = 0, login_dummy = None\<rparr>"

text \<open>An environment in which nothing fails and the clock moves by a microsecond at each reading.\<close>

definition calm_env :: env where
  "calm_env =
     \<lparr>clock = (\<lambda>k. 1790000000000000000 + int k * 1000), db_fault = (\<lambda>_. NoFault),
      entropy = (\<lambda>k n. Some (replicate n (char_of k))), citext = (\<lambda>s. s), unicode_lower = (\<lambda>s. s),
      unicode_quote = (\<lambda>s. s), ipv6_literal = (\<lambda>s. s = ''::1''), url_error = (\<lambda>s. s),
      net_reply = (\<lambda>_ _. None), oidc_verify = (\<lambda>_ _ _ _. None),
      argon2_IDKey = (\<lambda>password salt t m p len. if t = 0 \<or> p = 0 \<or> len = 0 then None
        else Some (take len (password @ salt @ replicate len (CHR ''x'')))),
      zone_offset = (\<lambda>_. 0)\<rparr>"

lemma calm_env_simps [simp]:
  "clock calm_env k = 1790000000000000000 + int k * 1000"
  "db_fault calm_env k = NoFault"
  "entropy calm_env k n = Some (replicate n (char_of k))"
  "citext calm_env s = s"
  "unicode_lower calm_env s = s"
  "ipv6_literal calm_env s = (s = ''::1'')"
  "zone_offset calm_env t = 0"
  by (simp_all add: calm_env_def)

lemma entropy_fills_calm: "entropy_fills calm_env"
  by (simp add: entropy_fills_def)

lemma argon2_derives_calm: "argon2_derives calm_env"
  by (auto simp: argon2_derives_def calm_env_def min_def)

lemma clock_steady_calm: "clock_steady calm_env"
  by (simp add: clock_steady_def mono_def)

section \<open>Reading the clock and the random source\<close>

definition Now :: "env \<Rightarrow> (world, instant) state" where
  "Now E = State (\<lambda>w. (clock E (ticks w), w\<lparr>ticks := Suc (ticks w)\<rparr>))"

definition RandRead :: "env \<Rightarrow> nat \<Rightarrow> (world, goerr + string) state" where
  "RandRead E n = State (\<lambda>w.
     (case entropy E (entropy_reads w) n of None \<Rightarrow> Inl ErrRand | Some b \<Rightarrow> Inr b,
      w\<lparr>entropy_reads := Suc (entropy_reads w)\<rparr>))"

lemma run_Now [run_simps]: "run_state (Now E) w = (clock E (ticks w), w\<lparr>ticks := Suc (ticks w)\<rparr>)"
  by (simp add: Now_def)

lemma run_RandRead [run_simps]:
  "run_state (RandRead E n) w =
     (case entropy E (entropy_reads w) n of None \<Rightarrow> Inl ErrRand | Some b \<Rightarrow> Inr b,
      w\<lparr>entropy_reads := Suc (entropy_reads w)\<rparr>)"
  by (simp add: RandRead_def)

end
