(* ===== verification/Database.thy ===== *)
theory Database
  imports Models
begin

text \<open>
  The tables the migrations create (internal/db/migrations) and what an INSERT, UPDATE or DELETE
  does to one of them.  A rejected INSERT consumes an identity value and changes
  nothing else.  Identity values are never reused, so the rows of a table stay in the order of their
  identifiers, which is the order gorm's \<open>First\<close> asks for.
\<close>

section \<open>Schemas: identifier, constraints, references\<close>

record 'r schema =
  sch_id :: "'r \<Rightarrow> int"
  sch_set_id :: "int \<Rightarrow> 'r \<Rightarrow> 'r"
  sch_clash :: "'r \<Rightarrow> 'r \<Rightarrow> bool" \<comment> \<open>the two rows violate a unique constraint together\<close>
  sch_check :: "'r \<Rightarrow> bool" \<comment> \<open>the row's own check constraints\<close>
  sch_refs :: "world \<Rightarrow> 'r \<Rightarrow> bool" \<comment> \<open>the rows its foreign keys name exist\<close>

definition has_row :: "('r \<Rightarrow> int) \<Rightarrow> 'r table \<Rightarrow> int \<Rightarrow> bool" where
  "has_row i t k \<longleftrightarrow> list_ex (\<lambda>r. i r = k) (tbl_rows t)"

definition users_schema :: "env \<Rightarrow> user schema" where
  "users_schema E =
     \<lparr>sch_id = User_ID, sch_set_id = (\<lambda>i r. r\<lparr>User_ID := i\<rparr>),
      sch_clash = (\<lambda>r s. User_Subject r = User_Subject s
                        \<or> citext E (User_Email r) = citext E (User_Email s)),
      sch_check = (\<lambda>_. True), sch_refs = (\<lambda>_ _. True)\<rparr>"

definition sessions_schema :: "session schema" where
  "sessions_schema =
     \<lparr>sch_id = Session_ID, sch_set_id = (\<lambda>i r. r\<lparr>Session_ID := i\<rparr>),
      sch_clash = (\<lambda>r s. Session_TokenHash r = Session_TokenHash s),
      sch_check = (\<lambda>_. True),
      sch_refs = (\<lambda>w r. has_row User_ID (users w) (Session_UserID r))\<rparr>"

definition operators_schema :: "env \<Rightarrow> operator schema" where
  "operators_schema E =
     \<lparr>sch_id = Operator_ID, sch_set_id = (\<lambda>i r. r\<lparr>Operator_ID := i\<rparr>),
      sch_clash = (\<lambda>r s. citext E (Operator_Email r) = citext E (Operator_Email s)),
      sch_check = (\<lambda>_. True), sch_refs = (\<lambda>_ _. True)\<rparr>"

definition operator_sessions_schema :: "operator_session schema" where
  "operator_sessions_schema =
     \<lparr>sch_id = OpSession_ID, sch_set_id = (\<lambda>i r. r\<lparr>OpSession_ID := i\<rparr>),
      sch_clash = (\<lambda>r s. OpSession_TokenHash r = OpSession_TokenHash s),
      sch_check = (\<lambda>_. True),
      sch_refs = (\<lambda>w r. has_row Operator_ID (operators w) (OpSession_OperatorID r))\<rparr>"

definition applications_schema :: "application schema" where
  "applications_schema =
     \<lparr>sch_id = App_ID, sch_set_id = (\<lambda>i r. r\<lparr>App_ID := i\<rparr>), sch_clash = (\<lambda>_ _. False),
      sch_check = (\<lambda>_. True), sch_refs = (\<lambda>_ _. True)\<rparr>"

definition identity_providers_schema :: "identity_provider schema" where
  "identity_providers_schema =
     \<lparr>sch_id = IdP_ID, sch_set_id = (\<lambda>i r. r\<lparr>IdP_ID := i\<rparr>),
      sch_clash = (\<lambda>r s. IdP_ApplicationID r = IdP_ApplicationID s \<and> IdP_Provider r = IdP_Provider s),
      sch_check = (\<lambda>r. IdP_Provider r \<in> set [''google'', ''github'']),
      sch_refs = (\<lambda>w r. has_row App_ID (applications w) (IdP_ApplicationID r))\<rparr>"

definition user_identities_schema :: "user_identity schema" where
  "user_identities_schema =
     \<lparr>sch_id = Ident_ID, sch_set_id = (\<lambda>i r. r\<lparr>Ident_ID := i\<rparr>),
      sch_clash = (\<lambda>r s. Ident_Provider r = Ident_Provider s
                        \<and> (Ident_ProviderSubject r = Ident_ProviderSubject s \<or> Ident_UserID r = Ident_UserID s)),
      sch_check = (\<lambda>_. True),
      sch_refs = (\<lambda>w r. has_row User_ID (users w) (Ident_UserID r))\<rparr>"

definition oauth_clients_schema :: "oauth_client schema" where
  "oauth_clients_schema =
     \<lparr>sch_id = Client_ID, sch_set_id = (\<lambda>i r. r\<lparr>Client_ID := i\<rparr>),
      sch_clash = (\<lambda>r s. Client_ClientID r = Client_ClientID s),
      sch_check = (\<lambda>r. Client_ClientType r \<in> set [''confidential'', ''public'']
         \<and> Client_TokenEndpointAuthMethod r \<in> set [''client_secret_basic'', ''client_secret_post'', ''none'']
         \<and> Client_Environment r \<in> set [''local'', ''staging'', ''production'']),
      sch_refs = (\<lambda>w r. has_row App_ID (applications w) (Client_ApplicationID r))\<rparr>"

definition codes_schema :: "authorization_code schema" where
  "codes_schema =
     \<lparr>sch_id = Code_ID, sch_set_id = (\<lambda>i r. r\<lparr>Code_ID := i\<rparr>),
      sch_clash = (\<lambda>r s. Code_CodeHash r = Code_CodeHash s),
      sch_check = (\<lambda>r. Code_CodeChallengeMethod r \<in> set [''S256'']),
      sch_refs = (\<lambda>w r. has_row Client_ID (oauth_clients w) (Code_OAuthClientID r)
                       \<and> has_row User_ID (users w) (Code_UserID r))\<rparr>"

lemmas schema_defs =
  users_schema_def sessions_schema_def operators_schema_def operator_sessions_schema_def
  applications_schema_def identity_providers_schema_def user_identities_schema_def
  oauth_clients_schema_def codes_schema_def

section \<open>Statements on one table\<close>

definition table_insert ::
    "'r schema \<Rightarrow> world \<Rightarrow> 'r \<Rightarrow> 'r table \<Rightarrow> (goerr + 'r) \<times> 'r table" where
  "table_insert S w r t =
     (let r' = sch_set_id S (tbl_next t) r;
          t' = t\<lparr>tbl_next := tbl_next t + 1\<rparr>
      in if \<not> sch_check S r' then (Inl (ErrDB CheckViolation), t')
         else if list_ex (\<lambda>s. sch_clash S s r') (tbl_rows t) then (Inl (ErrDB UniqueViolation), t')
         else if \<not> sch_refs S w r' then (Inl (ErrDB ForeignKeyViolation), t')
         else (Inr r', t'\<lparr>tbl_rows := tbl_rows t @ [r']\<rparr>))"

definition table_update :: "('r \<Rightarrow> bool) \<Rightarrow> ('r \<Rightarrow> 'r) \<Rightarrow> 'r table \<Rightarrow> 'r table" where
  "table_update P g t = t\<lparr>tbl_rows := map (\<lambda>r. if P r then g r else r) (tbl_rows t)\<rparr>"

definition table_delete :: "('r \<Rightarrow> bool) \<Rightarrow> 'r table \<Rightarrow> 'r table" where
  "table_delete P t = t\<lparr>tbl_rows := filter (\<lambda>r. \<not> P r) (tbl_rows t)\<rparr>"

definition affected :: "('r \<Rightarrow> bool) \<Rightarrow> 'r table \<Rightarrow> nat" where
  "affected P t = length (filter P (tbl_rows t))"

lemma tbl_rows_update: "tbl_rows (table_update P g t) = map (\<lambda>r. if P r then g r else r) (tbl_rows t)"
  by (simp add: table_update_def)

lemma tbl_next_update: "tbl_next (table_update P g t) = tbl_next t"
  by (simp add: table_update_def)

text \<open>What a table satisfies when its constraints hold.\<close>

definition table_ok :: "'r schema \<Rightarrow> 'r table \<Rightarrow> bool" where
  "table_ok S t \<longleftrightarrow>
     sorted_wrt (\<lambda>r s. sch_id S r < sch_id S s \<and> \<not> sch_clash S r s) (tbl_rows t) \<and>
     (\<forall>r \<in> set (tbl_rows t). sch_id S r < tbl_next t \<and> sch_check S r)"

text \<open>
  The contract of a schema: setting the identifier sets it and nothing the constraints look at.
  Each table's schema satisfies it, so the facts below hold for every table.
\<close>

locale row_schema =
  fixes S :: "'r schema"
  assumes set_id_id: "sch_id S (sch_set_id S i r) = i"
    and clash_sym: "sch_clash S r s \<Longrightarrow> sch_clash S s r"
begin

lemma table_insert_ok:
  assumes "table_ok S t"
  shows "table_ok S (snd (table_insert S w r t))"
proof -
  have "sch_id S s < tbl_next t \<Longrightarrow> sch_id S s < tbl_next t + 1" for s
    by simp
  with assms show ?thesis
    by (auto simp: table_ok_def table_insert_def Let_def sorted_wrt_snoc set_id_id list_ex_iff)
qed

lemma table_insert_row:
  assumes "table_insert S w r t = (Inr r', t')"
  shows "r' = sch_set_id S (tbl_next t) r" and "tbl_rows t' = tbl_rows t @ [r']"
    and "tbl_next t' = tbl_next t + 1" and "sch_check S r'" and "sch_refs S w r'"
    and "\<And>s. s \<in> set (tbl_rows t) \<Longrightarrow> \<not> sch_clash S s r'"
  using assms by (auto simp: table_insert_def Let_def list_ex_iff split: if_splits)

lemma table_insert_rejected:
  assumes "table_insert S w r t = (Inl e, t')"
  shows "tbl_rows t' = tbl_rows t" and "tbl_next t' = tbl_next t + 1"
    and "e \<in> {ErrDB CheckViolation, ErrDB UniqueViolation, ErrDB ForeignKeyViolation}"
  using assms by (auto simp: table_insert_def Let_def split: if_splits)

lemma table_update_ok:
  assumes "table_ok S t"
    and "\<And>r. sch_id S (g r) = sch_id S r" and "\<And>r. sch_check S r \<Longrightarrow> sch_check S (g r)"
    and "\<And>r s. sch_clash S (g r) s = sch_clash S r s"
  shows "table_ok S (table_update P g t)"
proof -
  have right: "sch_clash S r (g s) = sch_clash S r s" for r s
    using assms(4) clash_sym by blast
  let ?g = "\<lambda>r. if P r then g r else r"
  have keep: "sch_id S (?g r) = sch_id S r" "sch_clash S (?g r) (?g s) = sch_clash S r s" for r s
    using assms(2,4) right by auto
  have "sorted_wrt (\<lambda>r s. sch_id S r < sch_id S s \<and> \<not> sch_clash S r s) (map ?g (tbl_rows t))"
    unfolding sorted_wrt_map keep using assms(1) by (simp add: table_ok_def)
  moreover have "\<forall>r \<in> set (tbl_rows t). sch_id S (?g r) < tbl_next t \<and> sch_check S (?g r)"
    using assms(1,3) unfolding keep by (simp add: table_ok_def)
  ultimately show ?thesis
    unfolding table_ok_def tbl_rows_update tbl_next_update by (simp only: set_map ball_simps image_iff)
qed

lemma table_delete_ok: "table_ok S t \<Longrightarrow> table_ok S (table_delete P t)"
  by (auto simp: table_ok_def table_delete_def sorted_wrt_filter)

lemma table_ok_distinct: "table_ok S t \<Longrightarrow> distinct (map (sch_id S) (tbl_rows t))"
  by (rule strict_keys_distinct) (auto simp: table_ok_def elim: sorted_wrt_mono_rel [rotated])

lemma table_ok_unique_id:
  "table_ok S t \<Longrightarrow> r \<in> set (tbl_rows t) \<Longrightarrow> s \<in> set (tbl_rows t) \<Longrightarrow> sch_id S r = sch_id S s \<Longrightarrow> r = s"
  using table_ok_distinct distinct_map_eqD by metis

lemma table_ok_clash:
  assumes "table_ok S t" and "r \<in> set (tbl_rows t)" and "s \<in> set (tbl_rows t)" and "sch_clash S r s"
  shows "r = s"
proof -
  have "sorted_wrt (\<lambda>r s. \<not> sch_clash S r s) (tbl_rows t)"
    using assms(1) by (auto simp: table_ok_def elim: sorted_wrt_mono_rel [rotated])
  then have "\<And>i j. i < j \<Longrightarrow> j < length (tbl_rows t) \<Longrightarrow> \<not> sch_clash S (tbl_rows t ! i) (tbl_rows t ! j)"
    by (simp add: sorted_wrt_iff_nth_less)
  then show ?thesis using assms(2-4) clash_sym by (metis in_set_conv_nth linorder_neqE_nat)
qed

lemma affected_id: "table_ok S t \<Longrightarrow> affected (\<lambda>r. sch_id S r = i \<and> P r) t \<le> 1"
  unfolding affected_def by (rule filter_key_le_1 [OF table_ok_distinct]) auto

end

lemma empty_table_ok [simp]: "table_ok S empty_table"
  by (simp add: table_ok_def empty_table_def)

interpretation users_tbl: row_schema "users_schema E" for E
  by unfold_locales (auto simp: schema_defs)

interpretation sessions_tbl: row_schema sessions_schema
  by unfold_locales (auto simp: schema_defs)

interpretation operators_tbl: row_schema "operators_schema E" for E
  by unfold_locales (auto simp: schema_defs)

interpretation operator_sessions_tbl: row_schema operator_sessions_schema
  by unfold_locales (auto simp: schema_defs)

interpretation applications_tbl: row_schema applications_schema
  by unfold_locales (auto simp: schema_defs)

interpretation identity_providers_tbl: row_schema identity_providers_schema
  by unfold_locales (auto simp: schema_defs)

interpretation user_identities_tbl: row_schema user_identities_schema
  by unfold_locales (auto simp: schema_defs)

interpretation oauth_clients_tbl: row_schema oauth_clients_schema
  by unfold_locales (auto simp: schema_defs)

interpretation codes_tbl: row_schema codes_schema
  by unfold_locales (auto simp: schema_defs)

end
