(* ===== verification/Gorm.thy ===== *)
theory Gorm
  imports Database
begin

text \<open>
  The statements the repositories issue through gorm.  A statement runs atomically on the state;
  \<open>sql\<close> lets the outside world refuse it, or run it and lose the reply.  Create replaces zero values
  by the columns' defaults and fills the two time stamps from one reading of the clock, the updates
  set \<open>updated_at\<close>; a transaction that fails restores the rows, not the identity sequences.
\<close>

section \<open>Models: a table of the state and its columns\<close>

record 'r model =
  m_table :: "world \<Rightarrow> 'r table"
  m_put :: "'r table \<Rightarrow> world \<Rightarrow> world"
  m_schema :: "'r schema"
  m_created :: "instant \<Rightarrow> 'r \<Rightarrow> 'r" \<comment> \<open>column defaults and zero time stamps\<close>
  m_updated :: "instant \<Rightarrow> 'r \<Rightarrow> 'r" \<comment> \<open>set \<open>updated_at\<close>\<close>

definition stamp :: "instant \<Rightarrow> instant \<Rightarrow> instant" where
  "stamp now t = (if t = zero_time then now else t)"

text \<open>On Create, gorm takes a column's \<open>default:\<close> tag when the field has its zero value.\<close>

definition or_default :: "'a \<Rightarrow> 'a \<Rightarrow> 'a \<Rightarrow> 'a" where
  "or_default d zero v = (if v = zero then d else v)"

definition Users :: "env \<Rightarrow> user model" where
  "Users E = \<lparr>m_table = users, m_put = (\<lambda>t w. w\<lparr>users := t\<rparr>), m_schema = users_schema E,
     m_created = (\<lambda>now r. r\<lparr>User_CreatedAt := stamp now (User_CreatedAt r),
                            User_UpdatedAt := stamp now (User_UpdatedAt r)\<rparr>),
     m_updated = (\<lambda>now r. r\<lparr>User_UpdatedAt := now\<rparr>)\<rparr>"

definition Sessions :: "session model" where
  "Sessions = \<lparr>m_table = sessions, m_put = (\<lambda>t w. w\<lparr>sessions := t\<rparr>), m_schema = sessions_schema,
     m_created = (\<lambda>now r. r\<lparr>Session_CreatedAt := stamp now (Session_CreatedAt r),
                            Session_UpdatedAt := stamp now (Session_UpdatedAt r)\<rparr>),
     m_updated = (\<lambda>now r. r\<lparr>Session_UpdatedAt := now\<rparr>)\<rparr>"

definition Operators :: "env \<Rightarrow> operator model" where
  "Operators E = \<lparr>m_table = operators, m_put = (\<lambda>t w. w\<lparr>operators := t\<rparr>), m_schema = operators_schema E,
     m_created = (\<lambda>now r. r\<lparr>Operator_CreatedAt := stamp now (Operator_CreatedAt r),
                            Operator_UpdatedAt := stamp now (Operator_UpdatedAt r)\<rparr>),
     m_updated = (\<lambda>now r. r\<lparr>Operator_UpdatedAt := now\<rparr>)\<rparr>"

definition OperatorSessions :: "operator_session model" where
  "OperatorSessions = \<lparr>m_table = operator_sessions, m_put = (\<lambda>t w. w\<lparr>operator_sessions := t\<rparr>),
     m_schema = operator_sessions_schema,
     m_created = (\<lambda>now r. r\<lparr>OpSession_CreatedAt := stamp now (OpSession_CreatedAt r),
                            OpSession_UpdatedAt := stamp now (OpSession_UpdatedAt r)\<rparr>),
     m_updated = (\<lambda>now r. r\<lparr>OpSession_UpdatedAt := now\<rparr>)\<rparr>"

definition Applications :: "application model" where
  "Applications = \<lparr>m_table = applications, m_put = (\<lambda>t w. w\<lparr>applications := t\<rparr>),
     m_schema = applications_schema,
     m_created = (\<lambda>now r. r\<lparr>App_FirstParty := or_default True False (App_FirstParty r),
                            App_CreatedAt := stamp now (App_CreatedAt r),
                            App_UpdatedAt := stamp now (App_UpdatedAt r)\<rparr>),
     m_updated = (\<lambda>now r. r\<lparr>App_UpdatedAt := now\<rparr>)\<rparr>"

definition IdentityProviders :: "identity_provider model" where
  "IdentityProviders = \<lparr>m_table = identity_providers, m_put = (\<lambda>t w. w\<lparr>identity_providers := t\<rparr>),
     m_schema = identity_providers_schema,
     m_created = (\<lambda>now r. r\<lparr>IdP_CreatedAt := stamp now (IdP_CreatedAt r),
                            IdP_UpdatedAt := stamp now (IdP_UpdatedAt r)\<rparr>),
     m_updated = (\<lambda>now r. r\<lparr>IdP_UpdatedAt := now\<rparr>)\<rparr>"

definition UserIdentities :: "user_identity model" where
  "UserIdentities = \<lparr>m_table = user_identities, m_put = (\<lambda>t w. w\<lparr>user_identities := t\<rparr>),
     m_schema = user_identities_schema,
     m_created = (\<lambda>now r. r\<lparr>Ident_CreatedAt := stamp now (Ident_CreatedAt r),
                            Ident_UpdatedAt := stamp now (Ident_UpdatedAt r)\<rparr>),
     m_updated = (\<lambda>now r. r\<lparr>Ident_UpdatedAt := now\<rparr>)\<rparr>"

definition OAuthClients :: "oauth_client model" where
  "OAuthClients = \<lparr>m_table = oauth_clients, m_put = (\<lambda>t w. w\<lparr>oauth_clients := t\<rparr>),
     m_schema = oauth_clients_schema,
     m_created = (\<lambda>now r. r\<lparr>Client_TokenEndpointAuthMethod := or_default ''none'' [] (Client_TokenEndpointAuthMethod r),
                            Client_Environment := or_default ''local'' [] (Client_Environment r),
                            Client_CreatedAt := stamp now (Client_CreatedAt r),
                            Client_UpdatedAt := stamp now (Client_UpdatedAt r)\<rparr>),
     m_updated = (\<lambda>now r. r\<lparr>Client_UpdatedAt := now\<rparr>)\<rparr>"

definition Codes :: "authorization_code model" where
  "Codes = \<lparr>m_table = codes, m_put = (\<lambda>t w. w\<lparr>codes := t\<rparr>), m_schema = codes_schema,
     m_created = (\<lambda>now r. r\<lparr>Code_CodeChallengeMethod := or_default ''S256'' [] (Code_CodeChallengeMethod r),
                            Code_CreatedAt := stamp now (Code_CreatedAt r),
                            Code_UpdatedAt := stamp now (Code_UpdatedAt r)\<rparr>),
     m_updated = (\<lambda>now r. r\<lparr>Code_UpdatedAt := now\<rparr>)\<rparr>"

lemmas model_defs =
  Users_def Sessions_def Operators_def OperatorSessions_def Applications_def
  IdentityProviders_def UserIdentities_def OAuthClients_def Codes_def

section \<open>Statements\<close>

definition sql :: "env \<Rightarrow> (world \<Rightarrow> (goerr + 'a) \<times> world) \<Rightarrow> (world, goerr + 'a) state" where
  "sql E f = State (\<lambda>w.
     let w' = w\<lparr>db_calls := Suc (db_calls w)\<rparr> in
     case db_fault E (db_calls w) of
       NoFault \<Rightarrow> f w'
     | Refused \<Rightarrow> (Inl (ErrDB ConnectionFailed), w')
     | LostReply \<Rightarrow> (Inl (ErrDB ConnectionFailed), snd (f w')))"

text \<open>The rows of a table, and the state with other rows in it.\<close>

definition rows :: "'r model \<Rightarrow> world \<Rightarrow> 'r list" where
  "rows M w = tbl_rows (m_table M w)"

definition gorm_insert :: "'r model \<Rightarrow> 'r \<Rightarrow> world \<Rightarrow> (goerr + 'r) \<times> world" where
  "gorm_insert M r w =
     (case table_insert (m_schema M) w r (m_table M w) of (res, t) \<Rightarrow> (res, m_put M t w))"

definition Create :: "env \<Rightarrow> 'r model \<Rightarrow> 'r \<Rightarrow> (world, goerr + 'r) state" where
  "Create E M r = do { now \<leftarrow> Now E; sql E (gorm_insert M (m_created M now r)) }"

definition First :: "env \<Rightarrow> 'r model \<Rightarrow> ('r \<Rightarrow> bool) \<Rightarrow> (world, goerr + 'r) state" where
  "First E M P = sql E (\<lambda>w.
     (case find P (rows M w) of None \<Rightarrow> Inl ErrRecordNotFound | Some r \<Rightarrow> Inr r, w))"

definition Find :: "env \<Rightarrow> 'r model \<Rightarrow> ('r \<Rightarrow> bool) \<Rightarrow> (world, goerr + 'r list) state" where
  "Find E M P = sql E (\<lambda>w. (Inr (filter P (rows M w)), w))"

definition Count :: "env \<Rightarrow> 'r model \<Rightarrow> (world, goerr + nat) state" where
  "Count E M = sql E (\<lambda>w. (Inr (length (rows M w)), w))"

text \<open>Setting one column that no constraint is about; the result is the number of rows.\<close>

definition gorm_update ::
    "'r model \<Rightarrow> ('r \<Rightarrow> bool) \<Rightarrow> ('r \<Rightarrow> 'r) \<Rightarrow> world \<Rightarrow> (goerr + nat) \<times> world" where
  "gorm_update M P g w = (Inr (affected P (m_table M w)), m_put M (table_update P g (m_table M w)) w)"

definition Update :: "env \<Rightarrow> 'r model \<Rightarrow> ('r \<Rightarrow> bool) \<Rightarrow> ('r \<Rightarrow> 'r) \<Rightarrow> (world, goerr + nat) state" where
  "Update E M P g = do { now \<leftarrow> Now E; sql E (gorm_update M P (\<lambda>r. m_updated M now (g r))) }"

text \<open>Setting every column but the identifier: the constraints are checked on the result.\<close>

definition gorm_updates :: "'r model \<Rightarrow> int \<Rightarrow> 'r \<Rightarrow> world \<Rightarrow> (goerr + nat) \<times> world" where
  "gorm_updates M i r w =
     (let P = (\<lambda>s. sch_id (m_schema M) s = i);
          r' = sch_set_id (m_schema M) i r
      in if affected P (m_table M w) = 0 then (Inr 0, w)
         else if \<not> sch_check (m_schema M) r' then (Inl (ErrDB CheckViolation), w)
         else if list_ex (\<lambda>s. \<not> P s \<and> sch_clash (m_schema M) s r') (rows M w) then (Inl (ErrDB UniqueViolation), w)
         else if \<not> sch_refs (m_schema M) w r' then (Inl (ErrDB ForeignKeyViolation), w)
         else gorm_update M P (\<lambda>_. r') w)"

definition Updates :: "env \<Rightarrow> 'r model \<Rightarrow> int \<Rightarrow> 'r \<Rightarrow> (world, goerr + nat) state" where
  "Updates E M i r = do { now \<leftarrow> Now E; sql E (gorm_updates M i (m_updated M now r)) }"

definition Delete :: "env \<Rightarrow> 'r model \<Rightarrow> ('r \<Rightarrow> bool) \<Rightarrow> (world, goerr + nat) state" where
  "Delete E M P = sql E (\<lambda>w.
     (Inr (affected P (m_table M w)), m_put M (table_delete P (m_table M w)) w))"

text \<open>\<open>errors.Is(err, gorm.ErrRecordNotFound)\<close> becomes the repositories' own error.\<close>

definition not_found :: "goerr + 'a \<Rightarrow> goerr + 'a" where
  "not_found r = (if r = Inl ErrRecordNotFound then Inl ErrNotFound else r)"

text \<open>\<open>if err != nil { return err }; if rows == 0 { return ErrNotFound }; return nil\<close>.\<close>

definition must_affect :: "goerr + nat \<Rightarrow> goerr + unit" where
  "must_affect r = (case r of Inl e \<Rightarrow> Inl e | Inr n \<Rightarrow> if n = 0 then Inl ErrNotFound else Inr ())"

text \<open>What a query for one row answers.\<close>

definition lookup :: "env \<Rightarrow> 'r model \<Rightarrow> ('r \<Rightarrow> bool) \<Rightarrow> world \<Rightarrow> goerr + 'r" where
  "lookup E M P w =
     (if db_fault E (db_calls w) = NoFault
      then case find P (rows M w) of None \<Rightarrow> Inl ErrNotFound | Some r \<Rightarrow> Inr r
      else Inl (ErrDB ConnectionFailed))"

lemma lookup_InrD: "lookup E M P w = Inr r \<Longrightarrow> find P (rows M w) = Some r \<and> r \<in> set (rows M w) \<and> P r"
  by (auto simp: lookup_def dest: find_SomeD split: if_splits option.splits)

section \<open>Transactions\<close>

definition restore :: "'r table \<Rightarrow> 'r table \<Rightarrow> 'r table" where
  "restore t0 t = t0\<lparr>tbl_next := tbl_next t\<rparr>"

definition rollback :: "world \<Rightarrow> world \<Rightarrow> world" where
  "rollback w0 w = w
     \<lparr>users := restore (users w0) (users w), sessions := restore (sessions w0) (sessions w),
      operators := restore (operators w0) (operators w),
      operator_sessions := restore (operator_sessions w0) (operator_sessions w),
      applications := restore (applications w0) (applications w),
      identity_providers := restore (identity_providers w0) (identity_providers w),
      user_identities := restore (user_identities w0) (user_identities w),
      oauth_clients := restore (oauth_clients w0) (oauth_clients w),
      codes := restore (codes w0) (codes w)\<rparr>"

definition Transaction :: "env \<Rightarrow> (world, goerr + 'a) state \<Rightarrow> (world, goerr + 'a) state" where
  "Transaction E body = do {
     began \<leftarrow> sql E (\<lambda>w. (Inr w, w));
     case began of
       Inl e \<Rightarrow> ret (Inl e)
     | Inr w0 \<Rightarrow> do {
         r \<leftarrow> body;
         case r of
           Inl e \<Rightarrow> State (\<lambda>w. (Inl e, rollback w0 w))
         | Inr a \<Rightarrow> State (\<lambda>w.
             let w' = w\<lparr>db_calls := Suc (db_calls w)\<rparr> in
             case db_fault E (db_calls w) of
               NoFault \<Rightarrow> (Inr a, w')
             | Refused \<Rightarrow> (Inl (ErrDB ConnectionFailed), rollback w0 w')
             | LostReply \<Rightarrow> (Inl (ErrDB ConnectionFailed), w'))
       }
   }"

section \<open>The contract of a model\<close>

text \<open>Every identifier a foreign key can name is still there.\<close>

definition ids_grow :: "world \<Rightarrow> world \<Rightarrow> bool" where
  "ids_grow w w' \<longleftrightarrow>
     (\<forall>k. has_row User_ID (users w) k \<longrightarrow> has_row User_ID (users w') k) \<and>
     (\<forall>k. has_row Operator_ID (operators w) k \<longrightarrow> has_row Operator_ID (operators w') k) \<and>
     (\<forall>k. has_row App_ID (applications w) k \<longrightarrow> has_row App_ID (applications w') k) \<and>
     (\<forall>k. has_row Client_ID (oauth_clients w) k \<longrightarrow> has_row Client_ID (oauth_clients w') k)"

text \<open>The constraints of a model's table hold, foreign keys included.\<close>

definition model_ok :: "'r model \<Rightarrow> world \<Rightarrow> bool" where
  "model_ok M w \<longleftrightarrow>
     table_ok (m_schema M) (m_table M w) \<and> (\<forall>r \<in> set (rows M w). sch_refs (m_schema M) w r)"

lemma model_okI:
  "table_ok (m_schema M) (m_table M w) \<Longrightarrow> (\<And>r. r \<in> set (rows M w) \<Longrightarrow> sch_refs (m_schema M) w r) \<Longrightarrow> model_ok M w"
  by (simp add: model_ok_def)

lemma ids_grow_refl [simp]: "ids_grow w w"
  by (simp add: ids_grow_def)

lemma has_row_iff: "has_row i t k \<longleftrightarrow> k \<in> i ` set (tbl_rows t)"
  by (auto simp: has_row_def list_ex_iff)

text \<open>Which statements keep which state: the counters move, the table is replaced.\<close>

definition counted :: "nat \<Rightarrow> nat \<Rightarrow> world \<Rightarrow> world" where
  "counted a b w = w\<lparr>ticks := ticks w + a, db_calls := db_calls w + b\<rparr>"

lemma counted_simps [simp]:
  "users (counted a b w) = users w" "sessions (counted a b w) = sessions w"
  "operators (counted a b w) = operators w" "operator_sessions (counted a b w) = operator_sessions w"
  "applications (counted a b w) = applications w"
  "identity_providers (counted a b w) = identity_providers w"
  "user_identities (counted a b w) = user_identities w"
  "oauth_clients (counted a b w) = oauth_clients w" "codes (counted a b w) = codes w"
  "ticks (counted a b w) = ticks w + a" "db_calls (counted a b w) = db_calls w + b"
  "entropy_reads (counted a b w) = entropy_reads w"
  by (simp_all add: counted_def)

lemma counted_counted [simp]: "counted a b (counted c d w) = counted (a + c) (b + d) w"
  by (simp add: counted_def add.commute add.left_commute)

lemma counted_0 [simp]: "counted 0 0 w = w"
  by (simp add: counted_def)

lemma run_Now_counted: "run_state (Now E) w = (clock E (ticks w), counted 1 0 w)"
  by (simp add: run_Now counted_def)

text \<open>Only a table of its own, the clock and the count of statements change.\<close>

definition touches :: "'r model \<Rightarrow> world \<Rightarrow> world \<Rightarrow> bool" where
  "touches M w w' \<longleftrightarrow> (\<exists>t a b. w' = counted a b (m_put M t w))"

definition own_step :: "'r model \<Rightarrow> world \<Rightarrow> world \<Rightarrow> bool" where
  "own_step M w w' \<longleftrightarrow> touches M w w' \<and> model_ok M w' \<and> ids_grow w w'
     \<and> tbl_next (m_table M w) \<le> tbl_next (m_table M w')"

locale db_model = row_schema "m_schema M" for M :: "'r model" +
  assumes get_put: "m_table M (m_put M t w) = t"
    and put_get: "m_put M (m_table M w) w = w"
    and put_counted: "m_put M t (counted a b w) = counted a b (m_put M t w)"
    and get_counted: "m_table M (counted a b w) = m_table M w"
    and refs_grow: "ids_grow w w' \<Longrightarrow> sch_refs (m_schema M) w r \<Longrightarrow> sch_refs (m_schema M) w' r"
    and put_grow: "(\<And>k. has_row (sch_id (m_schema M)) (m_table M w) k \<Longrightarrow> has_row (sch_id (m_schema M)) t k)
                     \<Longrightarrow> ids_grow w (m_put M t w)"
    and updated_id: "sch_id (m_schema M) (m_updated M now r) = sch_id (m_schema M) r"
    and updated_check: "sch_check (m_schema M) (m_updated M now r) = sch_check (m_schema M) r"
    and updated_clash: "sch_clash (m_schema M) (m_updated M now r) s = sch_clash (m_schema M) r s"
    and updated_refs: "sch_refs (m_schema M) w (m_updated M now r) = sch_refs (m_schema M) w r"
begin

lemma run_sql:
  "run_state (sql E f) w =
     (case db_fault E (db_calls w) of
        NoFault \<Rightarrow> f (counted 0 1 w)
      | Refused \<Rightarrow> (Inl (ErrDB ConnectionFailed), counted 0 1 w)
      | LostReply \<Rightarrow> (Inl (ErrDB ConnectionFailed), snd (f (counted 0 1 w))))"
  by (simp add: sql_def Let_def counted_def split: fault.splits)

lemma rows_put: "rows M (m_put M t w) = tbl_rows t"
  by (simp add: rows_def get_put)

lemma rows_counted: "rows M (counted a b w) = rows M w"
  by (simp add: rows_def get_counted)

text \<open>What a completed Create did.\<close>

lemma CreateE:
  assumes "run_state (Create E M r) w = (Inr r', w')"
  obtains "r' = sch_set_id (m_schema M) (tbl_next (m_table M w)) (m_created M (clock E (ticks w)) r)"
    and "rows M w' = rows M w @ [r']" and "sch_check (m_schema M) r'"
    and "\<And>s. s \<in> set (rows M w) \<Longrightarrow> \<not> sch_clash (m_schema M) s r'"
    and "w' = counted 1 1 (m_put M (m_table M w \<lparr>tbl_rows := rows M w @ [r'], tbl_next := tbl_next (m_table M w) + 1\<rparr>) w)"
proof -
  let ?v = "counted 1 1 w"
  have "db_fault E (db_calls w) = NoFault"
    and ins: "gorm_insert M (m_created M (clock E (ticks w)) r) ?v = (Inr r', w')"
    using assms by (auto simp: Create_def run_Now_counted run_sql split: fault.splits)
  then obtain t' where t': "table_insert (m_schema M) ?v (m_created M (clock E (ticks w)) r) (m_table M w) = (Inr r', t')"
    and w': "w' = m_put M t' ?v"
    by (auto simp: gorm_insert_def get_counted split: prod.splits)
  have "t' = m_table M w \<lparr>tbl_rows := rows M w @ [r'], tbl_next := tbl_next (m_table M w) + 1\<rparr>"
    using table_insert_row(2,3) [OF t'] by (simp add: rows_def)
  then show thesis
    using that table_insert_row [OF t'] w' by (simp add: rows_counted rows_put put_counted)
qed

lemma touches_refl [intro, simp]: "touches M w w" "touches M w (counted a b w)"
  by (unfold touches_def, metis put_get counted_0, metis put_get)

lemma gorm_insert_touches: "touches M w (snd (gorm_insert M r (counted a b w)))"
  by (auto simp: gorm_insert_def touches_def get_counted put_counted split: prod.splits)

lemma run_sql_touches:
  assumes "\<And>a b. touches M w (snd (f (counted a b w)))"
  shows "touches M w (snd (run_state (sql E f) (counted a b w)))"
  using assms by (simp add: run_sql split: fault.splits)

lemma Create_touches: "touches M w (snd (run_state (Create E M r) w))"
  using run_sql_touches [of w "gorm_insert M (m_created M (clock E (ticks w)) r)" E 1 0]
  by (simp add: Create_def run_Now_counted gorm_insert_touches)

lemma gorm_update_touches: "touches M w (snd (gorm_update M P g (counted a b w)))"
  by (auto simp: gorm_update_def touches_def get_counted put_counted)

lemma Update_touches: "touches M w (snd (run_state (Update E M P g) w))"
  using run_sql_touches [of w "gorm_update M P (\<lambda>r. m_updated M (clock E (ticks w)) (g r))" E 1 0]
  by (simp add: Update_def run_Now_counted gorm_update_touches)

text \<open>A statement that only reads.\<close>

lemma run_sql_read:
  assumes "\<And>v. snd (f v) = v"
  shows "snd (run_state (sql E f) w) = counted 0 1 w"
  using assms by (simp add: run_sql split: fault.splits)

lemma FirstE:
  assumes "run_state (First E M P) w = (res, w')"
  obtains "w' = counted 0 1 w"
    and "\<And>r. res = Inr r \<Longrightarrow> find P (rows M w) = Some r"
    and "db_fault E (db_calls w) = NoFault \<Longrightarrow>
           res = (case find P (rows M w) of None \<Rightarrow> Inl ErrRecordNotFound | Some r \<Rightarrow> Inr r)"
    and "\<And>e. res = Inl e \<Longrightarrow> e = ErrRecordNotFound \<and> find P (rows M w) = None \<or> e = ErrDB ConnectionFailed"
proof -
  have "w' = counted 0 1 w"
    using run_sql_read [of "\<lambda>w. (case find P (rows M w) of None \<Rightarrow> Inl ErrRecordNotFound | Some r \<Rightarrow> Inr r, w)" E w] assms
    by (simp add: First_def)
  moreover have "run_state (First E M P) w =
      (if db_fault E (db_calls w) = NoFault
       then case find P (rows M w) of None \<Rightarrow> Inl ErrRecordNotFound | Some r \<Rightarrow> Inr r
       else Inl (ErrDB ConnectionFailed), counted 0 1 w)"
    by (cases "db_fault E (db_calls w)") (simp_all add: First_def run_sql rows_counted)
  ultimately show thesis
    using that assms by (simp split: if_splits option.splits)
qed

lemma run_First_not_found:
  "run_state (First E M P \<bind> (\<lambda>r. ret (not_found r))) w = (lookup E M P w, counted 0 1 w)"
  by (cases "db_fault E (db_calls w)"; cases "find P (rows M w)")
     (simp_all add: First_def run_sql rows_counted lookup_def not_found_def)

lemma UpdateE:
  assumes "run_state (Update E M P g) w = (Inr n, w')"
  obtains "n = affected P (m_table M w)"
    and "w' = counted 1 1 (m_put M (table_update P (\<lambda>r. m_updated M (clock E (ticks w)) (g r)) (m_table M w)) w)"
  using that assms
  by (auto simp: Update_def run_Now_counted run_sql gorm_update_def get_counted put_counted split: fault.splits)

lemma rows_update:
  "rows M (m_put M (table_update P g (m_table M w)) w) = map (\<lambda>r. if P r then g r else r) (rows M w)"
  by (simp add: rows_put table_update_def) (simp add: rows_def)

lemma UpdateE':
  assumes "run_state (Update E M P g) w = (res, w')"
  obtains "w' = counted 1 1 w" and "res = Inl (ErrDB ConnectionFailed)"
  | "w' = counted 1 1 (m_put M (table_update P (\<lambda>r. m_updated M (clock E (ticks w)) (g r)) (m_table M w)) w)"
  using that assms
  by (auto simp: Update_def run_Now_counted run_sql gorm_update_def get_counted put_counted split: fault.splits)

lemma DeleteD:
  assumes "run_state (Delete E M P) w = (Inr n, w')"
  shows "rows M w' = filter (\<lambda>r. \<not> P r) (rows M w) \<and> n = length (rows M w) - length (rows M w')"
proof -
  have "n = affected P (m_table M w)" and w': "w' = counted 0 1 (m_put M (table_delete P (m_table M w)) w)"
    using assms by (auto simp: Delete_def run_sql get_counted put_counted split: fault.splits)
  moreover have "length (filter P xs) + length (filter (\<lambda>r. \<not> P r) xs) = length xs" for xs
    by (induction xs) auto
  moreover have "rows M w' = filter (\<lambda>r. \<not> P r) (rows M w)"
    unfolding w' rows_counted rows_put by (simp add: table_delete_def rows_def)
  ultimately show ?thesis
    by (simp add: affected_def rows_def) (metis add_diff_cancel_right')
qed

text \<open>The constraints of the table survive every statement on it.\<close>

lemma model_ok_counted: "model_ok M (counted a b w) = model_ok M w"
proof -
  have "sch_refs (m_schema M) (counted a b w) r = sch_refs (m_schema M) w r" for r
  proof
    have "ids_grow (counted a b w) w" "ids_grow w (counted a b w)"
      by (simp_all add: ids_grow_def)
    then show "sch_refs (m_schema M) (counted a b w) r \<Longrightarrow> sch_refs (m_schema M) w r"
      and "sch_refs (m_schema M) w r \<Longrightarrow> sch_refs (m_schema M) (counted a b w) r"
      using refs_grow by blast+
  qed
  then show ?thesis by (simp add: model_ok_def get_counted rows_counted)
qed

lemma model_ok_frame:
  "model_ok M w \<Longrightarrow> ids_grow w w' \<Longrightarrow> m_table M w' = m_table M w \<Longrightarrow> model_ok M w'"
  by (auto simp: model_ok_def rows_def intro: refs_grow)

lemma model_ok_insert:
  assumes "model_ok M w"
  shows "model_ok M (snd (gorm_insert M r w)) \<and> ids_grow w (snd (gorm_insert M r w))"
proof -
  obtain res t where t: "table_insert (m_schema M) w r (m_table M w) = (res, t)"
    by fastforce
  have ok: "table_ok (m_schema M) t"
    using table_insert_ok [of "m_table M w" w r] assms t by (simp add: model_ok_def)
  have both: "(\<forall>q \<in> set (tbl_rows t). sch_refs (m_schema M) w q) \<and> set (rows M w) \<subseteq> set (tbl_rows t)"
  proof (cases res)
    case (Inl e)
    then have "tbl_rows t = tbl_rows (m_table M w)"
      using table_insert_rejected(1) t by blast
    with assms show ?thesis by (simp add: model_ok_def rows_def)
  next
    case (Inr r')
    then have "tbl_rows t = tbl_rows (m_table M w) @ [r']" and "sch_refs (m_schema M) w r'"
      using table_insert_row(2,5) t by blast+
    with assms show ?thesis by (auto simp: model_ok_def rows_def)
  qed
  then have sub: "q \<in> set (tbl_rows t) \<Longrightarrow> sch_refs (m_schema M) w q"
    and sup: "q \<in> set (rows M w) \<Longrightarrow> q \<in> set (tbl_rows t)" for q
    by blast+
  have grow: "ids_grow w (m_put M t w)"
    using sup by (intro put_grow) (auto simp: has_row_iff rows_def)
  have "model_ok M (m_put M t w)"
    using sub refs_grow [OF grow] by (intro model_okI) (auto simp: get_put ok rows_put)
  with grow t show ?thesis by (simp add: gorm_insert_def)
qed

lemma model_ok_update:
  assumes "model_ok M w"
    and "\<And>r. sch_id (m_schema M) (g r) = sch_id (m_schema M) r"
    and "\<And>r. sch_check (m_schema M) r \<Longrightarrow> sch_check (m_schema M) (g r)"
    and "\<And>r s. sch_clash (m_schema M) (g r) s = sch_clash (m_schema M) r s"
    and "\<And>r. sch_refs (m_schema M) w (g r) = sch_refs (m_schema M) w r"
  shows "model_ok M (snd (gorm_update M P g w)) \<and> ids_grow w (snd (gorm_update M P g w))"
proof -
  have grow: "ids_grow w (m_put M (table_update P g (m_table M w)) w)"
  proof (rule put_grow)
    fix k assume "has_row (sch_id (m_schema M)) (m_table M w) k"
    then obtain r where r: "r \<in> set (tbl_rows (m_table M w))" "sch_id (m_schema M) r = k"
      by (auto simp: has_row_iff)
    then have "(if P r then g r else r) \<in> set (tbl_rows (table_update P g (m_table M w)))"
      unfolding tbl_rows_update set_map by (intro image_eqI [OF refl])
    with r assms(2) show "has_row (sch_id (m_schema M)) (table_update P g (m_table M w)) k"
      unfolding has_row_iff by (metis (mono_tags) image_eqI)
  qed
  have "model_ok M (m_put M (table_update P g (m_table M w)) w)"
  proof (rule model_okI)
    show "table_ok (m_schema M) (m_table M (m_put M (table_update P g (m_table M w)) w))"
      unfolding get_put using assms(1-4) by (intro table_update_ok) (auto simp: model_ok_def)
  next
    fix q assume "q \<in> set (rows M (m_put M (table_update P g (m_table M w)) w))"
    then obtain r where "r \<in> set (rows M w)" "q = r \<or> q = g r"
      unfolding rows_put tbl_rows_update by (auto simp: rows_def)
    with assms(1,5) have "sch_refs (m_schema M) w q"
      by (auto simp: model_ok_def)
    with grow refs_grow show "sch_refs (m_schema M) (m_put M (table_update P g (m_table M w)) w) q"
      by blast
  qed
  with grow show ?thesis by (simp add: gorm_update_def)
qed

text \<open>A statement of the model: it moves this table only and keeps its constraints.\<close>

lemma own_counted:
  assumes "model_ok M w" and "model_ok M v" and "ids_grow w v" and "touches M w v"
    and "tbl_next (m_table M w) \<le> tbl_next (m_table M v)"
  shows "own_step M w v"
  using assms by (simp add: own_step_def)

lemma own_refl [simp]: "model_ok M w \<Longrightarrow> own_step M w (counted a b w)"
  by (simp add: own_step_def model_ok_counted get_counted ids_grow_def)

lemma own_sql:
  assumes "\<And>a b. own_step M w (snd (f (counted a b w)))" and "model_ok M w"
  shows "own_step M w (snd (run_state (sql E f) (counted a b w)))"
  using assms by (simp add: run_sql split: fault.splits)

lemma own_insert:
  assumes "model_ok M w"
  shows "own_step M w (snd (gorm_insert M r (counted a b w)))"
proof -
  obtain res t where t: "table_insert (m_schema M) (counted a b w) r (m_table M w) = (res, t)"
    by fastforce
  then have "tbl_next t = tbl_next (m_table M w) + 1"
    using table_insert_row(3) table_insert_rejected(2) by (cases res) blast+
  then have "tbl_next (m_table M w) \<le> tbl_next (m_table M (snd (gorm_insert M r (counted a b w))))"
    using t by (simp add: gorm_insert_def get_counted get_put)
  moreover have "ids_grow w (snd (gorm_insert M r (counted a b w)))"
    using model_ok_insert [of "counted a b w" r] assms by (simp add: model_ok_counted ids_grow_def)
  ultimately show ?thesis
    using model_ok_insert [of "counted a b w" r] assms gorm_insert_touches
    by (simp add: own_step_def model_ok_counted)
qed

lemma Create_own: "model_ok M w \<Longrightarrow> own_step M w (snd (run_state (Create E M r) w))"
  using own_sql [of w "gorm_insert M (m_created M (clock E (ticks w)) r)" E 1 0]
  by (simp add: Create_def run_Now_counted own_insert)

lemma own_update:
  assumes "model_ok M w"
    and "\<And>r. sch_id (m_schema M) (g r) = sch_id (m_schema M) r"
    and "\<And>r. sch_check (m_schema M) r \<Longrightarrow> sch_check (m_schema M) (g r)"
    and "\<And>r s. sch_clash (m_schema M) (g r) s = sch_clash (m_schema M) r s"
    and "\<And>w r. sch_refs (m_schema M) w (g r) = sch_refs (m_schema M) w r"
  shows "own_step M w (snd (gorm_update M P g (counted a b w)))"
proof -
  have "model_ok M (counted a b w)" using assms(1) by (simp add: model_ok_counted)
  then have *: "model_ok M (snd (gorm_update M P g (counted a b w))) \<and>
      ids_grow (counted a b w) (snd (gorm_update M P g (counted a b w)))"
    by (rule model_ok_update) (use assms in auto)
  moreover have "tbl_next (m_table M (snd (gorm_update M P g (counted a b w)))) = tbl_next (m_table M w)"
    by (simp add: gorm_update_def get_put get_counted tbl_next_update)
  ultimately show ?thesis
    using gorm_update_touches by (simp add: own_step_def ids_grow_def)
qed

lemma Update_own:
  assumes "model_ok M w"
    and "\<And>r. sch_id (m_schema M) (g r) = sch_id (m_schema M) r"
    and "\<And>r. sch_check (m_schema M) (g r) = sch_check (m_schema M) r"
    and "\<And>r s. sch_clash (m_schema M) (g r) s = sch_clash (m_schema M) r s"
    and "\<And>w r. sch_refs (m_schema M) w (g r) = sch_refs (m_schema M) w r"
  shows "own_step M w (snd (run_state (Update E M P g) w))"
  using own_sql [of w "gorm_update M P (\<lambda>r. m_updated M (clock E (ticks w)) (g r))" E 1 0] assms
  by (simp add: Update_def run_Now_counted own_update updated_id updated_check updated_clash updated_refs)

lemma own_delete:
  assumes "model_ok M w" and "\<And>t. ids_grow w (m_put M t w)"
  shows "own_step M w (snd (run_state (Delete E M P) w))"
proof -
  let ?t = "table_delete P (m_table M w)"
  have "model_ok M (m_put M ?t w)"
    using assms table_delete_ok [of "m_table M w" P] refs_grow [OF assms(2)]
    by (intro model_okI) (auto simp: model_ok_def get_put rows_put table_delete_def rows_def)
  moreover have "ids_grow w (counted a b (m_put M ?t w))" for a b
    using assms(2) [of ?t] by (simp add: ids_grow_def)
  moreover have "touches M w (counted a b (m_put M ?t w))" for a b
    by (auto simp: touches_def)
  ultimately have "own_step M w (counted a b (m_put M ?t w))" for a b
    by (simp add: own_step_def model_ok_counted get_counted get_put table_delete_def)
  then show ?thesis
    using own_sql [of w "\<lambda>w. (Inr (affected P (m_table M w)), m_put M (table_delete P (m_table M w)) w)" E 0 0]
      assms by (simp add: Delete_def get_counted put_counted)
qed

end

lemma models_laws:
  "ids_grow w w' \<Longrightarrow> has_row User_ID (users w) k \<Longrightarrow> has_row User_ID (users w') k"
  "ids_grow w w' \<Longrightarrow> has_row Operator_ID (operators w) k \<Longrightarrow> has_row Operator_ID (operators w') k"
  "ids_grow w w' \<Longrightarrow> has_row App_ID (applications w) k \<Longrightarrow> has_row App_ID (applications w') k"
  "ids_grow w w' \<Longrightarrow> has_row Client_ID (oauth_clients w) k \<Longrightarrow> has_row Client_ID (oauth_clients w') k"
  by (simp_all add: ids_grow_def)

interpretation Users: db_model "Users E" for E
  by unfold_locales (auto simp: model_defs schema_defs counted_def ids_grow_def intro: models_laws)

interpretation Sessions: db_model Sessions
  by unfold_locales (auto simp: model_defs schema_defs counted_def ids_grow_def intro: models_laws)

interpretation Operators: db_model "Operators E" for E
  by unfold_locales (auto simp: model_defs schema_defs counted_def ids_grow_def intro: models_laws)

interpretation OperatorSessions: db_model OperatorSessions
  by unfold_locales (auto simp: model_defs schema_defs counted_def ids_grow_def intro: models_laws)

interpretation Applications: db_model Applications
  by unfold_locales (auto simp: model_defs schema_defs counted_def ids_grow_def intro: models_laws)

interpretation IdentityProviders: db_model IdentityProviders
  by unfold_locales (auto simp: model_defs schema_defs counted_def ids_grow_def intro: models_laws)

interpretation UserIdentities: db_model UserIdentities
  by unfold_locales (auto simp: model_defs schema_defs counted_def ids_grow_def intro: models_laws)

interpretation OAuthClients: db_model OAuthClients
  by unfold_locales (auto simp: model_defs schema_defs counted_def ids_grow_def intro: models_laws)

interpretation Codes: db_model Codes
  by unfold_locales (auto simp: model_defs schema_defs counted_def ids_grow_def intro: models_laws)

section \<open>The database's invariant\<close>

text \<open>Every constraint of every table holds.\<close>

definition world_ok :: "env \<Rightarrow> world \<Rightarrow> bool" where
  "world_ok E w \<longleftrightarrow>
     model_ok (Users E) w \<and> model_ok Sessions w \<and> model_ok (Operators E) w \<and> model_ok OperatorSessions w \<and>
     model_ok Applications w \<and> model_ok IdentityProviders w \<and> model_ok UserIdentities w \<and>
     model_ok OAuthClients w \<and> model_ok Codes w"

definition nexts_grow :: "world \<Rightarrow> world \<Rightarrow> bool" where
  "nexts_grow w w' \<longleftrightarrow> ticks w \<le> ticks w' \<and>
     tbl_next (users w) \<le> tbl_next (users w') \<and> tbl_next (sessions w) \<le> tbl_next (sessions w') \<and>
     tbl_next (operators w) \<le> tbl_next (operators w') \<and>
     tbl_next (operator_sessions w) \<le> tbl_next (operator_sessions w') \<and>
     tbl_next (applications w) \<le> tbl_next (applications w') \<and>
     tbl_next (identity_providers w) \<le> tbl_next (identity_providers w') \<and>
     tbl_next (user_identities w) \<le> tbl_next (user_identities w') \<and>
     tbl_next (oauth_clients w) \<le> tbl_next (oauth_clients w') \<and> tbl_next (codes w) \<le> tbl_next (codes w')"

text \<open>
  A computation after which the constraints still hold and no referenced row is gone, and which turns neither
  the clock nor an identifier sequence back.
\<close>

definition advances :: "env \<Rightarrow> world \<Rightarrow> world \<Rightarrow> bool" where
  "advances E w w' \<longleftrightarrow> world_ok E w' \<and> ids_grow w w' \<and> nexts_grow w w'"

definition sound :: "env \<Rightarrow> (world, 'a) state \<Rightarrow> bool" where
  "sound E m \<longleftrightarrow> (\<forall>w. world_ok E w \<longrightarrow> advances E w (snd (run_state m w)))"

lemma soundI: "(\<And>w. world_ok E w \<Longrightarrow> advances E w (snd (run_state m w))) \<Longrightarrow> sound E m"
  by (simp add: sound_def)

lemma soundD: "sound E m \<Longrightarrow> world_ok E w \<Longrightarrow> run_state m w = (a, w') \<Longrightarrow> advances E w w'"
  by (metis sound_def snd_conv)

lemma sound_world_ok: "sound E m \<Longrightarrow> world_ok E w \<Longrightarrow> world_ok E (snd (run_state m w))"
  by (simp add: sound_def advances_def)

lemma advances_refl: "world_ok E w \<Longrightarrow> advances E w w"
  by (simp add: advances_def nexts_grow_def)

lemma advances_trans: "advances E u v \<Longrightarrow> advances E v w \<Longrightarrow> advances E u w"
  by (auto simp: advances_def ids_grow_def nexts_grow_def)

lemma world_ok_same:
  assumes "world_ok E w" and "users w' = users w" "sessions w' = sessions w" "operators w' = operators w"
    "operator_sessions w' = operator_sessions w" "applications w' = applications w"
    "identity_providers w' = identity_providers w" "user_identities w' = user_identities w"
    "oauth_clients w' = oauth_clients w" "codes w' = codes w" and "ticks w \<le> ticks w'"
  shows "advances E w w'"
  using assms by (simp add: advances_def nexts_grow_def ids_grow_def world_ok_def model_ok_def rows_def model_defs schema_defs)

lemma sound_ret [schema_intros]: "sound E (ret x)"
  by (simp add: sound_def advances_refl)

lemma sound_bind [schema_intros]:
  assumes "sound E m" and "\<And>a. sound E (f a)"
  shows "sound E (m \<bind> f)"
proof (rule soundI)
  fix w assume w: "world_ok E w"
  obtain a v where "run_state m w = (a, v)" by fastforce
  moreover from this have "advances E w v" by (rule soundD [OF assms(1) w])
  moreover from this have "advances E v (snd (run_state (f a) v))"
    using assms(2) by (simp add: sound_def advances_def)
  ultimately show "advances E w (snd (run_state (m \<bind> f) w))"
    by (simp add: advances_trans)
qed

lemma sound_if [schema_intros]: "sound E m \<Longrightarrow> sound E n \<Longrightarrow> sound E (if b then m else n)"
  by simp

lemma sound_sum [schema_intros]:
  "(\<And>e. sound E (f e)) \<Longrightarrow> (\<And>a. sound E (g a)) \<Longrightarrow> sound E (case r of Inl e \<Rightarrow> f e | Inr a \<Rightarrow> g a)"
  by (cases r) auto

lemma sound_option [schema_intros]:
  "sound E n \<Longrightarrow> (\<And>a. sound E (g a)) \<Longrightarrow> sound E (case r of None \<Rightarrow> n | Some a \<Rightarrow> g a)"
  by (cases r) auto

lemma sound_prod [schema_intros]:
  "(\<And>a b. sound E (f a b)) \<Longrightarrow> sound E (case p of (a, b) \<Rightarrow> f a b)"
  by (cases p) auto

lemma sound_let [schema_intros]: "sound E (f x) \<Longrightarrow> sound E (let y = x in f y)"
  by simp

lemma sound_Now [schema_intros]: "sound E (Now E')"
  by (rule soundI, rule world_ok_same) (auto simp: run_Now)

lemma sound_RandRead [schema_intros]: "sound E (RandRead E' n)"
  by (rule soundI, rule world_ok_same) (auto simp: run_RandRead)

lemma sound_read:
  assumes "\<And>w. snd (f w) = w"
  shows "sound E (sql E' f)"
  using assms by (intro soundI world_ok_same) (auto simp: Users.run_sql split: fault.splits)

lemma sound_First [schema_intros]: "sound E (First E' M P)"
  unfolding First_def by (rule sound_read) simp

lemma sound_Find [schema_intros]: "sound E (Find E' M P)"
  unfolding Find_def by (rule sound_read) simp

lemma sound_Count [schema_intros]: "sound E (Count E' M)"
  unfolding Count_def by (rule sound_read) simp

text \<open>A statement on one table leaves the constraints of the others alone.\<close>

lemma world_ok_models:
  assumes "world_ok E w"
  shows "model_ok (Users E) w" "model_ok Sessions w" "model_ok (Operators E) w" "model_ok OperatorSessions w"
    "model_ok Applications w" "model_ok IdentityProviders w" "model_ok UserIdentities w"
    "model_ok OAuthClients w" "model_ok Codes w"
  using assms by (simp_all add: world_ok_def)

lemma model_table_simps [simp]:
  "m_table (Users E) = users" "m_put (Users E) = (\<lambda>t w. w\<lparr>users := t\<rparr>)"
  "m_table Sessions = sessions" "m_put Sessions = (\<lambda>t w. w\<lparr>sessions := t\<rparr>)"
  "m_table (Operators E) = operators" "m_put (Operators E) = (\<lambda>t w. w\<lparr>operators := t\<rparr>)"
  "m_table OperatorSessions = operator_sessions" "m_put OperatorSessions = (\<lambda>t w. w\<lparr>operator_sessions := t\<rparr>)"
  "m_table Applications = applications" "m_put Applications = (\<lambda>t w. w\<lparr>applications := t\<rparr>)"
  "m_table IdentityProviders = identity_providers" "m_put IdentityProviders = (\<lambda>t w. w\<lparr>identity_providers := t\<rparr>)"
  "m_table UserIdentities = user_identities" "m_put UserIdentities = (\<lambda>t w. w\<lparr>user_identities := t\<rparr>)"
  "m_table OAuthClients = oauth_clients" "m_put OAuthClients = (\<lambda>t w. w\<lparr>oauth_clients := t\<rparr>)"
  "m_table Codes = codes" "m_put Codes = (\<lambda>t w. w\<lparr>codes := t\<rparr>)"
  by (simp_all add: model_defs)

lemma advancesI:
  assumes "world_ok E w" and "ids_grow w w'" and "nexts_grow w w'"
    and "users w' = users w \<or> model_ok (Users E) w'"
    and "sessions w' = sessions w \<or> model_ok Sessions w'"
    and "operators w' = operators w \<or> model_ok (Operators E) w'"
    and "operator_sessions w' = operator_sessions w \<or> model_ok OperatorSessions w'"
    and "applications w' = applications w \<or> model_ok Applications w'"
    and "identity_providers w' = identity_providers w \<or> model_ok IdentityProviders w'"
    and "user_identities w' = user_identities w \<or> model_ok UserIdentities w'"
    and "oauth_clients w' = oauth_clients w \<or> model_ok OAuthClients w'"
    and "codes w' = codes w \<or> model_ok Codes w'"
  shows "advances E w w'"
proof -
  have "model_ok (Users E) w'"
    using Users.model_ok_frame [OF world_ok_models(1) [OF assms(1)] assms(2)] assms by auto
  moreover
  have "model_ok Sessions w'"
    using Sessions.model_ok_frame [OF world_ok_models(2) [OF assms(1)] assms(2)] assms by auto
  moreover
  have "model_ok (Operators E) w'"
    using Operators.model_ok_frame [OF world_ok_models(3) [OF assms(1)] assms(2)] assms by auto
  moreover
  have "model_ok OperatorSessions w'"
    using OperatorSessions.model_ok_frame [OF world_ok_models(4) [OF assms(1)] assms(2)] assms by auto
  moreover
  have "model_ok Applications w'"
    using Applications.model_ok_frame [OF world_ok_models(5) [OF assms(1)] assms(2)] assms by auto
  moreover
  have "model_ok IdentityProviders w'"
    using IdentityProviders.model_ok_frame [OF world_ok_models(6) [OF assms(1)] assms(2)] assms by auto
  moreover
  have "model_ok UserIdentities w'"
    using UserIdentities.model_ok_frame [OF world_ok_models(7) [OF assms(1)] assms(2)] assms by auto
  moreover
  have "model_ok OAuthClients w'"
    using OAuthClients.model_ok_frame [OF world_ok_models(8) [OF assms(1)] assms(2)] assms by auto
  moreover
  have "model_ok Codes w'"
    using Codes.model_ok_frame [OF world_ok_models(9) [OF assms(1)] assms(2)] assms by auto
  ultimately show ?thesis using assms by (simp add: advances_def world_ok_def)
qed

lemma own_Users:
  assumes "world_ok E w" and "own_step (Users E) w w'"
  shows "advances E w w'"
proof -
  obtain t a b where w': "w' = counted a b (m_put (Users E) t w)"
    using assms(2) by (auto simp: own_step_def touches_def)
  show ?thesis
    by (rule advancesI [OF assms(1)]) (use assms(2) in \<open>simp_all add: w' own_step_def nexts_grow_def\<close>)
qed

lemma own_Sessions:
  assumes "world_ok E w" and "own_step Sessions w w'"
  shows "advances E w w'"
proof -
  obtain t a b where w': "w' = counted a b (m_put Sessions t w)"
    using assms(2) by (auto simp: own_step_def touches_def)
  show ?thesis
    by (rule advancesI [OF assms(1)]) (use assms(2) in \<open>simp_all add: w' own_step_def nexts_grow_def\<close>)
qed

lemma own_Operators:
  assumes "world_ok E w" and "own_step (Operators E) w w'"
  shows "advances E w w'"
proof -
  obtain t a b where w': "w' = counted a b (m_put (Operators E) t w)"
    using assms(2) by (auto simp: own_step_def touches_def)
  show ?thesis
    by (rule advancesI [OF assms(1)]) (use assms(2) in \<open>simp_all add: w' own_step_def nexts_grow_def\<close>)
qed

lemma own_OperatorSessions:
  assumes "world_ok E w" and "own_step OperatorSessions w w'"
  shows "advances E w w'"
proof -
  obtain t a b where w': "w' = counted a b (m_put OperatorSessions t w)"
    using assms(2) by (auto simp: own_step_def touches_def)
  show ?thesis
    by (rule advancesI [OF assms(1)]) (use assms(2) in \<open>simp_all add: w' own_step_def nexts_grow_def\<close>)
qed

lemma own_Applications:
  assumes "world_ok E w" and "own_step Applications w w'"
  shows "advances E w w'"
proof -
  obtain t a b where w': "w' = counted a b (m_put Applications t w)"
    using assms(2) by (auto simp: own_step_def touches_def)
  show ?thesis
    by (rule advancesI [OF assms(1)]) (use assms(2) in \<open>simp_all add: w' own_step_def nexts_grow_def\<close>)
qed

lemma own_IdentityProviders:
  assumes "world_ok E w" and "own_step IdentityProviders w w'"
  shows "advances E w w'"
proof -
  obtain t a b where w': "w' = counted a b (m_put IdentityProviders t w)"
    using assms(2) by (auto simp: own_step_def touches_def)
  show ?thesis
    by (rule advancesI [OF assms(1)]) (use assms(2) in \<open>simp_all add: w' own_step_def nexts_grow_def\<close>)
qed

lemma own_UserIdentities:
  assumes "world_ok E w" and "own_step UserIdentities w w'"
  shows "advances E w w'"
proof -
  obtain t a b where w': "w' = counted a b (m_put UserIdentities t w)"
    using assms(2) by (auto simp: own_step_def touches_def)
  show ?thesis
    by (rule advancesI [OF assms(1)]) (use assms(2) in \<open>simp_all add: w' own_step_def nexts_grow_def\<close>)
qed

lemma own_OAuthClients:
  assumes "world_ok E w" and "own_step OAuthClients w w'"
  shows "advances E w w'"
proof -
  obtain t a b where w': "w' = counted a b (m_put OAuthClients t w)"
    using assms(2) by (auto simp: own_step_def touches_def)
  show ?thesis
    by (rule advancesI [OF assms(1)]) (use assms(2) in \<open>simp_all add: w' own_step_def nexts_grow_def\<close>)
qed

lemma own_Codes:
  assumes "world_ok E w" and "own_step Codes w w'"
  shows "advances E w w'"
proof -
  obtain t a b where w': "w' = counted a b (m_put Codes t w)"
    using assms(2) by (auto simp: own_step_def touches_def)
  show ?thesis
    by (rule advancesI [OF assms(1)]) (use assms(2) in \<open>simp_all add: w' own_step_def nexts_grow_def\<close>)
qed

lemma sound_Create [schema_intros]:
  "sound E (Create E' (Users E) u)" "sound E (Create E' Sessions s)" "sound E (Create E' (Operators E) p)"
  "sound E (Create E' OperatorSessions ps)" "sound E (Create E' Applications a)"
  "sound E (Create E' IdentityProviders i)" "sound E (Create E' UserIdentities ui)"
  "sound E (Create E' OAuthClients c)" "sound E (Create E' Codes d)"
proof (rule_tac [!] soundI)
  fix w assume w: "world_ok E w"
  show "advances E w (snd (run_state (Create E' (Users E) u) w))"
    by (intro own_Users [OF w] Users.Create_own world_ok_models [OF w])
  show "advances E w (snd (run_state (Create E' Sessions s) w))"
    by (intro own_Sessions [OF w] Sessions.Create_own world_ok_models [OF w])
  show "advances E w (snd (run_state (Create E' (Operators E) p) w))"
    by (intro own_Operators [OF w] Operators.Create_own world_ok_models [OF w])
  show "advances E w (snd (run_state (Create E' OperatorSessions ps) w))"
    by (intro own_OperatorSessions [OF w] OperatorSessions.Create_own world_ok_models [OF w])
  show "advances E w (snd (run_state (Create E' Applications a) w))"
    by (intro own_Applications [OF w] Applications.Create_own world_ok_models [OF w])
  show "advances E w (snd (run_state (Create E' IdentityProviders i) w))"
    by (intro own_IdentityProviders [OF w] IdentityProviders.Create_own world_ok_models [OF w])
  show "advances E w (snd (run_state (Create E' UserIdentities ui) w))"
    by (intro own_UserIdentities [OF w] UserIdentities.Create_own world_ok_models [OF w])
  show "advances E w (snd (run_state (Create E' OAuthClients c) w))"
    by (intro own_OAuthClients [OF w] OAuthClients.Create_own world_ok_models [OF w])
  show "advances E w (snd (run_state (Create E' Codes d) w))"
    by (intro own_Codes [OF w] Codes.Create_own world_ok_models [OF w])
qed

lemma sound_Delete [schema_intros]:
  "sound E (Delete E' Sessions P)" "sound E (Delete E' OperatorSessions Q)" "sound E (Delete E' IdentityProviders R)"
proof (rule_tac [!] soundI)
  fix w assume w: "world_ok E w"
  show "advances E w (snd (run_state (Delete E' Sessions P) w))"
    by (intro own_Sessions [OF w] Sessions.own_delete world_ok_models [OF w]) (simp add: ids_grow_def)
  show "advances E w (snd (run_state (Delete E' OperatorSessions Q) w))"
    by (intro own_OperatorSessions [OF w] OperatorSessions.own_delete world_ok_models [OF w]) (simp add: ids_grow_def)
  show "advances E w (snd (run_state (Delete E' IdentityProviders R) w))"
    by (intro own_IdentityProviders [OF w] IdentityProviders.own_delete world_ok_models [OF w]) (simp add: ids_grow_def)
qed

end
