(* ===== verification/Sha256.thy ===== *)
theory Sha256
  imports Prelude "HOL-Library.Word"
begin

unbundle bit_operations_syntax

text \<open>
  \<open>crypto/sha256\<close>, the digest under which the source stores authorization codes, session tokens and
  client secrets and with which it checks PKCE challenges.  \<open>Sum256\<close> is the whole function on byte
  strings; what the other theories use of it is its length and that it is a function.
\<close>

section \<open>Words and bytes\<close>

type_synonym u32 = "32 word"

definition u32_of_bytes :: "char \<Rightarrow> char \<Rightarrow> char \<Rightarrow> char \<Rightarrow> u32" where
  "u32_of_bytes a b c d = word_of_int (((of_char a * 256 + of_char b) * 256 + of_char c) * 256 + of_char d)"

definition bytes_of_u32 :: "u32 \<Rightarrow> string" where
  "bytes_of_u32 w =
     (let n = uint w in
      [char_of (n div 16777216), char_of (n div 65536 mod 256), char_of (n div 256 mod 256), char_of (n mod 256)])"

fun words_of :: "string \<Rightarrow> u32 list" where
  "words_of (a # b # c # d # s) = u32_of_bytes a b c d # words_of s"
| "words_of _ = []"

section \<open>Padding\<close>

text \<open>A one bit, zeros up to 56 bytes modulo 64, and the length in bits as 64 bits, big endian.\<close>

definition length_bytes :: "nat \<Rightarrow> string" where
  "length_bytes n =
     map (\<lambda>i. char_of (int n * 8 div 256 ^ i mod 256)) [7, 6, 5, 4, 3, 2, 1, 0]"

definition pad :: "string \<Rightarrow> string" where
  "pad s = s @ [CHR 0x80] @ replicate ((119 - length s mod 64) mod 64) (CHR 0x00) @ length_bytes (length s)"

lemma pad_mod: "(n + (9 + (119 - n mod 64) mod 64)) mod 64 = (0 :: nat)"
proof -
  have "(n + (9 + (119 - n mod 64) mod 64)) mod 64 = (n mod 64 + (9 + (119 - n mod 64))) mod 64"
    by (metis mod_add_left_eq mod_add_right_eq)
  also have "n mod 64 + (9 + (119 - n mod 64)) = 128"
    using mod_less_divisor [of 64 n] by linarith
  finally show ?thesis by simp
qed

lemma length_pad: "length (pad s) = length s + (9 + (119 - length s mod 64) mod 64)"
  by (simp add: pad_def length_bytes_def)

lemma length_pad_mod: "length (pad s) mod 64 = 0"
  by (simp only: length_pad pad_mod)

section \<open>The compression function\<close>

definition small_sigma0 :: "u32 \<Rightarrow> u32" where
  "small_sigma0 x = word_rotr 7 x XOR word_rotr 18 x XOR drop_bit 3 x"

definition small_sigma1 :: "u32 \<Rightarrow> u32" where
  "small_sigma1 x = word_rotr 17 x XOR word_rotr 19 x XOR drop_bit 10 x"

definition big_sigma0 :: "u32 \<Rightarrow> u32" where
  "big_sigma0 x = word_rotr 2 x XOR word_rotr 13 x XOR word_rotr 22 x"

definition big_sigma1 :: "u32 \<Rightarrow> u32" where
  "big_sigma1 x = word_rotr 6 x XOR word_rotr 11 x XOR word_rotr 25 x"

text \<open>
  The message schedule as a window: the sixteen words still needed, the oldest first.  Round by
  round the oldest word leaves the window and is mixed into the state.
\<close>

fun next_word :: "u32 list \<Rightarrow> u32" where
  "next_word ws = small_sigma1 (ws ! 14) + ws ! 9 + small_sigma0 (ws ! 1) + ws ! 0"

type_synonym digest_state = "u32 \<times> u32 \<times> u32 \<times> u32 \<times> u32 \<times> u32 \<times> u32 \<times> u32"

fun round_step :: "digest_state \<Rightarrow> u32 \<Rightarrow> u32 \<Rightarrow> digest_state" where
  "round_step (a, b, c, d, e, f, g, h) k w =
     (let t1 = h + big_sigma1 e + ((e AND f) XOR (NOT e AND g)) + k + w;
          t2 = big_sigma0 a + ((a AND b) XOR (a AND c) XOR (b AND c))
      in (t1 + t2, a, b, c, d + t1, e, f, g))"

fun rounds :: "u32 list \<Rightarrow> u32 list \<Rightarrow> digest_state \<Rightarrow> digest_state" where
  "rounds [] ws st = st"
| "rounds (k # ks) ws st = rounds ks (tl ws @ [next_word ws]) (round_step st k (hd ws))"

definition round_constants :: "u32 list" where
  "round_constants =
    [1116352408, 1899447441, 3049323471, 3921009573, 961987163, 1508970993,
     2453635748, 2870763221, 3624381080, 310598401, 607225278, 1426881987,
     1925078388, 2162078206, 2614888103, 3248222580, 3835390401, 4022224774,
     264347078, 604807628, 770255983, 1249150122, 1555081692, 1996064986,
     2554220882, 2821834349, 2952996808, 3210313671, 3336571891, 3584528711,
     113926993, 338241895, 666307205, 773529912, 1294757372, 1396182291,
     1695183700, 1986661051, 2177026350, 2456956037, 2730485921, 2820302411,
     3259730800, 3345764771, 3516065817, 3600352804, 4094571909, 275423344,
     430227734, 506948616, 659060556, 883997877, 958139571, 1322822218,
     1537002063, 1747873779, 1955562222, 2024104815, 2227730452, 2361852424,
     2428436474, 2756734187, 3204031479, 3329325298]"

definition initial_digest :: digest_state where
  "initial_digest =
    (1779033703, 3144134277, 1013904242, 2773480762, 1359893119, 2600822924,
     528734635, 1541459225)"

fun add_digest :: "digest_state \<Rightarrow> digest_state \<Rightarrow> digest_state" where
  "add_digest (a, b, c, d, e, f, g, h) (a', b', c', d', e', f', g', h') =
     (a + a', b + b', c + c', d + d', e + e', f + f', g + g', h + h')"

fun blocks :: "u32 list \<Rightarrow> digest_state \<Rightarrow> digest_state" where
  "blocks ws st =
     (if length ws < 16 then st
      else blocks (drop 16 ws) (add_digest st (rounds round_constants (take 16 ws) st)))"

declare blocks.simps [simp del]

fun digest_bytes :: "digest_state \<Rightarrow> string" where
  "digest_bytes (a, b, c, d, e, f, g, h) = concat (map bytes_of_u32 [a, b, c, d, e, f, g, h])"

definition Sum256 :: "string \<Rightarrow> string" where
  "Sum256 s = digest_bytes (blocks (words_of (pad s)) initial_digest)"

lemma length_Sum256 [simp]: "length (Sum256 s) = 32"
  unfolding Sum256_def
  by (cases "blocks (words_of (pad s)) initial_digest" rule: digest_bytes.cases)
     (simp add: bytes_of_u32_def Let_def)

lemma Sum256_not_Nil [simp]: "Sum256 s \<noteq> []"
  using length_Sum256 [of s] by (metis list.size(3) zero_neq_numeral)

end
