(* ===== verification/Go_Strings.thy ===== *)
theory Go_Strings
  imports Prelude
begin

text \<open>
  The functions of Go's package strings that the source uses, on Go strings: sequences of bytes,
  here \<open>string\<close> (a \<open>char\<close> is a byte, \<open>length\<close> is Go's \<open>len\<close>).  White space is that of
  \<open>unicode.IsSpace\<close>, in its UTF-8 encoding: the first byte of such an encoding never occurs inside
  another character's encoding, so scanning by bytes finds the same places as scanning by runes.
\<close>

section \<open>White space\<close>

definition ascii_space :: "char \<Rightarrow> bool" where
  "ascii_space c \<longleftrightarrow> c \<in> set [CHR 0x09, CHR 0x0A, CHR 0x0B, CHR 0x0C, CHR 0x0D, CHR 0x20]"

text \<open>Number of bytes of the white-space character a string starts with, 0 if it starts with none.\<close>

fun multibyte_space :: "string \<Rightarrow> nat" where
  "multibyte_space (a # b # s) =
     (if a = CHR 0xC2 \<and> (b = CHR 0x85 \<or> b = CHR 0xA0) then 2
      else (case s of [] \<Rightarrow> 0
            | c # _ \<Rightarrow>
               (if a = CHR 0xE1 \<and> b = CHR 0x9A \<and> c = CHR 0x80 then 3
                else if a = CHR 0xE2 \<and> b = CHR 0x80 \<and>
                        (CHR 0x80 \<le> c \<and> c \<le> CHR 0x8A \<or> c = CHR 0xA8 \<or> c = CHR 0xA9 \<or> c = CHR 0xAF) then 3
                else if a = CHR 0xE2 \<and> b = CHR 0x81 \<and> c = CHR 0x9F then 3
                else if a = CHR 0xE3 \<and> b = CHR 0x80 \<and> c = CHR 0x80 then 3
                else 0)))"
| "multibyte_space _ = 0"

fun space_width :: "string \<Rightarrow> nat" where
  "space_width [] = 0"
| "space_width (c # s) =
     (if ascii_space c then 1 else if c < CHR 0x80 then 0 else multibyte_space (c # s))"

lemma multibyte_space_le: "multibyte_space s \<le> length s"
  by (induction s rule: multibyte_space.induct) (auto split: list.splits)

lemma space_width_le: "space_width s \<le> length s"
proof (cases s)
  case (Cons c t)
  then show ?thesis using multibyte_space_le [of s] by auto
qed simp

lemma space_width_pos: "space_width s \<noteq> 0 \<Longrightarrow> s \<noteq> []"
  by auto

lemma drop_shorter: "n \<noteq> 0 \<Longrightarrow> s \<noteq> [] \<Longrightarrow> length (drop n s) < length s"
  by (cases s) auto

text \<open>No suffix of the string starts with white space.\<close>

fun space_free :: "string \<Rightarrow> bool" where
  "space_free [] = True"
| "space_free (c # s) = (space_width (c # s) = 0 \<and> space_free s)"

definition plain_ascii :: "string \<Rightarrow> bool" where
  "plain_ascii s \<longleftrightarrow> (\<forall>c \<in> set s. c < CHR 0x80)"

lemma space_free_ascii:
  "plain_ascii s \<Longrightarrow> space_free s \<longleftrightarrow> (\<forall>c \<in> set s. \<not> ascii_space c)"
  by (induction s) (auto simp: plain_ascii_def)

section \<open>strings.Fields\<close>

text \<open>\<open>acc\<close> is the field being read, last byte first.\<close>

function fields_from :: "string \<Rightarrow> string \<Rightarrow> string list" where
  "fields_from acc [] = (if acc = [] then [] else [rev acc])"
| "fields_from acc (c # s) =
     (let n = space_width (c # s) in
      if n = 0 then fields_from (c # acc) s
      else if acc = [] then fields_from [] (drop n (c # s))
      else rev acc # fields_from [] (drop n (c # s)))"
  by pat_completeness auto
termination
  by (relation "measure (\<lambda>(acc, s). length s)") (auto simp: space_width_le simp del: space_width.simps)

definition Fields :: "string \<Rightarrow> string list" where
  "Fields s = fields_from [] s"

text \<open>Bytes after a point cannot turn a byte before it into white space unless they complete it.\<close>

lemma multibyte_space_long: "multibyte_space (a # b # c # s @ t) = multibyte_space (a # b # c # s)"
  by (simp only: multibyte_space.simps list.case)

lemma multibyte_space_pair: "multibyte_space ([a, b] @ t) = 0 \<Longrightarrow> multibyte_space [a, b] = 0"
  by (simp only: append.simps multibyte_space.simps list.case split: if_splits) simp

lemma multibyte_space_take:
  assumes "multibyte_space (s @ t) = 0"
  shows "multibyte_space s = 0"
proof -
  consider "s = []" | a where "s = [a]" | a b where "s = [a, b]" | a b c u where "s = a # b # c # u"
    by (metis neq_Nil_conv)
  then show ?thesis
  proof cases
    case 3
    with assms show ?thesis by (metis multibyte_space_pair)
  next
    case 4
    with assms show ?thesis by (metis append_Cons multibyte_space_long)
  qed simp_all
qed

lemma space_width_take:
  assumes "space_width (s @ t) = 0"
  shows "space_width s = 0"
proof (cases s)
  case (Cons c u)
  then have "multibyte_space (c # u @ t) = 0 \<Longrightarrow> multibyte_space (c # u) = 0"
    using multibyte_space_take [of "c # u" t] by simp
  with Cons assms show ?thesis
    by (simp del: multibyte_space.simps split: if_splits)
qed simp

lemma space_width_Cons_take: "space_width (c # s @ t) = 0 \<Longrightarrow> space_width (c # s) = 0"
  using space_width_take [of "c # s" t] by (simp del: space_width.simps)

text \<open>Every field is non-empty and free of white space.\<close>

fun space_free_upto :: "string \<Rightarrow> string \<Rightarrow> bool" where
  "space_free_upto [] t = True"
| "space_free_upto (c # s) t = (space_width (c # s @ t) = 0 \<and> space_free_upto s t)"

lemma space_free_upto_free: "space_free_upto s t \<Longrightarrow> space_free s"
  by (induction s) (auto dest: space_width_Cons_take simp del: space_width.simps)

lemma space_free_upto_snoc:
  "space_free_upto (s @ [c]) t \<longleftrightarrow> space_free_upto s (c # t) \<and> space_width (c # t) = 0"
  by (induction s) (auto simp del: space_width.simps)

lemma fields_from_free:
  assumes "space_free_upto (rev acc) s" and "f \<in> set (fields_from acc s)"
  shows "f \<noteq> [] \<and> space_free f"
  using assms
proof (induction acc s rule: fields_from.induct)
  case (1 acc)
  then show ?case by (auto dest: space_free_upto_free split: if_splits)
next
  case (2 acc c s)
  show ?case
  proof (cases "space_width (c # s) = 0")
    case True
    with "2.prems" have "space_free_upto (rev (c # acc)) s" and "f \<in> set (fields_from (c # acc) s)"
      by (simp_all add: space_free_upto_snoc del: space_width.simps)
    with "2.IH"(1) True show ?thesis by (simp del: space_width.simps)
  next
    case False
    with "2.IH"(2,3) "2.prems" show ?thesis
      by (auto simp: Let_def dest: space_free_upto_free split: if_splits simp del: space_width.simps)
  qed
qed

lemma Fields_free: "f \<in> set (Fields s) \<Longrightarrow> f \<noteq> [] \<and> space_free f"
  unfolding Fields_def by (rule fields_from_free [of "[]"]) auto

lemma fields_from_space_free: "space_free s \<Longrightarrow> fields_from acc s = (if acc = [] \<and> s = [] then [] else [rev acc @ s])"
  by (induction s arbitrary: acc) (auto simp: Let_def simp del: space_width.simps)

lemma Fields_single: "space_free s \<Longrightarrow> s \<noteq> [] \<Longrightarrow> Fields s = [s]"
  by (simp add: Fields_def fields_from_space_free)

lemma Fields_empty [simp]: "Fields [] = []"
  by (simp add: Fields_def)

section \<open>strings.TrimSpace, TrimRight, HasPrefix, Contains\<close>

function trim_left :: "string \<Rightarrow> string" where
  "trim_left s = (let n = space_width s in if n = 0 then s else trim_left (drop n s))"
  by pat_completeness auto
termination
  by (relation "measure length") (simp_all add: drop_shorter space_width_pos del: length_drop)

declare trim_left.simps [simp del]

text \<open>Number of bytes of the white-space character a string ends with: the string comes reversed.\<close>

definition space_width_rev :: "string \<Rightarrow> nat" where
  "space_width_rev r =
     (if space_width (rev (take 1 r)) = 1 then 1
      else if space_width (rev (take 2 r)) = 2 then 2
      else if space_width (rev (take 3 r)) = 3 then 3 else 0)"

lemma space_width_rev_pos: "space_width_rev r \<noteq> 0 \<Longrightarrow> r \<noteq> []"
  by (auto simp: space_width_rev_def)

function trim_right_rev :: "string \<Rightarrow> string" where
  "trim_right_rev r = (let n = space_width_rev r in if n = 0 then r else trim_right_rev (drop n r))"
  by pat_completeness auto
termination
  by (relation "measure length") (simp_all add: drop_shorter space_width_rev_pos del: length_drop)

declare trim_right_rev.simps [simp del]

definition TrimSpace :: "string \<Rightarrow> string" where
  "TrimSpace s = rev (trim_right_rev (rev (trim_left s)))"

text \<open>\<open>strings.TrimRight\<close> with a cutset of one ASCII byte.\<close>

definition TrimRight :: "string \<Rightarrow> char \<Rightarrow> string" where
  "TrimRight s c = rev (dropWhile (\<lambda>d. d = c) (rev s))"

definition HasPrefix :: "string \<Rightarrow> string \<Rightarrow> bool" where
  "HasPrefix s p \<longleftrightarrow> take (length p) s = p"

fun Contains :: "string \<Rightarrow> string \<Rightarrow> bool" where
  "Contains [] p = (p = [])"
| "Contains (c # s) p = (HasPrefix (c # s) p \<or> Contains s p)"

text \<open>\<open>strings.Split\<close> at a single byte.\<close>

fun Split :: "string \<Rightarrow> char \<Rightarrow> string list" where
  "Split [] d = [[]]"
| "Split (c # s) d =
     (if c = d then [] # Split s d
      else case Split s d of [] \<Rightarrow> [] | p # ps \<Rightarrow> (c # p) # ps)"

text \<open>\<open>strings.Join\<close>.\<close>

fun Join :: "string \<Rightarrow> string list \<Rightarrow> string" where
  "Join sep [] = []"
| "Join sep [s] = s"
| "Join sep (s # t # ts) = s @ sep @ Join sep (t # ts)"

lemma HasPrefix_iff: "HasPrefix s p \<longleftrightarrow> (\<exists>t. s = p @ t)"
  unfolding HasPrefix_def by (metis append_eq_conv_conj append_take_drop_id)

lemma TrimRight_last: "TrimRight s c \<noteq> [] \<Longrightarrow> last (TrimRight s c) \<noteq> c"
  unfolding TrimRight_def by (metis (mono_tags) hd_dropWhile last_rev rev_is_Nil_conv)

lemma TrimRight_idem: "TrimRight (TrimRight s c) c = TrimRight s c"
  by (simp add: TrimRight_def dropWhile_idem)

lemma TrimRight_same_iff: "TrimRight s c = s \<longleftrightarrow> s = [] \<or> last s \<noteq> c"
proof (cases s rule: rev_cases)
  case (snoc t d)
  then show ?thesis
    by (auto simp: TrimRight_def) (metis append_eq_rev_conv length_append_singleton length_dropWhile_le length_rev not_less_eq_eq order_refl rev_rev_ident)
qed (simp add: TrimRight_def)

end
