(* ===== verification/Codec.thy ===== *)
theory Codec
  imports Prelude
begin

text \<open>
  The encoders of Go's standard library that the source uses on byte strings: \<open>encoding/base64\<close>
  without padding, in its URL-safe and its standard alphabet, and \<open>encoding/hex\<close>.  The main facts
  are the round trip of base64 and the lengths.
\<close>

section \<open>Bytes as numbers\<close>

lemma of_char_less [simp]: "(of_char c :: nat) < 256"
  by (metis nat_of_char_less_256)

lemma char_of_of_char_mod: "n = of_char c \<Longrightarrow> (char_of (n :: nat)) = c"
  by simp

section \<open>Base64 without padding\<close>

text \<open>An alphabet is given by its last two characters: digits 0 to 61 are A-Z, a-z, 0-9 in both.\<close>

type_synonym alphabet = "char \<times> char"

definition URLEncoding :: alphabet where
  "URLEncoding = (CHR ''-'', CHR ''_'')"

definition StdEncoding :: alphabet where
  "StdEncoding = (CHR ''+'', CHR ''/'')"

definition b64_digit :: "alphabet \<Rightarrow> nat \<Rightarrow> char" where
  "b64_digit al n =
     (if n < 26 then char_of (65 + n)
      else if n < 52 then char_of (97 + (n - 26))
      else if n < 62 then char_of (48 + (n - 52))
      else if n = 62 then fst al else snd al)"

fun b64_encode :: "alphabet \<Rightarrow> string \<Rightarrow> string" where
  "b64_encode al [] = []"
| "b64_encode al [a] =
     (let x = of_char a in [b64_digit al (x div 4), b64_digit al (x mod 4 * 16)])"
| "b64_encode al [a, b] =
     (let x = of_char a; y = of_char b in
      [b64_digit al (x div 4), b64_digit al (x mod 4 * 16 + y div 16), b64_digit al (y mod 16 * 4)])"
| "b64_encode al (a # b # c # s) =
     (let x = of_char a; y = of_char b; z = of_char c in
      b64_digit al (x div 4) # b64_digit al (x mod 4 * 16 + y div 16)
      # b64_digit al (y mod 16 * 4 + z div 64) # b64_digit al (z mod 64) # b64_encode al s)"

text \<open>
  The decoder of the package drops carriage returns and line feeds, refuses any other byte outside
  the alphabet, refuses a last group of one digit, and ignores the unused bits of the last group.
\<close>

definition digit_value :: "nat \<Rightarrow> nat \<Rightarrow> nat \<Rightarrow> nat option" where
  "digit_value p q n =
     (if 65 \<le> n \<and> n \<le> 90 then Some (n - 65)
      else if 97 \<le> n \<and> n \<le> 122 then Some (n - 71)
      else if 48 \<le> n \<and> n \<le> 57 then Some (n + 4)
      else if n = p then Some 62 else if n = q then Some 63 else None)"

definition b64_value :: "alphabet \<Rightarrow> char \<Rightarrow> nat option" where
  "b64_value al c = digit_value (of_char (fst al)) (of_char (snd al)) (of_char c)"

fun b64_values :: "alphabet \<Rightarrow> string \<Rightarrow> nat list option" where
  "b64_values al [] = Some []"
| "b64_values al (c # s) =
     (if c = CHR 0x0A \<or> c = CHR 0x0D then b64_values al s
      else case b64_value al c of None \<Rightarrow> None
           | Some v \<Rightarrow> map_option (Cons v) (b64_values al s))"

fun b64_bytes :: "nat list \<Rightarrow> string option" where
  "b64_bytes [] = Some []"
| "b64_bytes [v] = None"
| "b64_bytes [v, w] = Some [char_of (v * 4 + w div 16)]"
| "b64_bytes [v, w, x] = Some [char_of (v * 4 + w div 16), char_of (w mod 16 * 16 + x div 4)]"
| "b64_bytes (v # w # x # y # vs) =
     map_option (\<lambda>s. char_of (v * 4 + w div 16) # char_of (w mod 16 * 16 + x div 4)
                      # char_of (x mod 4 * 64 + y) # s) (b64_bytes vs)"

definition b64_decode :: "alphabet \<Rightarrow> string \<Rightarrow> string option" where
  "b64_decode al s = Option.bind (b64_values al s) b64_bytes"

abbreviation RawURLEncode :: "string \<Rightarrow> string" where
  "RawURLEncode \<equiv> b64_encode URLEncoding"

abbreviation RawURLDecode :: "string \<Rightarrow> string option" where
  "RawURLDecode \<equiv> b64_decode URLEncoding"

abbreviation RawStdEncode :: "string \<Rightarrow> string" where
  "RawStdEncode \<equiv> b64_encode StdEncoding"

abbreviation RawStdDecode :: "string \<Rightarrow> string option" where
  "RawStdDecode \<equiv> b64_decode StdEncoding"

section \<open>The round trip\<close>

text \<open>An alphabet is good when its two own digits are apart and are no other digit and no line end.\<close>

definition good_alphabet :: "alphabet \<Rightarrow> bool" where
  "good_alphabet al \<longleftrightarrow>
     (let p = of_char (fst al); q = of_char (snd al) in
      p \<noteq> q \<and> (\<forall>n \<in> {p, q}. n \<noteq> (10 :: nat) \<and> n \<noteq> 13 \<and> \<not> (65 \<le> n \<and> n \<le> 90) \<and>
                                \<not> (97 \<le> n \<and> n \<le> 122) \<and> \<not> (48 \<le> n \<and> n \<le> 57)))"

lemma good_URL [simp]: "good_alphabet URLEncoding" and good_Std [simp]: "good_alphabet StdEncoding"
  by (simp_all add: good_alphabet_def URLEncoding_def StdEncoding_def of_char_def)

lemma char_eq_of_char: "c = d \<longleftrightarrow> (of_char c :: nat) = of_char d"
  by simp

lemma of_char_b64_digit:
  "of_char (b64_digit al n) =
     (if n < 26 then 65 + n else if n < 52 then 71 + n else if n < 62 then n - 4
      else if n = 62 then of_char (fst al) else (of_char (snd al) :: nat))"
  by (simp add: b64_digit_def of_char_of)

lemma digit_value_of_digit:
  assumes "p \<noteq> q" and n: "n < 64"
    and "\<forall>m \<in> {p, q}. \<not> (65 \<le> m \<and> m \<le> 90) \<and> \<not> (97 \<le> m \<and> m \<le> 122) \<and> \<not> (48 \<le> m \<and> m \<le> 57)"
  shows "digit_value p q (if n < 26 then 65 + n else if n < 52 then 71 + n else if n < 62 then n - 4
           else if n = 62 then p else q) = Some n"
proof -
  have pq: "digit_value p q p = Some 62" "digit_value p q q = Some 63"
    using assms by (auto simp: digit_value_def)
  consider "n < 26" | "26 \<le> n" "n < 52" | "52 \<le> n" "n < 62" | "n = 62" | "n = 63"
    using n by arith
  then show ?thesis
  proof cases
    case 1
    then show ?thesis by (simp add: digit_value_def)
  next
    case 2
    then show ?thesis by (simp add: digit_value_def)
  next
    case 3
    then have "n = (n - 52) + 52" and "n - 52 < 10" by arith+
    then obtain k where "n = k + 52" and "k < 10" by blast
    then show ?thesis by (simp add: digit_value_def)
  qed (simp_all add: pq)
qed

lemma of_char_newlines: "of_char (CHR 0x0A) = (10 :: nat)" "of_char (CHR 0x0D) = (13 :: nat)"
  by simp_all

lemma b64_digit_cases:
  "48 \<le> (of_char (b64_digit al n) :: nat) \<or> b64_digit al n = fst al \<or> b64_digit al n = snd al"
proof -
  consider "n < 26" | "26 \<le> n" "n < 52" | "52 \<le> n" "n < 62" | "62 \<le> n" by arith
  then show ?thesis
  proof cases
    case 4
    then show ?thesis by (simp add: b64_digit_def)
  qed (auto simp: of_char_b64_digit)
qed

lemma b64_digit_not_newline:
  assumes "good_alphabet al"
  shows "b64_digit al n \<noteq> CHR 0x0A \<and> b64_digit al n \<noteq> CHR 0x0D"
proof -
  let ?k = "of_char (b64_digit al n) :: nat"
  have "48 \<le> ?k \<or> ?k = of_char (fst al) \<or> ?k = of_char (snd al)"
    using b64_digit_cases [of al n] by presburger
  moreover have "of_char (fst al) \<noteq> (10 :: nat)" "of_char (fst al) \<noteq> (13 :: nat)"
    "of_char (snd al) \<noteq> (10 :: nat)" "of_char (snd al) \<noteq> (13 :: nat)"
    using assms by (simp_all add: good_alphabet_def Let_def)
  ultimately have "?k \<noteq> 10" and "?k \<noteq> 13"
    by linarith+
  then show ?thesis using of_char_newlines by metis
qed

lemma b64_value_digit:
  assumes "good_alphabet al" and "n < 64"
  shows "b64_value al (b64_digit al n) = Some n"
  unfolding b64_value_def of_char_b64_digit
  by (rule digit_value_of_digit) (use assms in \<open>simp_all add: good_alphabet_def Let_def\<close>)

lemma b64_values_digit [simp]:
  "good_alphabet al \<Longrightarrow> n < 64 \<Longrightarrow>
     b64_values al (b64_digit al n # s) = map_option (Cons n) (b64_values al s)"
  by (simp add: b64_digit_not_newline b64_value_digit)

text \<open>How three bytes are cut into four digits and put together again.\<close>

lemma byte_div4: "(x :: nat) < 256 \<Longrightarrow> x div 4 < 64"
  by (simp add: less_mult_imp_div_less)

lemma byte_div16: "(y :: nat) < 256 \<Longrightarrow> y div 16 < 16"
  by (simp add: less_mult_imp_div_less)

lemma byte_div64: "(z :: nat) < 256 \<Longrightarrow> z div 64 < 4"
  by (simp add: less_mult_imp_div_less)

lemma mid_digit1: "(y :: nat) < 256 \<Longrightarrow> x mod 4 * 16 + y div 16 < 64"
  using byte_div16 [of y] mod_less_divisor [of 4 x] by linarith

lemma mid_digit2: "(z :: nat) < 256 \<Longrightarrow> y mod 16 * 4 + z div 64 < 64"
  using byte_div64 [of z] mod_less_divisor [of 16 y] by linarith

lemma join1: "(y :: nat) < 256 \<Longrightarrow> x div 4 * 4 + (x mod 4 * 16 + y div 16) div 16 = x"
  using byte_div16 [of y] by simp

lemma join2: "(y :: nat) < 256 \<Longrightarrow> z < 256 \<Longrightarrow>
    (x mod 4 * 16 + y div 16) mod 16 * 16 + (y mod 16 * 4 + z div 64) div 4 = y"
  using byte_div16 [of y] byte_div64 [of z] by simp

lemma join3: "(z :: nat) < 256 \<Longrightarrow> (y mod 16 * 4 + z div 64) mod 4 * 64 + z mod 64 = z"
  using byte_div64 [of z] by simp

lemma last_digits:
  "(x :: nat) mod 4 * 16 < 64" "(y :: nat) mod 16 * 4 < 64" "(z :: nat) mod 64 < 64"
  "x div 4 * 4 + x mod 4 * 16 div 16 = x"
  "(y :: nat) < 256 \<Longrightarrow> (x mod 4 * 16 + y div 16) mod 16 * 16 + y mod 16 * 4 div 4 = y"
  using join2 [of y 0 x] mod_less_divisor [of 4 x] mod_less_divisor [of 16 y]
  by simp_all

lemma div16_twice: "(y :: nat) < 256 \<Longrightarrow> y div 16 div 16 = 0 \<and> y div 16 mod 16 = y div 16"
  using byte_div16 [of y] by simp

lemma div64_twice: "(z :: nat) < 256 \<Longrightarrow> z div 64 div 4 = 0 \<and> z div 64 mod 4 = z div 64"
  using byte_div64 [of z] by simp

lemmas byte_split = div16_twice div64_twice byte_div4 mid_digit1 mid_digit2 join1 join2 join3 last_digits

lemma b64_decode_encode:
  assumes "good_alphabet al"
  shows "b64_decode al (b64_encode al s) = Some s"
  using assms
proof (induction al s rule: b64_encode.induct)
  case (2 al a)
  then show ?case
    by (simp add: b64_decode_def Let_def byte_split del: b64_values.simps(2))
next
  case (3 al a b)
  then show ?case
    by (simp add: b64_decode_def Let_def byte_split del: b64_values.simps(2))
next
  case (4 al a b c s)
  from "4.IH" [OF refl refl refl "4.prems"]
  obtain vs where "b64_values al (b64_encode al s) = Some vs" and "b64_bytes vs = Some s"
    by (auto simp: b64_decode_def bind_eq_Some_conv)
  with "4.prems" show ?case
    by (simp add: b64_decode_def Let_def byte_split del: b64_values.simps(2))
qed (simp add: b64_decode_def)

lemma b64_encode_inj: "good_alphabet al \<Longrightarrow> b64_encode al s = b64_encode al t \<Longrightarrow> s = t"
  by (metis b64_decode_encode option.inject)

section \<open>Lengths and characters\<close>

lemma length_b64_encode: "length (b64_encode al s) = (length s * 4 + 2) div 3"
proof (induction al s rule: b64_encode.induct)
  case (4 al a b c s)
  then show ?case by (simp add: Let_def)
qed (simp_all add: Let_def)

lemma b64_encode_32: "length s = 32 \<Longrightarrow> length (b64_encode al s) = 43"
  by (simp add: length_b64_encode)

lemma b64_encode_Nil_iff [simp]: "b64_encode al s = [] \<longleftrightarrow> s = []"
  by (induction al s rule: b64_encode.induct) (simp_all add: Let_def)

section \<open>Hexadecimal\<close>

definition hex_digit :: "nat \<Rightarrow> char" where
  "hex_digit n = (if n < 10 then char_of (48 + n) else char_of (97 + (n - 10)))"

definition hex_encode :: "string \<Rightarrow> string" where
  "hex_encode s = concat (map (\<lambda>c. [hex_digit (of_char c div 16), hex_digit (of_char c mod 16)]) s)"

lemma length_hex_encode [simp]: "length (hex_encode s) = 2 * length s"
  by (induction s) (simp_all add: hex_encode_def)

lemma of_char_hex_digit: "n < 16 \<Longrightarrow> of_char (hex_digit n) = (if n < 10 then 48 + n else 87 + n)"
  by (simp add: hex_digit_def of_char_of)

lemma hex_digit_inj:
  assumes "m < 16" and "n < 16" and "hex_digit m = hex_digit n"
  shows "m = n"
proof -
  have "(of_char (hex_digit m) :: nat) = of_char (hex_digit n)"
    using assms(3) by simp
  with assms(1,2) show ?thesis by (simp add: of_char_hex_digit split: if_splits)
qed

lemma hex_encode_inj: "hex_encode s = hex_encode t \<Longrightarrow> s = t"
proof (induction s arbitrary: t)
  case Nil
  then show ?case by (cases t) (simp_all add: hex_encode_def)
next
  case (Cons c s)
  then obtain d t' where t: "t = d # t'" by (cases t) (auto simp: hex_encode_def)
  with Cons.prems have "hex_digit (of_char c div 16) = hex_digit (of_char d div 16)"
    and "hex_digit (of_char c mod 16) = hex_digit (of_char d mod 16)"
    and rest: "hex_encode s = hex_encode t'"
    by (simp_all add: hex_encode_def)
  then have "(of_char c :: nat) div 16 = of_char d div 16" and "(of_char c :: nat) mod 16 = of_char d mod 16"
    by (auto intro!: hex_digit_inj simp: div_less_iff_less_mult)
  then have "(of_char c :: nat) = of_char d" by (metis div_mult_mod_eq)
  with t rest Cons.IH show ?case by simp
qed

end
