(* ===== verification/Go_Url.thy ===== *)
theory Go_Url
  imports Go_Strings Codec "HOL-Library.List_Lexorder"
begin

text \<open>
  What the source uses of Go's package net/url: escaping, query strings and their \<open>Values\<close>.
  \<open>Values\<close>, a map from a key to its list of values, is an association list that keeps the values of
  a key in order.
\<close>

section \<open>Escaping of a query component\<close>

definition hex_value :: "char \<Rightarrow> nat option" where
  "hex_value c =
     (let n = of_char c :: nat in
      if 48 \<le> n \<and> n \<le> 57 then Some (n - 48)
      else if 97 \<le> n \<and> n \<le> 102 then Some (n - 87)
      else if 65 \<le> n \<and> n \<le> 70 then Some (n - 55)
      else None)"

definition upper_hex :: "nat \<Rightarrow> char" where
  "upper_hex n = ''0123456789ABCDEF'' ! n"

text \<open>\<open>shouldEscape\<close> in the mode \<open>encodeQueryComponent\<close>: unreserved characters stay.\<close>

definition unreserved :: "char \<Rightarrow> bool" where
  "unreserved c = (c \<in> set ''abcdefghijklmnopqrstuvwxyzABCDEFGHIJKLMNOPQRSTUVWXYZ0123456789-_.~'')"

fun QueryEscape :: "string \<Rightarrow> string" where
  "QueryEscape [] = []"
| "QueryEscape (c # s) =
     (if c = CHR '' '' then CHR ''+'' # QueryEscape s
      else if unreserved c then c # QueryEscape s
      else CHR ''%'' # upper_hex (of_char c div 16) # upper_hex (of_char c mod 16) # QueryEscape s)"

text \<open>\<open>None\<close> is the error \<open>EscapeError\<close>.\<close>

fun QueryUnescape :: "string \<Rightarrow> string option" where
  "QueryUnescape [] = Some []"
| "QueryUnescape (c # s) =
     (if c = CHR ''%'' then
        (case s of
           a # b # t \<Rightarrow>
             (case (hex_value a, hex_value b) of
                (Some x, Some y) \<Rightarrow> map_option ((#) (char_of (16 * x + y))) (QueryUnescape t)
              | _ \<Rightarrow> None)
         | _ \<Rightarrow> None)
      else map_option ((#) (if c = CHR ''+'' then CHR '' '' else c)) (QueryUnescape s))"

lemma hex_digits:
  assumes "n < 16"
  shows "hex_value (upper_hex n) = Some n" and "unreserved (upper_hex n)"
proof -
  have "list_all (\<lambda>n. hex_value (upper_hex n) = Some n \<and> unreserved (upper_hex n)) [0..<16]"
    by code_simp
  with assms have "hex_value (upper_hex n) = Some n \<and> unreserved (upper_hex n)"
    by (simp add: list_all_iff)
  then show "hex_value (upper_hex n) = Some n" and "unreserved (upper_hex n)" by simp_all
qed

lemma unreserved_not: "unreserved c \<Longrightarrow> c \<noteq> CHR ''%'' \<and> c \<noteq> CHR ''+'' \<and> c \<noteq> CHR ''&'' \<and> c \<noteq> CHR ''='' \<and> c \<noteq> CHR '';''"
  by (auto simp: unreserved_def)

lemma char_of_split: "char_of (16 * (of_char c div 16) + of_char c mod (16 :: nat)) = c"
  by (simp add: mult.commute)

theorem QueryUnescape_QueryEscape: "QueryUnescape (QueryEscape s) = Some s"
proof (induction s)
  case (Cons c s)
  have lt: "of_char c div 16 < (16 :: nat)" "of_char c mod 16 < (16 :: nat)"
    using of_char_mod_256 [of c] by (auto simp: less_mult_imp_div_less)
  show ?case
    using Cons hex_digits(1) [OF lt(1)] hex_digits(1) [OF lt(2)] unreserved_not [of c]
    by (simp add: char_of_split)
qed simp

text \<open>What an escaped string is made of, so that it can be a part of a query string.\<close>

definition query_safe :: "string \<Rightarrow> bool" where
  "query_safe s \<longleftrightarrow> (\<forall>c \<in> set s. unreserved c \<or> c = CHR ''%'' \<or> c = CHR ''+'')"

lemma QueryEscape_safe: "query_safe (QueryEscape s)"
proof (induction s)
  case (Cons c s)
  have "of_char c div 16 < (16 :: nat)" "of_char c mod 16 < (16 :: nat)"
    using of_char_mod_256 [of c] by (auto simp: less_mult_imp_div_less)
  with Cons hex_digits(2) show ?case by (auto simp: query_safe_def)
qed (simp add: query_safe_def)

section \<open>Cutting strings\<close>

text \<open>\<open>strings.Cut(s, sep)\<close> for a separator of one byte: before, after, found.\<close>

fun Cut :: "char \<Rightarrow> string \<Rightarrow> string \<times> string \<times> bool" where
  "Cut d [] = ([], [], False)"
| "Cut d (c # s) = (if c = d then ([], s, True) else (case Cut d s of (a, b, f) \<Rightarrow> (c # a, b, f)))"

lemma Cut_found: "d \<notin> set a \<Longrightarrow> Cut d (a @ d # b) = (a, b, True)"
  by (induction a) auto

lemma Cut_none: "d \<notin> set a \<Longrightarrow> Cut d a = (a, [], False)"
  by (induction a) auto

lemma Cut_length: "Cut d s = (a, b, f) \<Longrightarrow> length b \<le> length s \<and> (s \<noteq> [] \<longrightarrow> length b < length s)"
  by (induction s arbitrary: a) (auto split: if_splits prod.splits)

section \<open>Values\<close>

type_synonym url_values = "(string \<times> string) list"

definition Get :: "url_values \<Rightarrow> string \<Rightarrow> string" where
  "Get vs k = (case map_of vs k of None \<Rightarrow> [] | Some v \<Rightarrow> v)"

definition Set_value :: "string \<Rightarrow> string \<Rightarrow> url_values \<Rightarrow> url_values" where
  "Set_value k v vs = filter (\<lambda>p. fst p \<noteq> k) vs @ [(k, v)]"

text \<open>\<open>Encode\<close>: keys in order, the values of a key in their order.\<close>

fun join_pairs :: "url_values \<Rightarrow> string" where
  "join_pairs [] = []"
| "join_pairs [(k, v)] = QueryEscape k @ CHR ''='' # QueryEscape v"
| "join_pairs ((k, v) # p # ps) = QueryEscape k @ CHR ''='' # QueryEscape v @ CHR ''&'' # join_pairs (p # ps)"

definition Encode :: "url_values \<Rightarrow> string" where
  "Encode vs = join_pairs (sort_key fst vs)"

text \<open>
  \<open>ParseQuery\<close>: the pairs that could be read, and whether some part could not (a semicolon or a
  bad escape); \<open>URL.Query()\<close> keeps the pairs and drops the error.
\<close>

function ParseQuery :: "string \<Rightarrow> url_values \<times> bool" where
  "ParseQuery s =
     (if s = [] then ([], True) else
      case Cut (CHR ''&'') s of (part, rest, _) \<Rightarrow>
      case ParseQuery rest of (vs, ok) \<Rightarrow>
        if CHR '';'' \<in> set part then (vs, False)
        else if part = [] then (vs, ok)
        else case Cut (CHR ''='') part of (k, v, _) \<Rightarrow>
          case (QueryUnescape k, QueryUnescape v) of
            (Some k', Some v') \<Rightarrow> ((k', v') # vs, ok)
          | _ \<Rightarrow> (vs, False))"
  by pat_completeness auto
termination
  by (relation "measure length") (auto dest: Cut_length [OF sym])

declare ParseQuery.simps [simp del]

definition Query :: "string \<Rightarrow> url_values" where
  "Query raw = fst (ParseQuery raw)"

lemma query_safe_not: "query_safe s \<Longrightarrow> CHR ''&'' \<notin> set s \<and> CHR ''='' \<notin> set s \<and> CHR '';'' \<notin> set s"
  using unreserved_not by (auto simp: query_safe_def)

lemma pair_free:
  "CHR ''&'' \<notin> set (QueryEscape k @ CHR ''='' # QueryEscape v)"
  "CHR '';'' \<notin> set (QueryEscape k @ CHR ''='' # QueryEscape v)"
  using query_safe_not [OF QueryEscape_safe [of k]] query_safe_not [OF QueryEscape_safe [of v]] by auto

lemma Cut_pair: "Cut (CHR ''='') (QueryEscape k @ CHR ''='' # QueryEscape v) = (QueryEscape k, QueryEscape v, True)"
  using query_safe_not [OF QueryEscape_safe [of k]] by (simp add: Cut_found)

lemma ParseQuery_join_pairs: "ParseQuery (join_pairs vs) = (vs, True)"
proof (induction vs rule: join_pairs.induct)
  case 1
  show ?case by (subst ParseQuery.simps) simp
next
  case (2 k v)
  show ?case
    using pair_free [of k v]
    by (subst ParseQuery.simps, subst join_pairs.simps, subst Cut_none)
       (simp_all add: Cut_pair QueryUnescape_QueryEscape ParseQuery.simps [of "[]"])
next
  case (3 k v p ps)
  have "Cut (CHR ''&'') (join_pairs ((k, v) # p # ps)) =
      (QueryEscape k @ CHR ''='' # QueryEscape v, join_pairs (p # ps), True)"
    using Cut_found [OF pair_free(1), of k v "join_pairs (p # ps)"] by simp
  then show ?case
    using pair_free(2) [of k v] 3
    by (subst ParseQuery.simps) (simp add: Cut_pair QueryUnescape_QueryEscape)
qed

theorem Query_Encode: "Query (Encode vs) = sort_key fst vs"
  by (simp add: Query_def Encode_def ParseQuery_join_pairs)

lemma map_of_insort_key_fst: "map_of (insort_key fst p vs) k = map_of (p # vs) k"
  by (induction vs) auto

lemma Get_sorted [simp]: "Get (sort_key fst vs) k = Get vs k"
proof -
  have "map_of (sort_key fst vs) k = map_of vs k"
    by (induction vs) (simp_all add: map_of_insort_key_fst)
  then show ?thesis by (simp add: Get_def)
qed

lemma map_of_filter_ne: "k' \<noteq> k \<Longrightarrow> map_of (filter (\<lambda>p. fst p \<noteq> k') vs) k = map_of vs k"
  by (induction vs) auto

lemma Get_Set_same [simp]: "Get (Set_value k v vs) k = v"
proof -
  have "map_of (filter (\<lambda>p. fst p \<noteq> k) vs) k = None"
    by (auto simp: map_of_eq_None_iff)
  then show ?thesis by (simp add: Get_def Set_value_def map_add_def)
qed

lemma Get_Set_other [simp]: "k' \<noteq> k \<Longrightarrow> Get (Set_value k' v vs) k = Get vs k"
  by (simp add: Get_def Set_value_def map_add_def map_of_filter_ne split: option.splits)

text \<open>What a client reads back from a query string the server has encoded.\<close>

lemma Get_Query_Encode: "Get (Query (Encode vs)) k = Get vs k"
  by (simp add: Query_Encode)

end
