(* ===== verification/Go_Json.thy ===== *)
theory Go_Json
  imports Go_Strings
begin

text \<open>
  What the source uses of encoding/json to write a value: strings, integers and objects.  A string is
  escaped as the package does it by default, HTML characters included; bytes that are not UTF-8
  become the replacement character.
\<close>

section \<open>UTF-8\<close>

definition byte_in :: "nat \<Rightarrow> nat \<Rightarrow> char \<Rightarrow> bool" where
  "byte_in lo hi c \<longleftrightarrow> lo \<le> of_char c \<and> of_char c \<le> hi"

text \<open>Number of bytes of the UTF-8 encoded character a string starts with, 0 when there is none.\<close>

definition utf8_width :: "string \<Rightarrow> nat" where
  "utf8_width s =
     (case s of
        [] \<Rightarrow> 0
      | a # t \<Rightarrow>
          if byte_in 0 127 a then 1
          else (case t of
             [] \<Rightarrow> 0
           | b # u \<Rightarrow>
               if byte_in 194 223 a \<and> byte_in 128 191 b then 2
               else (case u of
                  [] \<Rightarrow> 0
                | c # v \<Rightarrow>
                    if \<not> byte_in 128 191 c then 0
                    else if (byte_in 224 224 a \<and> byte_in 160 191 b) \<or> (byte_in 225 236 a \<and> byte_in 128 191 b)
                         \<or> (byte_in 237 237 a \<and> byte_in 128 159 b) \<or> (byte_in 238 239 a \<and> byte_in 128 191 b) then 3
                    else (case v of
                       [] \<Rightarrow> 0
                     | d # _ \<Rightarrow>
                         if byte_in 128 191 d \<and>
                            ((byte_in 240 240 a \<and> byte_in 144 191 b) \<or> (byte_in 241 243 a \<and> byte_in 128 191 b)
                             \<or> (byte_in 244 244 a \<and> byte_in 128 143 b)) then 4
                         else 0))))"

lemma utf8_width_le: "utf8_width s \<le> length s"
  by (auto simp: utf8_width_def split: list.splits)

section \<open>Strings\<close>

definition lower_hex :: "nat \<Rightarrow> char" where
  "lower_hex n = ''0123456789abcdef'' ! n"

definition escape_ascii :: "char \<Rightarrow> string" where
  "escape_ascii c =
     (let n = of_char c :: nat in
      if n = 34 \<or> n = 92 then [CHR 0x5C, c]
      else if n = 8 then [CHR 0x5C, CHR ''b'']
      else if n = 12 then [CHR 0x5C, CHR ''f'']
      else if n = 10 then [CHR 0x5C, CHR ''n'']
      else if n = 13 then [CHR 0x5C, CHR ''r'']
      else if n = 9 then [CHR 0x5C, CHR ''t'']
      else if n < 32 \<or> c = CHR ''<'' \<or> c = CHR ''>'' \<or> c = CHR ''&''
        then CHR 0x5C # ''u00'' @ [lower_hex (n div 16), lower_hex (n mod 16)]
      else [c])"

function json_chars :: "string \<Rightarrow> string" where
  "json_chars s =
     (if s = [] then []
      else if byte_in 0 127 (hd s) then escape_ascii (hd s) @ json_chars (tl s)
      else if utf8_width s = 0 then CHR 0x5C # ''ufffd'' @ json_chars (tl s)
      else if take 3 s = [CHR 0xE2, CHR 0x80, CHR 0xA8] then CHR 0x5C # ''u2028'' @ json_chars (drop 3 s)
      else if take 3 s = [CHR 0xE2, CHR 0x80, CHR 0xA9] then CHR 0x5C # ''u2029'' @ json_chars (drop 3 s)
      else take (utf8_width s) s @ json_chars (drop (utf8_width s) s))"
  by pat_completeness auto
termination
  by (relation "measure length") (auto simp: length_greater_0_conv simp del: length_0_conv)

declare json_chars.simps [simp del]

definition json_string :: "string \<Rightarrow> string" where
  "json_string s = CHR 0x22 # json_chars s @ [CHR 0x22]"

section \<open>Integers\<close>

function decimal :: "nat \<Rightarrow> string" where
  "decimal n = (if n < 10 then [char_of (48 + n)] else decimal (n div 10) @ [char_of (48 + n mod 10)])"
  by pat_completeness auto
termination
  by (relation "measure id") auto

declare decimal.simps [simp del]

text \<open>\<open>strconv.Itoa\<close> and the encoding of an integer.\<close>

definition Itoa :: "int \<Rightarrow> string" where
  "Itoa i = (if i < 0 then CHR ''-'' # decimal (nat (- i)) else decimal (nat i))"

section \<open>Objects\<close>

text \<open>The members of an object: a name and an encoded value.\<close>

fun json_members :: "(string \<times> string) list \<Rightarrow> string" where
  "json_members [] = []"
| "json_members [(k, v)] = json_string k @ CHR '':'' # v"
| "json_members ((k, v) # p # ps) = json_string k @ CHR '':'' # v @ CHR '','' # json_members (p # ps)"

definition json_object :: "(string \<times> string) list \<Rightarrow> string" where
  "json_object ps = CHR ''{'' # json_members ps @ ''}''"

text \<open>A member with \<open>omitempty\<close>.\<close>

definition omitempty :: "string \<Rightarrow> string \<Rightarrow> (string \<times> string) list" where
  "omitempty k v = (if v = [] then [] else [(k, json_string v)])"

end
