(* ===== verification/Http.thy ===== *)
theory Http
  imports Models Go_Url Go_Json
begin

text \<open>
  Requests and responses as the handlers see them, after net/http has parsed the request line, the
  headers and the body.  The values the middleware puts into the request's context are fields of
  the request, \<open>None\<close> until the middleware has run.
\<close>

section \<open>Requests\<close>

record request =
  req_method :: string
  req_host :: string
  req_path :: string
  req_escaped_path :: string \<comment> \<open>the path as it was sent\<close>
  req_raw_query :: string
  req_headers :: "(string \<times> string) list"
  req_post_form :: url_values \<comment> \<open>the form in the body\<close>
  req_body_ok :: bool \<comment> \<open>the body could be parsed\<close>
  req_basic_auth :: "(string \<times> string) option"
  req_cookies :: "(string \<times> string) list"
  req_path_values :: "(string \<times> string) list"
  req_user :: "user option"
  req_operator :: "operator option"

definition Header_Get :: "request \<Rightarrow> string \<Rightarrow> string" where
  "Header_Get r k = Get (req_headers r) k"

definition URL_Query :: "request \<Rightarrow> url_values" where
  "URL_Query r = Query (req_raw_query r)"

definition RequestURI :: "request \<Rightarrow> string" where
  "RequestURI r = req_escaped_path r @ (if req_raw_query r = [] then [] else CHR ''?'' # req_raw_query r)"

text \<open>\<open>r.Form\<close> holds the body's values before those of the query.\<close>

definition FormValue :: "request \<Rightarrow> string \<Rightarrow> string" where
  "FormValue r k = Get (req_post_form r @ URL_Query r) k"

definition ParseForm :: "request \<Rightarrow> goerr + unit" where
  "ParseForm r =
     (if req_body_ok r \<and> snd (ParseQuery (req_raw_query r)) then Inr ()
      else Inl (ErrText ''malformed form''))"

text \<open>The first cookie of that name; \<open>None\<close> is \<open>http.ErrNoCookie\<close>.\<close>

definition Request_Cookie :: "request \<Rightarrow> string \<Rightarrow> string option" where
  "Request_Cookie r k = map_of (req_cookies r) k"

definition PathValue :: "request \<Rightarrow> string \<Rightarrow> string" where
  "PathValue r k = Get (req_path_values r) k"

definition UserFromContext :: "request \<Rightarrow> user option" where
  "UserFromContext r = req_user r"

definition OperatorFromContext :: "request \<Rightarrow> operator option" where
  "OperatorFromContext r = req_operator r"

section \<open>Responses\<close>

datatype same_site = SameSiteDefaultMode | SameSiteLaxMode | SameSiteStrictMode | SameSiteNoneMode

record cookie =
  cookie_Name :: string
  cookie_Value :: string
  cookie_Path :: string
  cookie_HttpOnly :: bool
  cookie_Secure :: bool
  cookie_SameSite :: same_site
  cookie_MaxAge :: int

record token_response =
  AccessToken :: string
  IDToken :: string
  TokenType :: string
  ExpiresIn :: int

record discovery_config =
  Issuer :: string
  AuthorizationEndpoint :: string
  TokenEndpoint :: string
  UserInfoEndpoint :: string
  JWKSURI :: string
  ResponseTypesSupported :: "string list"
  GrantTypesSupported :: "string list"
  SubjectTypesSupported :: "string list"
  IDTokenSigningAlgValuesSupported :: "string list"
  ScopesSupported :: "string list"
  TokenEndpointAuthMethodsSupported :: "string list"
  CodeChallengeMethodsSupported :: "string list"
  ClaimsSupported :: "string list"

text \<open>The data a page is rendered with: the fields of its data structure, by name.\<close>

datatype page_field =
    Txt string
  | Num int
  | Flag bool
  | Texts "string list"
  | Pairs "(string \<times> string) list"
  | Struct "(string \<times> page_field) list"
  | Structs "(string \<times> page_field) list list"

datatype body =
    NoBody
  | Plain string \<comment> \<open>\<open>http.Error\<close> and literal bodies\<close>
  | TokenJSON token_response
  | TokenErrorJSON string string \<comment> \<open>error, error\_description\<close>
  | DiscoveryJSON discovery_config
  | JSON string \<comment> \<open>an encoded document\<close>
  | Page string "(string \<times> page_field) list"

record response =
  resp_status :: nat
  resp_location :: "string option"
  resp_headers :: "(string \<times> string) list"
  resp_cookies :: "cookie list"
  resp_body :: body

definition StatusOK :: nat where "StatusOK = 200"
definition StatusFound :: nat where "StatusFound = 302"
definition StatusSeeOther :: nat where "StatusSeeOther = 303"
definition StatusTemporaryRedirect :: nat where "StatusTemporaryRedirect = 307"
definition StatusBadRequest :: nat where "StatusBadRequest = 400"
definition StatusUnauthorized :: nat where "StatusUnauthorized = 401"
definition StatusForbidden :: nat where "StatusForbidden = 403"
definition StatusNotFound :: nat where "StatusNotFound = 404"
definition StatusUnprocessableEntity :: nat where "StatusUnprocessableEntity = 422"
definition StatusInternalServerError :: nat where "StatusInternalServerError = 500"
definition StatusServiceUnavailable :: nat where "StatusServiceUnavailable = 503"

lemmas status_defs = StatusOK_def StatusFound_def StatusSeeOther_def StatusTemporaryRedirect_def
  StatusBadRequest_def StatusUnauthorized_def StatusForbidden_def StatusNotFound_def
  StatusUnprocessableEntity_def StatusInternalServerError_def StatusServiceUnavailable_def

text \<open>
  \<open>http.Redirect\<close>, to an absolute URL or to a path from the root that \<open>path.Clean\<close> leaves as it is, the only
  ones the source passes; the short HTML body for browsers that do not follow it is left out.
\<close>

fun hexEscapeNonASCII :: "string \<Rightarrow> string" where
  "hexEscapeNonASCII [] = []"
| "hexEscapeNonASCII (c # s) =
     (if c < CHR 0x80 then c # hexEscapeNonASCII s
      else CHR ''%'' # lower_hex (of_char c div 16) # lower_hex (of_char c mod 16) # hexEscapeNonASCII s)"

definition Redirect :: "string \<Rightarrow> nat \<Rightarrow> response" where
  "Redirect url status =
     \<lparr>resp_status = status, resp_location = Some (hexEscapeNonASCII url), resp_headers = [], resp_cookies = [],
      resp_body = NoBody\<rparr>"

text \<open>\<open>http.Error\<close> and \<open>http.NotFound\<close>.\<close>

definition Error :: "string \<Rightarrow> nat \<Rightarrow> response" where
  "Error msg status =
     \<lparr>resp_status = status, resp_location = None,
      resp_headers = [(''Content-Type'', ''text/plain; charset=utf-8''), (''X-Content-Type-Options'', ''nosniff'')],
      resp_cookies = [], resp_body = Plain msg\<rparr>"

definition NotFound :: response where
  "NotFound = Error ''404 page not found'' StatusNotFound"

text \<open>After a panic net/http closes the connection without a response.\<close>

definition aborted :: response where
  "aborted = \<lparr>resp_status = 0, resp_location = None, resp_headers = [], resp_cookies = [], resp_body = NoBody\<rparr>"

text \<open>Cookies set before the response was written.\<close>

definition with_cookies :: "cookie list \<Rightarrow> response \<Rightarrow> response" where
  "with_cookies cs resp = resp\<lparr>resp_cookies := cs @ resp_cookies resp\<rparr>"

lemma Redirect_simps [simp]:
  "resp_status (Redirect u n) = n" "resp_location (Redirect u n) = Some (hexEscapeNonASCII u)"
  "resp_cookies (Redirect u n) = []" "resp_body (Redirect u n) = NoBody"
  by (simp_all add: Redirect_def)

lemma hexEscapeNonASCII_same: "plain_ascii s \<Longrightarrow> hexEscapeNonASCII s = s"
  by (induction s) (simp_all add: plain_ascii_def)

lemma Error_simps [simp]:
  "resp_status (Error m n) = n" "resp_location (Error m n) = None"
  "resp_cookies (Error m n) = []" "resp_body (Error m n) = Plain m"
  by (simp_all add: Error_def)

lemma with_cookies_simps [simp]:
  "resp_status (with_cookies cs r) = resp_status r" "resp_location (with_cookies cs r) = resp_location r"
  "resp_cookies (with_cookies cs r) = cs @ resp_cookies r" "resp_body (with_cookies cs r) = resp_body r"
  "resp_headers (with_cookies cs r) = resp_headers r"
  by (simp_all add: with_cookies_def)

end
