(* ===== verification/Session_Managers.thy ===== *)
theory Session_Managers
  imports Gorm Sha256 Http
begin

text \<open>
  Sessions of users and of operators: the two repositories (internal/repository/session_repo.go and
  operator_session_repo.go) and the two managers (internal/session).  A session is found by the
  SHA-256 hash of its token; the token itself is only in the cookie.

  \<open>session_store\<close> is what a manager relies on a repository for, \<open>session_manager\<close> what a manager is;
  the facts on sessions are proved once there and hold for both kinds.
\<close>

section \<open>The repositories\<close>

definition gormSessionRepo_Create :: "env \<Rightarrow> session \<Rightarrow> (world, goerr + session) state" where
  "gormSessionRepo_Create E s = Create E Sessions s"

definition gormSessionRepo_GetByTokenHash :: "env \<Rightarrow> string \<Rightarrow> (world, goerr + session) state" where
  "gormSessionRepo_GetByTokenHash E tokenHash = do {
     r \<leftarrow> First E Sessions (\<lambda>s. Session_TokenHash s = tokenHash);
     ret (not_found r)
   }"

definition gormSessionRepo_Revoke :: "env \<Rightarrow> int \<Rightarrow> (world, goerr + unit) state" where
  "gormSessionRepo_Revoke E i = do {
     now \<leftarrow> Now E;
     rows \<leftarrow> Update E Sessions (\<lambda>s. Session_ID s = i) (Session_RevokedAt_update (\<lambda>_. Some now));
     ret (must_affect rows)
   }"

definition gormSessionRepo_RevokeAllForUser :: "env \<Rightarrow> int \<Rightarrow> (world, goerr + unit) state" where
  "gormSessionRepo_RevokeAllForUser E userID = do {
     now \<leftarrow> Now E;
     rows \<leftarrow> Update E Sessions (\<lambda>s. Session_UserID s = userID \<and> Session_RevokedAt s = None)
               (Session_RevokedAt_update (\<lambda>_. Some now));
     ret (case rows of Inl e \<Rightarrow> Inl e | Inr _ \<Rightarrow> Inr ())
   }"

definition gormSessionRepo_DeleteInactive :: "env \<Rightarrow> (world, goerr + nat) state" where
  "gormSessionRepo_DeleteInactive E = do {
     now \<leftarrow> Now E;
     Delete E Sessions (\<lambda>s. Session_ExpiresAt s < now \<or> Session_RevokedAt s \<noteq> None)
   }"

definition gormOperatorSessionRepo_Create :: "env \<Rightarrow> operator_session \<Rightarrow> (world, goerr + operator_session) state" where
  "gormOperatorSessionRepo_Create E s = Create E OperatorSessions s"

definition gormOperatorSessionRepo_GetByTokenHash :: "env \<Rightarrow> string \<Rightarrow> (world, goerr + operator_session) state" where
  "gormOperatorSessionRepo_GetByTokenHash E tokenHash = do {
     r \<leftarrow> First E OperatorSessions (\<lambda>s. OpSession_TokenHash s = tokenHash);
     ret (not_found r)
   }"

definition gormOperatorSessionRepo_Revoke :: "env \<Rightarrow> int \<Rightarrow> (world, goerr + unit) state" where
  "gormOperatorSessionRepo_Revoke E i = do {
     now \<leftarrow> Now E;
     rows \<leftarrow> Update E OperatorSessions (\<lambda>s. OpSession_ID s = i) (OpSession_RevokedAt_update (\<lambda>_. Some now));
     ret (must_affect rows)
   }"

definition gormOperatorSessionRepo_RevokeAllForOperator :: "env \<Rightarrow> int \<Rightarrow> (world, goerr + unit) state" where
  "gormOperatorSessionRepo_RevokeAllForOperator E operatorID = do {
     now \<leftarrow> Now E;
     rows \<leftarrow> Update E OperatorSessions (\<lambda>s. OpSession_OperatorID s = operatorID \<and> OpSession_RevokedAt s = None)
               (OpSession_RevokedAt_update (\<lambda>_. Some now));
     ret (case rows of Inl e \<Rightarrow> Inl e | Inr _ \<Rightarrow> Inr ())
   }"

definition gormOperatorSessionRepo_DeleteInactive :: "env \<Rightarrow> (world, goerr + nat) state" where
  "gormOperatorSessionRepo_DeleteInactive E = do {
     now \<leftarrow> Now E;
     Delete E OperatorSessions (\<lambda>s. OpSession_ExpiresAt s < now \<or> OpSession_RevokedAt s \<noteq> None)
   }"

section \<open>The managers\<close>

record session_config =
  CookieName :: string
  TTL :: duration
  Secure :: bool

definition Manager_Create :: "env \<Rightarrow> session_config \<Rightarrow> int \<Rightarrow> (world, goerr + string) state" where
  "Manager_Create E c userID = do {
     b \<leftarrow> RandRead E 32;
     case b of
       Inl e \<Rightarrow> ret (Inl e)
     | Inr b \<Rightarrow> do {
         now \<leftarrow> Now E;
         r \<leftarrow> gormSessionRepo_Create E
               \<lparr>Session_ID = 0, Session_TokenHash = Sum256 (RawURLEncode b), Session_UserID = userID,
                Session_ExpiresAt = now + TTL c, Session_RevokedAt = None,
                Session_CreatedAt = zero_time, Session_UpdatedAt = zero_time\<rparr>;
         ret (case r of Inl e \<Rightarrow> Inl e | Inr _ \<Rightarrow> Inr (RawURLEncode b))
       }
   }"

definition Manager_Validate :: "env \<Rightarrow> string \<Rightarrow> (world, goerr + session) state" where
  "Manager_Validate E token = do {
     r \<leftarrow> gormSessionRepo_GetByTokenHash E (Sum256 token);
     case r of
       Inl e \<Rightarrow> ret (Inl e)
     | Inr s \<Rightarrow>
         if Session_RevokedAt s \<noteq> None then ret (Inl ErrSessionRevoked)
         else do {
           now \<leftarrow> Now E;
           ret (if Session_ExpiresAt s < now then Inl ErrSessionExpired else Inr s)
         }
   }"

definition Manager_Revoke :: "env \<Rightarrow> int \<Rightarrow> (world, goerr + unit) state" where
  "Manager_Revoke E i = gormSessionRepo_Revoke E i"

definition Manager_RevokeAllForUser :: "env \<Rightarrow> int \<Rightarrow> (world, goerr + unit) state" where
  "Manager_RevokeAllForUser E userID = gormSessionRepo_RevokeAllForUser E userID"

definition Manager_DeleteInactive :: "env \<Rightarrow> (world, goerr + nat) state" where
  "Manager_DeleteInactive E = gormSessionRepo_DeleteInactive E"

definition Manager_GetCookie :: "session_config \<Rightarrow> request \<Rightarrow> string option" where
  "Manager_GetCookie c r = Request_Cookie r (CookieName c)"

definition Manager_SetCookie :: "session_config \<Rightarrow> string \<Rightarrow> cookie" where
  "Manager_SetCookie c token =
     \<lparr>cookie_Name = CookieName c, cookie_Value = token, cookie_Path = ''/'', cookie_HttpOnly = True,
      cookie_Secure = Secure c, cookie_SameSite = SameSiteLaxMode, cookie_MaxAge = seconds (TTL c)\<rparr>"

definition Manager_ClearCookie :: "session_config \<Rightarrow> cookie" where
  "Manager_ClearCookie c =
     \<lparr>cookie_Name = CookieName c, cookie_Value = [], cookie_Path = ''/'', cookie_HttpOnly = True,
      cookie_Secure = Secure c, cookie_SameSite = SameSiteLaxMode, cookie_MaxAge = -1\<rparr>"

definition OperatorManager_Create :: "env \<Rightarrow> session_config \<Rightarrow> int \<Rightarrow> (world, goerr + string) state" where
  "OperatorManager_Create E c operatorID = do {
     b \<leftarrow> RandRead E 32;
     case b of
       Inl e \<Rightarrow> ret (Inl e)
     | Inr b \<Rightarrow> do {
         now \<leftarrow> Now E;
         r \<leftarrow> gormOperatorSessionRepo_Create E
               \<lparr>OpSession_ID = 0, OpSession_TokenHash = Sum256 (RawURLEncode b), OpSession_OperatorID = operatorID,
                OpSession_ExpiresAt = now + TTL c, OpSession_RevokedAt = None,
                OpSession_CreatedAt = zero_time, OpSession_UpdatedAt = zero_time\<rparr>;
         ret (case r of Inl e \<Rightarrow> Inl e | Inr _ \<Rightarrow> Inr (RawURLEncode b))
       }
   }"

definition OperatorManager_Validate :: "env \<Rightarrow> string \<Rightarrow> (world, goerr + operator_session) state" where
  "OperatorManager_Validate E token = do {
     r \<leftarrow> gormOperatorSessionRepo_GetByTokenHash E (Sum256 token);
     case r of
       Inl e \<Rightarrow> ret (Inl e)
     | Inr s \<Rightarrow>
         if OpSession_RevokedAt s \<noteq> None then ret (Inl ErrSessionRevoked)
         else do {
           now \<leftarrow> Now E;
           ret (if OpSession_ExpiresAt s < now then Inl ErrSessionExpired else Inr s)
         }
   }"

definition OperatorManager_Revoke :: "env \<Rightarrow> int \<Rightarrow> (world, goerr + unit) state" where
  "OperatorManager_Revoke E i = gormOperatorSessionRepo_Revoke E i"

definition OperatorManager_RevokeAllForOperator :: "env \<Rightarrow> int \<Rightarrow> (world, goerr + unit) state" where
  "OperatorManager_RevokeAllForOperator E operatorID = gormOperatorSessionRepo_RevokeAllForOperator E operatorID"

definition OperatorManager_DeleteInactive :: "env \<Rightarrow> (world, goerr + nat) state" where
  "OperatorManager_DeleteInactive E = gormOperatorSessionRepo_DeleteInactive E"

definition OperatorManager_GetCookie :: "session_config \<Rightarrow> request \<Rightarrow> string option" where
  "OperatorManager_GetCookie c r = Request_Cookie r (CookieName c)"

definition OperatorManager_SetCookie :: "session_config \<Rightarrow> string \<Rightarrow> cookie" where
  "OperatorManager_SetCookie c token =
     \<lparr>cookie_Name = CookieName c, cookie_Value = token, cookie_Path = ''/'', cookie_HttpOnly = True,
      cookie_Secure = Secure c, cookie_SameSite = SameSiteLaxMode, cookie_MaxAge = seconds (TTL c)\<rparr>"

definition OperatorManager_ClearCookie :: "session_config \<Rightarrow> cookie" where
  "OperatorManager_ClearCookie c =
     \<lparr>cookie_Name = CookieName c, cookie_Value = [], cookie_Path = ''/'', cookie_HttpOnly = True,
      cookie_Secure = Secure c, cookie_SameSite = SameSiteLaxMode, cookie_MaxAge = -1\<rparr>"

section \<open>The contract of a session repository\<close>

text \<open>
  \<open>rows_of\<close> reads the stored sessions; \<open>token_hash\<close>, \<open>owner\<close>, \<open>expires\<close> and \<open>revoked\<close> are a session's
  columns.  Whatever a statement answers, what it may have done to the rows is fixed.
\<close>

locale session_store =
  fixes rows_of :: "world \<Rightarrow> 's list"
    and token_hash :: "'s \<Rightarrow> string" and owner :: "'s \<Rightarrow> int" and session_id :: "'s \<Rightarrow> int"
    and expires :: "'s \<Rightarrow> instant" and revoked :: "'s \<Rightarrow> instant option"
    and store_create :: "env \<Rightarrow> 's \<Rightarrow> (world, goerr + 's) state"
    and store_get :: "env \<Rightarrow> string \<Rightarrow> (world, goerr + 's) state"
    and store_revoke :: "env \<Rightarrow> int \<Rightarrow> (world, goerr + unit) state"
    and store_revoke_all :: "env \<Rightarrow> int \<Rightarrow> (world, goerr + unit) state"
    and store_delete_inactive :: "env \<Rightarrow> (world, goerr + nat) state"
  assumes rows_ticks: "rows_of (w\<lparr>ticks := k\<rparr>) = rows_of w"
    and rows_entropy: "rows_of (w\<lparr>entropy_reads := k\<rparr>) = rows_of w"
    and create_row: "run_state (store_create E s) w = (Inr s', w') \<Longrightarrow>
        rows_of w' = rows_of w @ [s'] \<and> token_hash s' = token_hash s \<and> owner s' = owner s
        \<and> expires s' = expires s \<and> revoked s' = revoked s
        \<and> (\<forall>x \<in> set (rows_of w). token_hash x \<noteq> token_hash s)"
    and get_row: "run_state (store_get E h) w = (res, w') \<Longrightarrow>
        rows_of w' = rows_of w \<and> ticks w' = ticks w
        \<and> (\<forall>s. res = Inr s \<longrightarrow> find (\<lambda>x. token_hash x = h) (rows_of w) = Some s)
        \<and> (db_fault E (db_calls w) = NoFault \<longrightarrow>
             res = (case find (\<lambda>x. token_hash x = h) (rows_of w) of None \<Rightarrow> Inl ErrNotFound | Some s \<Rightarrow> Inr s))"
    and revoke_rows: "run_state (store_revoke E i) w = (Inr (), w') \<Longrightarrow>
        (\<exists>f t. rows_of w' = map (\<lambda>s. if session_id s = i then f s else s) (rows_of w)
           \<and> (\<forall>s. token_hash (f s) = token_hash s \<and> revoked (f s) = Some t))"
    and revoke_all_rows: "run_state (store_revoke_all E u) w = (Inr (), w') \<Longrightarrow>
        (\<exists>f t. rows_of w' = map (\<lambda>s. if owner s = u \<and> revoked s = None then f s else s) (rows_of w)
           \<and> (\<forall>s. token_hash (f s) = token_hash s \<and> owner (f s) = owner s \<and> revoked (f s) = Some t))"
    and delete_rows: "run_state (store_delete_inactive E) w = (Inr n, w') \<Longrightarrow>
        rows_of w' = filter (\<lambda>s. \<not> (expires s < clock E (ticks w) \<or> revoked s \<noteq> None)) (rows_of w)
        \<and> n = length (rows_of w) - length (rows_of w')"

section \<open>The contract of a session manager\<close>

locale session_manager = session_store +
  fixes mgr_create :: "env \<Rightarrow> session_config \<Rightarrow> int \<Rightarrow> (world, goerr + string) state"
    and mgr_validate :: "env \<Rightarrow> string \<Rightarrow> (world, goerr + 'a) state"
    and new_session :: "string \<Rightarrow> int \<Rightarrow> instant \<Rightarrow> 'a"
  assumes new_session: "token_hash (new_session h i t) = h" "owner (new_session h i t) = i"
      "expires (new_session h i t) = t" "revoked (new_session h i t) = None"
    and validate_code: "mgr_validate E token = do {
        r \<leftarrow> store_get E (Sum256 token);
        case r of
          Inl e \<Rightarrow> ret (Inl e)
        | Inr s \<Rightarrow>
            if revoked s \<noteq> None then ret (Inl ErrSessionRevoked)
            else do {
              now \<leftarrow> Now E;
              ret (if expires s < now then Inl ErrSessionExpired else Inr s)
            }
      }"
    and create_code: "mgr_create E c i = do {
        b \<leftarrow> RandRead E 32;
        case b of
          Inl e \<Rightarrow> ret (Inl e)
        | Inr b \<Rightarrow> do {
            now \<leftarrow> Now E;
            r \<leftarrow> store_create E (new_session (Sum256 (RawURLEncode b)) i (now + TTL c));
            ret (case r of Inl e \<Rightarrow> Inl e | Inr _ \<Rightarrow> Inr (RawURLEncode b))
          }
      }"
begin

lemma run_validate:
  "run_state (mgr_validate E token) w =
     (case run_state (store_get E (Sum256 token)) w of
        (Inl e, v) \<Rightarrow> (Inl e, v)
      | (Inr s, v) \<Rightarrow>
          if revoked s \<noteq> None then (Inl ErrSessionRevoked, v)
          else (if expires s < clock E (ticks v) then Inl ErrSessionExpired else Inr s,
                v\<lparr>ticks := Suc (ticks v)\<rparr>))"
  unfolding validate_code by (simp add: run_Now split: prod.split sum.split)

lemma run_validate_InrD:
  assumes "run_state (mgr_validate E token) w = (Inr s, w')"
  obtains v where "run_state (store_get E (Sum256 token)) w = (Inr s, v)" and "revoked s = None"
    and "\<not> expires s < clock E (ticks v)" and "w' = v\<lparr>ticks := Suc (ticks v)\<rparr>"
proof -
  obtain r v where get: "run_state (store_get E (Sum256 token)) w = (r, v)"
    by fastforce
  show thesis
    by (cases r; use assms that get in \<open>simp add: run_validate split: if_splits\<close>)
qed

text \<open>A session that is good at an instant.\<close>

lemma validate_sound:
  assumes "run_state (mgr_validate E token) w = (Inr s, w')"
  shows "s \<in> set (rows_of w) \<and> token_hash s = Sum256 token \<and> revoked s = None \<and> clock E (ticks w) \<le> expires s
    \<and> rows_of w' = rows_of w"
proof -
  from assms obtain v where get: "run_state (store_get E (Sum256 token)) w = (Inr s, v)"
    and live: "revoked s = None" "\<not> expires s < clock E (ticks v)" and w': "w' = v\<lparr>ticks := Suc (ticks v)\<rparr>"
    by (rule run_validate_InrD)
  from get_row [OF get] have "find (\<lambda>x. token_hash x = Sum256 token) (rows_of w) = Some s"
    and "ticks v = ticks w" and "rows_of v = rows_of w"
    by auto
  with live w' rows_ticks show ?thesis by (auto dest: find_SomeD)
qed

lemma validate_find:
  assumes "run_state (mgr_validate E token) w = (Inr s, w')"
  shows "find (\<lambda>x. token_hash x = Sum256 token) (rows_of w) = Some s" and "revoked s = None"
proof -
  from assms obtain v where get: "run_state (store_get E (Sum256 token)) w = (Inr s, v)"
    and "revoked s = None"
    by (rule run_validate_InrD)
  then show "find (\<lambda>x. token_hash x = Sum256 token) (rows_of w) = Some s" and "revoked s = None"
    using get_row [OF get] by auto
qed

text \<open>Without a database failure the answer is decided by the row the hash finds.\<close>

lemma validate_result:
  assumes "db_fault E (db_calls w) = NoFault"
  shows "fst (run_state (mgr_validate E token) w) =
    (case find (\<lambda>s. token_hash s = Sum256 token) (rows_of w) of
       None \<Rightarrow> Inl ErrNotFound
     | Some s \<Rightarrow> if revoked s \<noteq> None then Inl ErrSessionRevoked
                else if expires s < clock E (ticks w) then Inl ErrSessionExpired else Inr s)"
proof -
  obtain r v where get: "run_state (store_get E (Sum256 token)) w = (r, v)"
    by fastforce
  have "ticks v = ticks w" and r: "r = (case find (\<lambda>s. token_hash s = Sum256 token) (rows_of w) of
      None \<Rightarrow> Inl ErrNotFound | Some s \<Rightarrow> Inr s)"
    using get_row [OF get] assms by blast+
  then show ?thesis
    unfolding run_validate get by (simp split: option.split)
qed

lemma create_fresh:
  assumes "run_state (mgr_create E c i) w = (Inr token, w')"
  obtains s where "rows_of w' = rows_of w @ [s]" and "token_hash s = Sum256 token" and "owner s = i"
    and "expires s = clock E (ticks w) + TTL c" and "revoked s = None"
    and "\<forall>x \<in> set (rows_of w). token_hash x \<noteq> Sum256 token"
proof -
  obtain b where b: "entropy E (entropy_reads w) 32 = Some b"
    using assms by (auto simp: create_code run_RandRead split: option.splits)
  let ?v = "w\<lparr>entropy_reads := Suc (entropy_reads w), ticks := Suc (ticks w)\<rparr>"
  obtain r u where st: "run_state (store_create E (new_session (Sum256 (RawURLEncode b)) i (clock E (ticks w) + TTL c))) ?v = (r, u)"
    by fastforce
  from assms b st obtain s where r: "r = Inr s" and tok: "token = RawURLEncode b" and u: "u = w'"
    by (auto simp: create_code run_RandRead run_Now split: sum.splits)
  have "rows_of ?v = rows_of w"
    using rows_ticks rows_entropy by metis
  with create_row [OF st [unfolded r]] new_session tok u that show thesis by auto
qed

text \<open>A token is accepted until its time is over, and stands for the user it was created for.\<close>

lemma create_validate:
  assumes "run_state (mgr_create E c i) w = (Inr token, w')"
    and "rows_of v = rows_of w'" and "db_fault E (db_calls v) = NoFault"
  shows "\<exists>s. owner s = i \<and> fst (run_state (mgr_validate E token) v) =
    (if clock E (ticks v) \<le> clock E (ticks w) + TTL c then Inr s else Inl ErrSessionExpired)"
proof -
  from create_fresh [OF assms(1)] obtain s where rows: "rows_of w' = rows_of w @ [s]"
    and s: "token_hash s = Sum256 token" "owner s = i" "expires s = clock E (ticks w) + TTL c" "revoked s = None"
    and fresh: "\<forall>x \<in> set (rows_of w). token_hash x \<noteq> Sum256 token" .
  have "find (\<lambda>x. token_hash x = Sum256 token) (rows_of w) = None"
    using fresh by (simp add: find_None_iff)
  then have "find (\<lambda>x. token_hash x = Sum256 token) (rows_of v) = Some s"
    using s by (simp add: assms(2) rows find_append)
  with s validate_result [OF assms(3), of token] show ?thesis
    by (intro exI [of _ s]) (simp add: not_le)
qed

lemma find_revoked:
  assumes "\<forall>s. token_hash (f s) = token_hash s \<and> revoked (f s) = Some t"
    and "find (\<lambda>x. token_hash x = h) (map (\<lambda>s. if P s then f s else s) xs) = Some y" and "revoked y = None"
  shows "\<exists>s. find (\<lambda>x. token_hash x = h) xs = Some s \<and> \<not> P s"
  using assms(2)
proof (induction xs)
  case (Cons x xs)
  show ?case
  proof (cases "token_hash x = h")
    case True
    with Cons.prems assms(1) have "y = (if P x then f x else x)" by (simp split: if_splits)
    with assms(1,3) have "\<not> P x" by (cases "P x") simp_all
    with True show ?thesis by simp
  next
    case False
    with assms(1) have "token_hash (if P x then f x else x) \<noteq> h" by simp
    with Cons.prems have "find (\<lambda>x. token_hash x = h) (map (\<lambda>s. if P s then f s else s) xs) = Some y"
      by (simp only: list.map find.simps if_False)
    with Cons.IH False show ?thesis by simp
  qed
qed simp

text \<open>A revoked session is never accepted again.\<close>

lemma revoke_final:
  assumes "run_state (mgr_validate E token) w = (Inr s, w1)"
    and "run_state (store_revoke E (session_id s)) w1 = (Inr (), w2)" and "rows_of v = rows_of w2"
  shows "\<forall>x. fst (run_state (mgr_validate E' token) v) \<noteq> Inr x"
proof (intro allI notI)
  fix x assume "fst (run_state (mgr_validate E' token) v) = Inr x"
  then obtain v' where val: "run_state (mgr_validate E' token) v = (Inr x, v')"
    by (metis prod.collapse)
  have findx: "find (\<lambda>x. token_hash x = Sum256 token) (rows_of v) = Some x" and "revoked x = None"
    using validate_find [OF val] by simp_all
  have finds: "find (\<lambda>x. token_hash x = Sum256 token) (rows_of w) = Some s"
    using validate_find(1) [OF assms(1)] .
  have "rows_of w1 = rows_of w" using validate_sound [OF assms(1)] by simp
  with revoke_rows [OF assms(2)] obtain f t where
    rows: "rows_of v = map (\<lambda>x. if session_id x = session_id s then f x else x) (rows_of w)"
    and f: "\<forall>s. token_hash (f s) = token_hash s \<and> revoked (f s) = Some t"
    by (elim exE conjE) (rule that, simp_all add: assms(3))
  show False
    using find_revoked [OF f findx [unfolded rows] \<open>revoked x = None\<close>] finds by auto
qed

lemma revoke_all_final:
  assumes "run_state (store_revoke_all E u) w = (Inr (), w')" and "rows_of v = rows_of w'"
    and "run_state (mgr_validate E' token) v = (Inr s, v')"
  shows "owner s \<noteq> u"
proof
  assume "owner s = u"
  from revoke_all_rows [OF assms(1)] obtain f t where
    rows: "rows_of v = map (\<lambda>s. if owner s = u \<and> revoked s = None then f s else s) (rows_of w)"
    and f: "\<forall>s. token_hash (f s) = token_hash s \<and> owner (f s) = owner s \<and> revoked (f s) = Some t"
    by (elim exE conjE) (rule that, simp_all add: assms(2))
  have "s \<in> set (rows_of v)" and live: "revoked s = None"
    using validate_sound [OF assms(3)] by simp_all
  then obtain x where "s = (if owner x = u \<and> revoked x = None then f x else x)"
    unfolding rows set_map by blast
  moreover have "revoked (f x) \<noteq> None" using f by simp
  ultimately show False using \<open>owner s = u\<close> live by (simp split: if_splits)
qed

text \<open>The clean-up removes the sessions that would be refused from now on, and only those.\<close>

lemma delete_inactive_exact:
  assumes "run_state (store_delete_inactive E) w = (Inr n, w')"
  shows "set (rows_of w') = {s \<in> set (rows_of w). revoked s = None \<and> clock E (ticks w) \<le> expires s}"
  using delete_rows [OF assms] by auto

lemma delete_inactive_validate:
  assumes "run_state (store_delete_inactive E) w = (Inr n, w')" and "distinct (map token_hash (rows_of w))"
    and "clock E (ticks w) \<le> clock E (ticks v)" and "rows_of v = rows_of w"
    and "rows_of v' = rows_of w'" and "ticks v' = ticks v"
    and "db_fault E (db_calls v) = NoFault" and "db_fault E (db_calls v') = NoFault"
  shows "fst (run_state (mgr_validate E token) v) = Inr s \<longleftrightarrow> fst (run_state (mgr_validate E token) v') = Inr s"
proof -
  let ?h = "\<lambda>x. token_hash x = Sum256 token"
  let ?live = "\<lambda>s. \<not> (expires s < clock E (ticks w) \<or> revoked s \<noteq> None)"
  have rows': "rows_of v' = filter ?live (rows_of w)"
    using delete_rows [OF assms(1)] assms(5) by simp
  have dist: "distinct (map token_hash (rows_of v'))"
    using assms(2) by (simp add: rows' distinct_map_filter)
  have find_iff: "find ?h xs = Some s \<longleftrightarrow> s \<in> set xs \<and> ?h s" if d: "distinct (map token_hash xs)" for xs
  proof
    show "find ?h xs = Some s \<Longrightarrow> s \<in> set xs \<and> ?h s" by (rule find_SomeD)
    assume s: "s \<in> set xs \<and> ?h s"
    then have "y = s" if "y \<in> set xs" "?h y" for y
      using distinct_map_eqD [OF d, of y s] that by simp
    with s find_unique [of s xs ?h] show "find ?h xs = Some s" by blast
  qed
  have res: "fst (run_state (mgr_validate E token) u) = Inr s \<longleftrightarrow>
      find ?h (rows_of u) = Some s \<and> revoked s = None \<and> \<not> expires s < clock E (ticks u)"
    if "db_fault E (db_calls u) = NoFault" for u
    unfolding validate_result [OF that] by (auto split: option.splits)
  show ?thesis
    unfolding res [OF assms(7)] res [OF assms(8)] find_iff [OF dist]
      find_iff [OF assms(2) [folded assms(4)]]
    using assms(3,4,6) by (auto simp: rows')
qed

end
section \<open>Both kinds of sessions satisfy the contracts\<close>

lemma Sessions_columns [simp]:
  "sch_set_id (m_schema Sessions) i s = s\<lparr>Session_ID := i\<rparr>"
  "sch_clash (m_schema Sessions) s t \<longleftrightarrow> Session_TokenHash s = Session_TokenHash t"
  "m_created Sessions now s = s\<lparr>Session_CreatedAt := stamp now (Session_CreatedAt s), Session_UpdatedAt := stamp now (Session_UpdatedAt s)\<rparr>"
  "m_updated Sessions now s = s\<lparr>Session_UpdatedAt := now\<rparr>"
  by (simp_all add: model_defs schema_defs)

lemma Sessions_rows_simps [simp]:
  "rows Sessions (w\<lparr>ticks := k\<rparr>) = rows Sessions w" "rows Sessions (w\<lparr>entropy_reads := k\<rparr>) = rows Sessions w"
  "rows Sessions (counted a b w) = rows Sessions w"
  by (simp_all add: rows_def)

lemma run_gormSessionRepo_GetByTokenHash [run_simps]:
  "run_state (gormSessionRepo_GetByTokenHash E h) w = (lookup E Sessions (\<lambda>s. Session_TokenHash s = h) w, counted 0 1 w)"
  unfolding gormSessionRepo_GetByTokenHash_def by (rule Sessions.run_First_not_found)

interpretation Sessions_store: session_store "rows Sessions" Session_TokenHash Session_UserID Session_ID Session_ExpiresAt Session_RevokedAt
  gormSessionRepo_Create gormSessionRepo_GetByTokenHash gormSessionRepo_Revoke gormSessionRepo_RevokeAllForUser gormSessionRepo_DeleteInactive
proof (unfold_locales, goal_cases)
  case (3 E s w s' w')
  then show ?case
    unfolding gormSessionRepo_Create_def by (elim Sessions.CreateE) auto
next
  case (4 E h w res w')
  then have "res = lookup E Sessions (\<lambda>s. Session_TokenHash s = h) w" and "w' = counted 0 1 w"
    by (simp_all add: run_gormSessionRepo_GetByTokenHash)
  then show ?case
    by (intro conjI allI impI) (simp_all add: lookup_def split: if_splits option.splits)
next
  case (5 E i w w')
  then obtain n where u: "run_state (Update E Sessions (\<lambda>s. Session_ID s = i)
      (Session_RevokedAt_update (\<lambda>_. Some (clock E (ticks w))))) (counted 1 0 w) = (Inr n, w')"
    by (auto simp: gormSessionRepo_Revoke_def run_Now_counted must_affect_def split: prod.splits sum.splits if_splits)
  let ?f = "\<lambda>s. s\<lparr>Session_RevokedAt := Some (clock E (ticks w)), Session_UpdatedAt := clock E (ticks w + 1)\<rparr>"
  from u have "rows Sessions w' = map (\<lambda>s. if Session_ID s = i then ?f s else s) (rows Sessions w)"
    by (elim Sessions.UpdateE) (simp add: Sessions.rows_update del: model_table_simps)
  then show ?case
    by (intro exI [of _ ?f] exI [of _ "clock E (ticks w)"]) simp
next
  case (6 E u w w')
  then obtain n where u: "run_state (Update E Sessions (\<lambda>s. Session_UserID s = u \<and> Session_RevokedAt s = None)
      (Session_RevokedAt_update (\<lambda>_. Some (clock E (ticks w))))) (counted 1 0 w) = (Inr n, w')"
    by (auto simp: gormSessionRepo_RevokeAllForUser_def run_Now_counted split: prod.splits sum.splits)
  let ?f = "\<lambda>s. s\<lparr>Session_RevokedAt := Some (clock E (ticks w)), Session_UpdatedAt := clock E (ticks w + 1)\<rparr>"
  from u have "rows Sessions w' = map (\<lambda>s. if Session_UserID s = u \<and> Session_RevokedAt s = None then ?f s else s) (rows Sessions w)"
    by (elim Sessions.UpdateE) (simp add: Sessions.rows_update del: model_table_simps)
  then show ?case
    by (intro exI [of _ ?f] exI [of _ "clock E (ticks w)"]) simp
next
  case (7 E w n w')
  then show ?case
    unfolding gormSessionRepo_DeleteInactive_def
    by (elim run_bindE) (auto simp: run_Now_counted dest!: Sessions.DeleteD)
qed simp_all

interpretation Manager_sessions: session_manager "rows Sessions" Session_TokenHash Session_UserID Session_ID Session_ExpiresAt Session_RevokedAt
  gormSessionRepo_Create gormSessionRepo_GetByTokenHash gormSessionRepo_Revoke gormSessionRepo_RevokeAllForUser gormSessionRepo_DeleteInactive Manager_Create Manager_Validate
  "\<lambda>h i t. \<lparr>Session_ID = 0, Session_TokenHash = h, Session_UserID = i, Session_ExpiresAt = t, Session_RevokedAt = None,
     Session_CreatedAt = zero_time, Session_UpdatedAt = zero_time\<rparr>"
  by unfold_locales (simp_all add: Manager_Create_def Manager_Validate_def)

lemma OperatorSessions_columns [simp]:
  "sch_set_id (m_schema OperatorSessions) i s = s\<lparr>OpSession_ID := i\<rparr>"
  "sch_clash (m_schema OperatorSessions) s t \<longleftrightarrow> OpSession_TokenHash s = OpSession_TokenHash t"
  "m_created OperatorSessions now s = s\<lparr>OpSession_CreatedAt := stamp now (OpSession_CreatedAt s), OpSession_UpdatedAt := stamp now (OpSession_UpdatedAt s)\<rparr>"
  "m_updated OperatorSessions now s = s\<lparr>OpSession_UpdatedAt := now\<rparr>"
  by (simp_all add: model_defs schema_defs)

lemma OperatorSessions_rows_simps [simp]:
  "rows OperatorSessions (w\<lparr>ticks := k\<rparr>) = rows OperatorSessions w" "rows OperatorSessions (w\<lparr>entropy_reads := k\<rparr>) = rows OperatorSessions w"
  "rows OperatorSessions (counted a b w) = rows OperatorSessions w"
  by (simp_all add: rows_def)

lemma run_gormOperatorSessionRepo_GetByTokenHash [run_simps]:
  "run_state (gormOperatorSessionRepo_GetByTokenHash E h) w = (lookup E OperatorSessions (\<lambda>s. OpSession_TokenHash s = h) w, counted 0 1 w)"
  unfolding gormOperatorSessionRepo_GetByTokenHash_def by (rule OperatorSessions.run_First_not_found)

interpretation OperatorSessions_store: session_store "rows OperatorSessions" OpSession_TokenHash OpSession_OperatorID OpSession_ID OpSession_ExpiresAt OpSession_RevokedAt
  gormOperatorSessionRepo_Create gormOperatorSessionRepo_GetByTokenHash gormOperatorSessionRepo_Revoke gormOperatorSessionRepo_RevokeAllForOperator gormOperatorSessionRepo_DeleteInactive
proof (unfold_locales, goal_cases)
  case (3 E s w s' w')
  then show ?case
    unfolding gormOperatorSessionRepo_Create_def by (elim OperatorSessions.CreateE) auto
next
  case (4 E h w res w')
  then have "res = lookup E OperatorSessions (\<lambda>s. OpSession_TokenHash s = h) w" and "w' = counted 0 1 w"
    by (simp_all add: run_gormOperatorSessionRepo_GetByTokenHash)
  then show ?case
    by (intro conjI allI impI) (simp_all add: lookup_def split: if_splits option.splits)
next
  case (5 E i w w')
  then obtain n where u: "run_state (Update E OperatorSessions (\<lambda>s. OpSession_ID s = i)
      (OpSession_RevokedAt_update (\<lambda>_. Some (clock E (ticks w))))) (counted 1 0 w) = (Inr n, w')"
    by (auto simp: gormOperatorSessionRepo_Revoke_def run_Now_counted must_affect_def split: prod.splits sum.splits if_splits)
  let ?f = "\<lambda>s. s\<lparr>OpSession_RevokedAt := Some (clock E (ticks w)), OpSession_UpdatedAt := clock E (ticks w + 1)\<rparr>"
  from u have "rows OperatorSessions w' = map (\<lambda>s. if OpSession_ID s = i then ?f s else s) (rows OperatorSessions w)"
    by (elim OperatorSessions.UpdateE) (simp add: OperatorSessions.rows_update del: model_table_simps)
  then show ?case
    by (intro exI [of _ ?f] exI [of _ "clock E (ticks w)"]) simp
next
  case (6 E u w w')
  then obtain n where u: "run_state (Update E OperatorSessions (\<lambda>s. OpSession_OperatorID s = u \<and> OpSession_RevokedAt s = None)
      (OpSession_RevokedAt_update (\<lambda>_. Some (clock E (ticks w))))) (counted 1 0 w) = (Inr n, w')"
    by (auto simp: gormOperatorSessionRepo_RevokeAllForOperator_def run_Now_counted split: prod.splits sum.splits)
  let ?f = "\<lambda>s. s\<lparr>OpSession_RevokedAt := Some (clock E (ticks w)), OpSession_UpdatedAt := clock E (ticks w + 1)\<rparr>"
  from u have "rows OperatorSessions w' = map (\<lambda>s. if OpSession_OperatorID s = u \<and> OpSession_RevokedAt s = None then ?f s else s) (rows OperatorSessions w)"
    by (elim OperatorSessions.UpdateE) (simp add: OperatorSessions.rows_update del: model_table_simps)
  then show ?case
    by (intro exI [of _ ?f] exI [of _ "clock E (ticks w)"]) simp
next
  case (7 E w n w')
  then show ?case
    unfolding gormOperatorSessionRepo_DeleteInactive_def
    by (elim run_bindE) (auto simp: run_Now_counted dest!: OperatorSessions.DeleteD)
qed simp_all

interpretation OperatorManager_sessions: session_manager "rows OperatorSessions" OpSession_TokenHash OpSession_OperatorID OpSession_ID OpSession_ExpiresAt OpSession_RevokedAt
  gormOperatorSessionRepo_Create gormOperatorSessionRepo_GetByTokenHash gormOperatorSessionRepo_Revoke gormOperatorSessionRepo_RevokeAllForOperator gormOperatorSessionRepo_DeleteInactive OperatorManager_Create OperatorManager_Validate
  "\<lambda>h i t. \<lparr>OpSession_ID = 0, OpSession_TokenHash = h, OpSession_OperatorID = i, OpSession_ExpiresAt = t, OpSession_RevokedAt = None,
     OpSession_CreatedAt = zero_time, OpSession_UpdatedAt = zero_time\<rparr>"
  by unfold_locales (simp_all add: OperatorManager_Create_def OperatorManager_Validate_def)

section \<open>The operations keep the schema\<close>

lemma sound_Update_Sessions:
  assumes "\<And>s. Session_ID (g s) = Session_ID s" and "\<And>s. Session_TokenHash (g s) = Session_TokenHash s"
    and "\<And>s. Session_UserID (g s) = Session_UserID s"
  shows "sound E (Update E' Sessions P g)"
  by (intro soundI own_Sessions Sessions.Update_own world_ok_models)
     (use assms in \<open>auto simp: model_defs schema_defs elim: world_ok_models\<close>)

lemma sound_Update_OperatorSessions:
  assumes "\<And>s. OpSession_ID (g s) = OpSession_ID s" and "\<And>s. OpSession_TokenHash (g s) = OpSession_TokenHash s"
    and "\<And>s. OpSession_OperatorID (g s) = OpSession_OperatorID s"
  shows "sound E (Update E' OperatorSessions P g)"
  by (intro soundI own_OperatorSessions OperatorSessions.Update_own world_ok_models)
     (use assms in \<open>auto simp: model_defs schema_defs elim: world_ok_models\<close>)

lemma sound_session_repo [schema_intros]:
  "sound E (gormSessionRepo_Create E' s)" "sound E (gormSessionRepo_GetByTokenHash E' h)"
  "sound E (gormSessionRepo_Revoke E' i)" "sound E (gormSessionRepo_RevokeAllForUser E' i)"
  "sound E (gormSessionRepo_DeleteInactive E')"
  unfolding gormSessionRepo_Create_def gormSessionRepo_GetByTokenHash_def gormSessionRepo_Revoke_def
    gormSessionRepo_RevokeAllForUser_def gormSessionRepo_DeleteInactive_def
  by (intro schema_intros sound_Update_Sessions; simp)+

lemma sound_operator_session_repo [schema_intros]:
  "sound E (gormOperatorSessionRepo_Create E' p)" "sound E (gormOperatorSessionRepo_GetByTokenHash E' h)"
  "sound E (gormOperatorSessionRepo_Revoke E' i)" "sound E (gormOperatorSessionRepo_RevokeAllForOperator E' i)"
  "sound E (gormOperatorSessionRepo_DeleteInactive E')"
  unfolding gormOperatorSessionRepo_Create_def gormOperatorSessionRepo_GetByTokenHash_def
    gormOperatorSessionRepo_Revoke_def gormOperatorSessionRepo_RevokeAllForOperator_def
    gormOperatorSessionRepo_DeleteInactive_def
  by (intro schema_intros sound_Update_OperatorSessions; simp)+

lemma sound_managers [schema_intros]:
  "sound E (Manager_Create E' c i)" "sound E (Manager_Validate E' token)" "sound E (Manager_Revoke E' i)"
  "sound E (Manager_RevokeAllForUser E' i)" "sound E (Manager_DeleteInactive E')"
  "sound E (OperatorManager_Create E' c i)" "sound E (OperatorManager_Validate E' token)"
  "sound E (OperatorManager_Revoke E' i)" "sound E (OperatorManager_RevokeAllForOperator E' i)"
  "sound E (OperatorManager_DeleteInactive E')"
  unfolding Manager_Create_def Manager_Validate_def Manager_Revoke_def Manager_RevokeAllForUser_def
    Manager_DeleteInactive_def OperatorManager_Create_def OperatorManager_Validate_def
    OperatorManager_Revoke_def OperatorManager_RevokeAllForOperator_def OperatorManager_DeleteInactive_def
  by (intro schema_intros)+

section \<open>Properties\<close>

definition sample_user :: user where
  "sample_user = \<lparr>User_ID = 1, User_Subject = ''sub-1'', User_Email = ''a@b.c'',
     User_CreatedAt = 0, User_UpdatedAt = 0\<rparr>"

definition sample_operator :: operator where
  "sample_operator = \<lparr>Operator_ID = 1, Operator_Email = ''op@b.c'', Operator_PasswordHash = ''hash'',
     Operator_CreatedAt = 0, Operator_UpdatedAt = 0\<rparr>"

definition sample_world :: world where
  "sample_world = empty_world\<lparr>users := \<lparr>tbl_rows = [sample_user], tbl_next = 2\<rparr>,
     operators := \<lparr>tbl_rows = [sample_operator], tbl_next = 2\<rparr>\<rparr>"

definition sample_config :: session_config where
  "sample_config = \<lparr>CookieName = ''centrauth_session'', TTL = 24 * Hour, Secure = True\<rparr>"

lemmas sample_defs = sample_user_def sample_operator_def sample_world_def sample_config_def
  empty_world_def empty_table_def

lemma sample_Create:
  "fst (run_state (Manager_Create calm_env sample_config 1) sample_world) = Inr (RawURLEncode (replicate 32 (char_of (0::nat))))"
  "fst (run_state (OperatorManager_Create calm_env sample_config 1) sample_world) = Inr (RawURLEncode (replicate 32 (char_of (0::nat))))"
  by (simp_all add: Manager_Create_def OperatorManager_Create_def gormSessionRepo_Create_def
      gormOperatorSessionRepo_Create_def Create_def sql_def gorm_insert_def table_insert_def Let_def
      run_Now run_RandRead model_defs schema_defs has_row_def sample_defs del: b64_encode.simps)

text \<open>
  C17.  A session token the manager hands out is accepted, by a validation that reaches the database,
  exactly until the configured lifetime has passed, and stands for the user it was created for; after
  that the answer is that the session has expired.
\<close>

theorem session_token_roundtrip:
  assumes "run_state (Manager_Create E c userID) w = (Inr token, w')"
    and "sessions v = sessions w'" and "db_fault E (db_calls v) = NoFault"
  shows "\<exists>s. Session_UserID s = userID \<and> fst (run_state (Manager_Validate E token) v) =
    (if clock E (ticks v) \<le> clock E (ticks w) + TTL c then Inr s else Inl ErrSessionExpired)"
  using assms by (intro Manager_sessions.create_validate) (simp_all add: rows_def)

theorem session_token_roundtrip_witness:
  "\<exists>token w' s. run_state (Manager_Create calm_env sample_config 1) sample_world = (Inr token, w')
     \<and> Session_UserID s = 1 \<and> fst (run_state (Manager_Validate calm_env token) w') = Inr s"
proof -
  let ?t = "RawURLEncode (replicate 32 (char_of (0::nat)))"
  obtain w' where create: "run_state (Manager_Create calm_env sample_config 1) sample_world = (Inr ?t, w')"
    using sample_Create(1) by (metis prod.collapse)
  have "ticks w' = 2"
    using arg_cong [OF create, of snd]
    by (auto simp: Manager_Create_def gormSessionRepo_Create_def Create_def sql_def gorm_insert_def
        table_insert_def Let_def run_Now run_RandRead model_defs schema_defs has_row_def sample_defs
        simp del: b64_encode.simps)
  with session_token_roundtrip [OF create refl, of] create show ?thesis
    by (fastforce simp: sample_defs Hour_def Minute_def Second_def)
qed

text \<open>A state with one session of the operator, whose token is \<open>tok\<close>, and one of the user.\<close>

definition sample_operator_session :: operator_session where
  "sample_operator_session = \<lparr>OpSession_ID = 1, OpSession_TokenHash = Sum256 ''tok'', OpSession_OperatorID = 1,
     OpSession_ExpiresAt = 2000000000000000000, OpSession_RevokedAt = None, OpSession_CreatedAt = 0,
     OpSession_UpdatedAt = 0\<rparr>"

definition sample_session :: session where
  "sample_session = \<lparr>Session_ID = 1, Session_TokenHash = Sum256 ''tok'', Session_UserID = 1,
     Session_ExpiresAt = 2000000000000000000, Session_RevokedAt = None, Session_CreatedAt = 0,
     Session_UpdatedAt = 0\<rparr>"

definition signed_in_world :: world where
  "signed_in_world = sample_world
     \<lparr>sessions := \<lparr>tbl_rows = [sample_session], tbl_next = 2\<rparr>,
      operator_sessions := \<lparr>tbl_rows = [sample_operator_session], tbl_next = 2\<rparr>\<rparr>"

lemmas signed_in_defs = signed_in_world_def sample_operator_session_def sample_session_def sample_defs

lemma run_signed_in:
  "fst (run_state (Manager_Validate calm_env ''tok'') signed_in_world) = Inr sample_session"
  "sessions (snd (run_state (Manager_Validate calm_env ''tok'') signed_in_world)) = sessions signed_in_world"
  "fst (run_state (OperatorManager_Validate calm_env ''tok'') signed_in_world) = Inr sample_operator_session"
  "operator_sessions (snd (run_state (OperatorManager_Validate calm_env ''tok'') signed_in_world))
     = operator_sessions signed_in_world"
  by (simp_all add: Manager_Validate_def OperatorManager_Validate_def run_simps lookup_def rows_def signed_in_defs)

text \<open>
  Signing out is final: once the session a token stood for has been revoked, no validation of
  that token succeeds on a database with those session rows, whatever the clock shows.
\<close>

theorem operator_revocation_final:
  assumes "run_state (OperatorManager_Validate E token) w = (Inr s, w1)"
    and "run_state (OperatorManager_Revoke E (OpSession_ID s)) w1 = (Inr (), w2)"
    and "operator_sessions v = operator_sessions w2"
  shows "\<forall>x. fst (run_state (OperatorManager_Validate E' token) v) \<noteq> Inr x"
  using OperatorManager_sessions.revoke_final [OF assms(1), of w2 v E'] assms(2,3)
  by (simp add: OperatorManager_Revoke_def rows_def)

lemma operator_revocation_final_witness:
  "\<exists>w1 w2. run_state (OperatorManager_Validate calm_env ''tok'') signed_in_world = (Inr sample_operator_session, w1)
     \<and> run_state (OperatorManager_Revoke calm_env 1) w1 = (Inr (), w2)
     \<and> (\<forall>x. fst (run_state (OperatorManager_Validate calm_env ''tok'') w2) \<noteq> Inr x)"
proof -
  obtain w1 where 1: "run_state (OperatorManager_Validate calm_env ''tok'') signed_in_world = (Inr sample_operator_session, w1)"
    using run_signed_in(3) by (metis prod.collapse)
  have "operator_sessions w1 = operator_sessions signed_in_world"
    using run_signed_in(4) 1 by simp
  then have "fst (run_state (OperatorManager_Revoke calm_env 1) w1) = Inr ()"
    by (simp add: OperatorManager_Revoke_def gormOperatorSessionRepo_Revoke_def Update_def sql_def gorm_update_def
        affected_def must_affect_def Let_def run_Now signed_in_defs)
  then obtain w2 where "run_state (OperatorManager_Revoke calm_env 1) w1 = (Inr (), w2)"
    by (metis prod.collapse)
  with 1 operator_revocation_final [OF 1 _ refl, of w2 calm_env] show ?thesis
    by (simp add: sample_operator_session_def)
qed

text \<open>
  Signing out everywhere: once all sessions of a user have been revoked, a token that is still
  accepted on those session rows belongs to somebody else.
\<close>

theorem revoke_all_for_user_final:
  assumes "run_state (Manager_RevokeAllForUser E userID) w = (Inr (), w')"
    and "sessions v = sessions w'"
    and "run_state (Manager_Validate E' token) v = (Inr s, v')"
  shows "Session_UserID s \<noteq> userID"
  using Manager_sessions.revoke_all_final [of E userID w w' v E' token s v'] assms
  by (simp add: Manager_RevokeAllForUser_def rows_def)

lemma revoke_all_for_user_final_witness:
  "\<exists>w'. run_state (Manager_RevokeAllForUser calm_env 7) signed_in_world = (Inr (), w')
     \<and> fst (run_state (Manager_Validate calm_env ''tok'') (signed_in_world\<lparr>sessions := sessions w'\<rparr>)) = Inr sample_session
     \<and> Session_UserID sample_session \<noteq> 7"
proof -
  have run: "fst (run_state (Manager_RevokeAllForUser calm_env 7) signed_in_world) = Inr ()"
    "sessions (snd (run_state (Manager_RevokeAllForUser calm_env 7) signed_in_world)) = sessions signed_in_world"
    by (simp_all add: Manager_RevokeAllForUser_def gormSessionRepo_RevokeAllForUser_def Update_def sql_def
        gorm_update_def table_update_def affected_def Let_def run_Now signed_in_defs)
  then obtain w' where w': "run_state (Manager_RevokeAllForUser calm_env 7) signed_in_world = (Inr (), w')"
    by (metis prod.collapse)
  with run have same: "sessions w' = sessions signed_in_world" by simp
  obtain v' where val: "run_state (Manager_Validate calm_env ''tok'') signed_in_world = (Inr sample_session, v')"
    using run_signed_in(1) by (metis prod.collapse)
  show ?thesis
    using w' val revoke_all_for_user_final [OF w' same [symmetric] val] by (simp add: same)
qed

text \<open>
  C18.  The hourly clean-up is invisible: on a database that keeps its constraints, a validation after
  the clean-up gives the same verdict on every token as one at the same time without the clean-up.
\<close>

theorem cleanup_keeps_verdicts:
  assumes "world_ok E w" and "run_state (Manager_DeleteInactive E) w = (Inr n, w')"
    and "clock E (ticks w) \<le> clock E (ticks v)" and "sessions v = sessions w"
    and "sessions v' = sessions w'" and "ticks v' = ticks v"
    and "db_fault E (db_calls v) = NoFault" and "db_fault E (db_calls v') = NoFault"
  shows "fst (run_state (Manager_Validate E token) v) = Inr s \<longleftrightarrow>
         fst (run_state (Manager_Validate E token) v') = Inr s"
proof (rule Manager_sessions.delete_inactive_validate)
  show "run_state (gormSessionRepo_DeleteInactive E) w = (Inr n, w')"
    using assms(2) by (simp add: Manager_DeleteInactive_def)
  have "table_ok (m_schema Sessions) (m_table Sessions w)"
    using world_ok_models(2) [OF assms(1)] by (simp add: model_ok_def)
  then have "sorted_wrt (\<lambda>r s. Session_TokenHash r \<noteq> Session_TokenHash s) (rows Sessions w)"
    by (auto simp: table_ok_def rows_def elim: sorted_wrt_mono_rel [rotated])
  then show "distinct (map Session_TokenHash (rows Sessions w))"
    by (rule differing_keys_distinct)
qed (use assms in \<open>simp_all add: rows_def\<close>)


lemma signed_in_world_ok: "world_ok calm_env signed_in_world"
  by (simp add: world_ok_def model_ok_def table_ok_def rows_def model_defs schema_defs has_row_def signed_in_defs)

lemma cleanup_keeps_verdicts_witness:
  "\<exists>n w'. run_state (Manager_DeleteInactive calm_env) signed_in_world = (Inr n, w')
     \<and> fst (run_state (Manager_Validate calm_env ''tok'') (w'\<lparr>ticks := 5\<rparr>)) = Inr sample_session"
proof -
  have "fst (run_state (Manager_DeleteInactive calm_env) signed_in_world) = Inr 0"
    by (simp add: Manager_DeleteInactive_def gormSessionRepo_DeleteInactive_def Delete_def sql_def
        affected_def Let_def run_Now signed_in_defs)
  then obtain w' where w': "run_state (Manager_DeleteInactive calm_env) signed_in_world = (Inr 0, w')"
    by (metis prod.collapse)
  have "fst (run_state (Manager_Validate calm_env ''tok'') (signed_in_world\<lparr>ticks := 5\<rparr>)) = Inr sample_session"
    by (simp add: Manager_Validate_def run_simps lookup_def rows_def signed_in_defs)
  with w' cleanup_keeps_verdicts [OF signed_in_world_ok w', of "signed_in_world\<lparr>ticks := 5\<rparr>" "w'\<lparr>ticks := 5\<rparr>" "''tok''"]
  show ?thesis by (simp add: signed_in_defs)
qed

end
