(* ===== verification/Repositories.thy ===== *)
theory Repositories
  imports Gorm "HOL-Library.List_Lexorder" "HOL-Library.Word"
begin

text \<open>
  The repositories other than those of sessions (internal/repository): users, operators,
  applications, clients, identity providers, user identities and authorization codes.
\<close>

section \<open>Users, clients, applications\<close>

definition gormUserRepo_GetByEmail :: "env \<Rightarrow> string \<Rightarrow> (world, goerr + user) state" where
  "gormUserRepo_GetByEmail E email = do {
     r \<leftarrow> First E (Users E) (\<lambda>u. citext E (User_Email u) = citext E email);
     ret (not_found r)
   }"

definition gormUserRepo_GetByID :: "env \<Rightarrow> int \<Rightarrow> (world, goerr + user) state" where
  "gormUserRepo_GetByID E i = do {
     r \<leftarrow> First E (Users E) (\<lambda>u. User_ID u = i);
     ret (not_found r)
   }"

definition gormUserRepo_Create :: "env \<Rightarrow> user \<Rightarrow> (world, goerr + user) state" where
  "gormUserRepo_Create E u = Create E (Users E) u"

definition gormClientRepo_GetByID :: "env \<Rightarrow> int \<Rightarrow> (world, goerr + oauth_client) state" where
  "gormClientRepo_GetByID E i = do {
     r \<leftarrow> First E OAuthClients (\<lambda>c. Client_ID c = i);
     ret (not_found r)
   }"

definition gormClientRepo_GetByClientID :: "env \<Rightarrow> string \<Rightarrow> (world, goerr + oauth_client) state" where
  "gormClientRepo_GetByClientID E clientID = do {
     r \<leftarrow> First E OAuthClients (\<lambda>c. Client_ClientID c = clientID);
     ret (not_found r)
   }"

definition gormClientRepo_Create :: "env \<Rightarrow> oauth_client \<Rightarrow> (world, goerr + oauth_client) state" where
  "gormClientRepo_Create E c = Create E OAuthClients c"

definition gormClientRepo_Update :: "env \<Rightarrow> oauth_client \<Rightarrow> (world, goerr + oauth_client) state" where
  "gormClientRepo_Update E c = do {
     rows \<leftarrow> Updates E OAuthClients (Client_ID c) c;
     ret (case rows of Inl e \<Rightarrow> Inl e | Inr n \<Rightarrow> if n = 0 then Inl ErrNotFound else Inr c)
   }"

definition gormClientRepo_List :: "env \<Rightarrow> (world, goerr + oauth_client list) state" where
  "gormClientRepo_List E = Find E OAuthClients (\<lambda>_. True)"

definition gormClientRepo_ListByEnvironment :: "env \<Rightarrow> string \<Rightarrow> (world, goerr + oauth_client list) state" where
  "gormClientRepo_ListByEnvironment E environment =
     Find E OAuthClients (\<lambda>c. Client_Environment c = environment)"

definition gormClientRepo_ListByApplicationID :: "env \<Rightarrow> int \<Rightarrow> (world, goerr + oauth_client list) state" where
  "gormClientRepo_ListByApplicationID E applicationID =
     Find E OAuthClients (\<lambda>c. Client_ApplicationID c = applicationID)"

definition gormApplicationRepo_Create :: "env \<Rightarrow> application \<Rightarrow> (world, goerr + application) state" where
  "gormApplicationRepo_Create E a = Create E Applications a"

text \<open>On success the caller's two structures hold the stored rows.\<close>

definition gormApplicationRepo_CreateWithClient ::
    "env \<Rightarrow> application \<Rightarrow> oauth_client \<Rightarrow> (world, goerr + application \<times> oauth_client) state" where
  "gormApplicationRepo_CreateWithClient E a c = Transaction E (do {
     r \<leftarrow> Create E Applications a;
     case r of
       Inl e \<Rightarrow> ret (Inl e)
     | Inr a' \<Rightarrow> do {
         r \<leftarrow> Create E OAuthClients (c\<lparr>Client_ApplicationID := App_ID a'\<rparr>);
         ret (case r of Inl e \<Rightarrow> Inl e | Inr c' \<Rightarrow> Inr (a', c'))
       }
   })"

definition gormApplicationRepo_GetByID :: "env \<Rightarrow> int \<Rightarrow> (world, goerr + application) state" where
  "gormApplicationRepo_GetByID E i = do {
     r \<leftarrow> First E Applications (\<lambda>a. App_ID a = i);
     ret (not_found r)
   }"

definition gormApplicationRepo_List :: "env \<Rightarrow> (world, goerr + application list) state" where
  "gormApplicationRepo_List E = Find E Applications (\<lambda>_. True)"

definition gormApplicationRepo_Update :: "env \<Rightarrow> application \<Rightarrow> (world, goerr + application) state" where
  "gormApplicationRepo_Update E a = do {
     rows \<leftarrow> Updates E Applications (App_ID a) a;
     ret (case rows of Inl e \<Rightarrow> Inl e | Inr n \<Rightarrow> if n = 0 then Inl ErrNotFound else Inr a)
   }"

definition gormApplicationRepo_GetWithClients ::
    "env \<Rightarrow> int \<Rightarrow> (world, goerr + application \<times> oauth_client list) state" where
  "gormApplicationRepo_GetWithClients E i = do {
     r \<leftarrow> gormApplicationRepo_GetByID E i;
     case r of
       Inl e \<Rightarrow> ret (Inl e)
     | Inr a \<Rightarrow> do {
         cs \<leftarrow> Find E OAuthClients (\<lambda>c. Client_ApplicationID c = i);
         ret (case cs of Inl e \<Rightarrow> Inl e | Inr cs \<Rightarrow> Inr (a, cs))
       }
   }"

section \<open>Operators\<close>

text \<open>\<open>hash/fnv\<close>'s \<open>New64a\<close>, and the signed reading of its sum.\<close>

definition fnv64a :: "string \<Rightarrow> 64 word" where
  "fnv64a s = fold (\<lambda>c h. (xor h (of_nat (of_char c))) * 1099511628211) s 14695981039346656037"

definition setupSeatKey :: string where
  "setupSeatKey = ''centrauth:setup_seat''"

text \<open>
  \<open>SELECT pg\_advisory\_xact\_lock(key)\<close>: here transactions run one at a time, so the lock is granted.
\<close>

definition advisory_xact_lock :: "env \<Rightarrow> int \<Rightarrow> (world, goerr + unit) state" where
  "advisory_xact_lock E key = sql E (\<lambda>w. (Inr (), w))"

definition gormOperatorRepo_GetByEmail :: "env \<Rightarrow> string \<Rightarrow> (world, goerr + operator) state" where
  "gormOperatorRepo_GetByEmail E email = do {
     r \<leftarrow> First E (Operators E) (\<lambda>p. citext E (Operator_Email p) = citext E email);
     ret (not_found r)
   }"

definition gormOperatorRepo_GetByID :: "env \<Rightarrow> int \<Rightarrow> (world, goerr + operator) state" where
  "gormOperatorRepo_GetByID E i = do {
     r \<leftarrow> First E (Operators E) (\<lambda>p. Operator_ID p = i);
     ret (not_found r)
   }"

definition gormOperatorRepo_Count :: "env \<Rightarrow> (world, goerr + nat) state" where
  "gormOperatorRepo_Count E = Count E (Operators E)"

definition gormOperatorRepo_CreateFirstOperator :: "env \<Rightarrow> operator \<Rightarrow> (world, goerr + operator) state" where
  "gormOperatorRepo_CreateFirstOperator E p = Transaction E (do {
     locked \<leftarrow> advisory_xact_lock E (sint (fnv64a setupSeatKey));
     case locked of
       Inl e \<Rightarrow> ret (Inl e)
     | Inr _ \<Rightarrow> do {
         count \<leftarrow> Count E (Operators E);
         case count of
           Inl e \<Rightarrow> ret (Inl e)
         | Inr n \<Rightarrow> if n > 0 then ret (Inl ErrSeatTaken) else Create E (Operators E) p
       }
   })"

section \<open>Identity providers and user identities\<close>

definition gormIdentityProviderRepo_ListByApplicationID ::
    "env \<Rightarrow> int \<Rightarrow> (world, goerr + identity_provider list) state" where
  "gormIdentityProviderRepo_ListByApplicationID E applicationID =
     sql E (\<lambda>w. (Inr (sort_key IdP_Provider
                      (filter (\<lambda>p. IdP_ApplicationID p = applicationID) (rows IdentityProviders w))), w))"

definition gormIdentityProviderRepo_GetByApplicationAndProvider ::
    "env \<Rightarrow> int \<Rightarrow> string \<Rightarrow> (world, goerr + identity_provider) state" where
  "gormIdentityProviderRepo_GetByApplicationAndProvider E applicationID provider = do {
     r \<leftarrow> First E IdentityProviders (\<lambda>p. IdP_ApplicationID p = applicationID \<and> IdP_Provider p = provider);
     ret (not_found r)
   }"

text \<open>
  INSERT with ON CONFLICT (application\_id, provider) DO UPDATE of four columns: a conflict consumes an
  identity value and keeps the row's identifier.
\<close>

definition idp_upsert :: "identity_provider \<Rightarrow> world \<Rightarrow> (goerr + identity_provider) \<times> world" where
  "idp_upsert r w =
     (let t = identity_providers w;
          same = (\<lambda>p. IdP_ApplicationID p = IdP_ApplicationID r \<and> IdP_Provider p = IdP_Provider r)
      in if \<not> sch_check identity_providers_schema r then (Inl (ErrDB CheckViolation), w\<lparr>identity_providers := t\<lparr>tbl_next := tbl_next t + 1\<rparr>\<rparr>)
         else case find same (tbl_rows t) of
           None \<Rightarrow> gorm_insert IdentityProviders r w
         | Some p \<Rightarrow>
             (Inr (r\<lparr>IdP_ID := IdP_ID p\<rparr>),
              w\<lparr>identity_providers := (table_update same
                  (\<lambda>q. q\<lparr>IdP_ClientID := IdP_ClientID r, IdP_ClientSecretEncrypted := IdP_ClientSecretEncrypted r,
                         IdP_Enabled := IdP_Enabled r, IdP_UpdatedAt := IdP_UpdatedAt r\<rparr>) t)
                    \<lparr>tbl_next := tbl_next t + 1\<rparr>\<rparr>))"

definition gormIdentityProviderRepo_Upsert ::
    "env \<Rightarrow> identity_provider \<Rightarrow> (world, goerr + identity_provider) state" where
  "gormIdentityProviderRepo_Upsert E p = do {
     now \<leftarrow> Now E;
     sql E (idp_upsert (m_created IdentityProviders now p))
   }"

definition gormIdentityProviderRepo_SetEnabled :: "env \<Rightarrow> int \<Rightarrow> string \<Rightarrow> bool \<Rightarrow> (world, goerr + unit) state" where
  "gormIdentityProviderRepo_SetEnabled E applicationID provider enabled = do {
     rows \<leftarrow> Update E IdentityProviders (\<lambda>p. IdP_ApplicationID p = applicationID \<and> IdP_Provider p = provider)
               (IdP_Enabled_update (\<lambda>_. enabled));
     ret (must_affect rows)
   }"

definition gormIdentityProviderRepo_Delete :: "env \<Rightarrow> int \<Rightarrow> string \<Rightarrow> (world, goerr + unit) state" where
  "gormIdentityProviderRepo_Delete E applicationID provider = do {
     rows \<leftarrow> Delete E IdentityProviders (\<lambda>p. IdP_ApplicationID p = applicationID \<and> IdP_Provider p = provider);
     ret (must_affect rows)
   }"

definition gormUserIdentityRepo_GetByProviderSubject ::
    "env \<Rightarrow> string \<Rightarrow> string \<Rightarrow> (world, goerr + user_identity) state" where
  "gormUserIdentityRepo_GetByProviderSubject E provider subject = do {
     r \<leftarrow> First E UserIdentities (\<lambda>i. Ident_Provider i = provider \<and> Ident_ProviderSubject i = subject);
     ret (not_found r)
   }"

definition gormUserIdentityRepo_ListByUserID :: "env \<Rightarrow> int \<Rightarrow> (world, goerr + user_identity list) state" where
  "gormUserIdentityRepo_ListByUserID E userID = Find E UserIdentities (\<lambda>i. Ident_UserID i = userID)"

definition gormUserIdentityRepo_Create :: "env \<Rightarrow> user_identity \<Rightarrow> (world, goerr + user_identity) state" where
  "gormUserIdentityRepo_Create E i = Create E UserIdentities i"

text \<open>On success the caller's two structures hold the stored rows.\<close>

definition gormUserIdentityRepo_CreateWithUser ::
    "env \<Rightarrow> user \<Rightarrow> user_identity \<Rightarrow> (world, goerr + user \<times> user_identity) state" where
  "gormUserIdentityRepo_CreateWithUser E u i = Transaction E (do {
     r \<leftarrow> Create E (Users E) u;
     case r of
       Inl e \<Rightarrow> ret (Inl e)
     | Inr u' \<Rightarrow> do {
         r \<leftarrow> Create E UserIdentities (i\<lparr>Ident_UserID := User_ID u'\<rparr>);
         ret (case r of Inl e \<Rightarrow> Inl e | Inr i' \<Rightarrow> Inr (u', i'))
       }
   })"

section \<open>Authorization codes\<close>

definition gormCodeRepo_Create :: "env \<Rightarrow> authorization_code \<Rightarrow> (world, goerr + authorization_code) state" where
  "gormCodeRepo_Create E c = Create E Codes c"

definition gormCodeRepo_GetByCodeHash :: "env \<Rightarrow> string \<Rightarrow> (world, goerr + authorization_code) state" where
  "gormCodeRepo_GetByCodeHash E codeHash = do {
     r \<leftarrow> First E Codes (\<lambda>c. Code_CodeHash c = codeHash);
     ret (not_found r)
   }"

definition gormCodeRepo_Consume :: "env \<Rightarrow> int \<Rightarrow> (world, goerr + unit) state" where
  "gormCodeRepo_Consume E i = do {
     t1 \<leftarrow> Now E;
     t2 \<leftarrow> Now E;
     rows \<leftarrow> Update E Codes (\<lambda>c. Code_ID c = i \<and> Code_ConsumedAt c = None \<and> t1 < Code_ExpiresAt c)
               (Code_ConsumedAt_update (\<lambda>_. Some t2));
     ret (must_affect rows)
   }"

definition IsConsumed :: "authorization_code \<Rightarrow> bool" where
  "IsConsumed c \<longleftrightarrow> Code_ConsumedAt c \<noteq> None"

section \<open>How a lookup runs\<close>

lemma run_lookups [run_simps]:
  "run_state (gormUserRepo_GetByEmail E email) w =
     (lookup E (Users E) (\<lambda>u. citext E (User_Email u) = citext E email) w, counted 0 1 w)"
  "run_state (gormUserRepo_GetByID E i) w = (lookup E (Users E) (\<lambda>u. User_ID u = i) w, counted 0 1 w)"
  "run_state (gormClientRepo_GetByID E i) w = (lookup E OAuthClients (\<lambda>c. Client_ID c = i) w, counted 0 1 w)"
  "run_state (gormClientRepo_GetByClientID E cid) w =
     (lookup E OAuthClients (\<lambda>c. Client_ClientID c = cid) w, counted 0 1 w)"
  "run_state (gormApplicationRepo_GetByID E i) w = (lookup E Applications (\<lambda>a. App_ID a = i) w, counted 0 1 w)"
  "run_state (gormOperatorRepo_GetByEmail E email) w =
     (lookup E (Operators E) (\<lambda>p. citext E (Operator_Email p) = citext E email) w, counted 0 1 w)"
  "run_state (gormOperatorRepo_GetByID E i) w = (lookup E (Operators E) (\<lambda>p. Operator_ID p = i) w, counted 0 1 w)"
  "run_state (gormIdentityProviderRepo_GetByApplicationAndProvider E aid pr) w =
     (lookup E IdentityProviders (\<lambda>p. IdP_ApplicationID p = aid \<and> IdP_Provider p = pr) w, counted 0 1 w)"
  "run_state (gormUserIdentityRepo_GetByProviderSubject E pr sub) w =
     (lookup E UserIdentities (\<lambda>i. Ident_Provider i = pr \<and> Ident_ProviderSubject i = sub) w, counted 0 1 w)"
  "run_state (gormCodeRepo_GetByCodeHash E h) w = (lookup E Codes (\<lambda>c. Code_CodeHash c = h) w, counted 0 1 w)"
  unfolding gormUserRepo_GetByEmail_def gormUserRepo_GetByID_def gormClientRepo_GetByID_def
    gormClientRepo_GetByClientID_def gormApplicationRepo_GetByID_def gormOperatorRepo_GetByEmail_def
    gormOperatorRepo_GetByID_def gormIdentityProviderRepo_GetByApplicationAndProvider_def
    gormUserIdentityRepo_GetByProviderSubject_def gormCodeRepo_GetByCodeHash_def
  by (rule Users.run_First_not_found OAuthClients.run_First_not_found Applications.run_First_not_found
      Operators.run_First_not_found IdentityProviders.run_First_not_found UserIdentities.run_First_not_found
      Codes.run_First_not_found)+

section \<open>Transactions keep the schema\<close>

lemma table_ok_restore: "table_ok S t0 \<Longrightarrow> tbl_next t0 \<le> tbl_next t \<Longrightarrow> table_ok S (restore t0 t)"
  by (auto simp: table_ok_def restore_def)

lemma restore_rows [simp]: "tbl_rows (restore t0 t) = tbl_rows t0" "tbl_next (restore t0 t) = tbl_next t"
  by (simp_all add: restore_def)

lemma has_row_restore [simp]: "has_row i (restore t0 t) k = has_row i t0 k"
  by (simp add: has_row_def)

lemma rollback_simps [simp]:
  "users (rollback w0 w) = restore (users w0) (users w)"
  "sessions (rollback w0 w) = restore (sessions w0) (sessions w)"
  "operators (rollback w0 w) = restore (operators w0) (operators w)"
  "operator_sessions (rollback w0 w) = restore (operator_sessions w0) (operator_sessions w)"
  "applications (rollback w0 w) = restore (applications w0) (applications w)"
  "identity_providers (rollback w0 w) = restore (identity_providers w0) (identity_providers w)"
  "user_identities (rollback w0 w) = restore (user_identities w0) (user_identities w)"
  "oauth_clients (rollback w0 w) = restore (oauth_clients w0) (oauth_clients w)"
  "codes (rollback w0 w) = restore (codes w0) (codes w)" "ticks (rollback w0 w) = ticks w"
  by (simp_all add: rollback_def)

lemma rollback_advances:
  assumes "world_ok E w0" and "nexts_grow w0 w"
  shows "advances E w0 (rollback w0 w)"
proof -
  have grow: "ids_grow w0 (rollback w0 w)"
    by (simp add: ids_grow_def)
  have "model_ok (Users E) (rollback w0 w)" "model_ok Sessions (rollback w0 w)" "model_ok (Operators E) (rollback w0 w)"
    "model_ok OperatorSessions (rollback w0 w)" "model_ok Applications (rollback w0 w)"
    "model_ok IdentityProviders (rollback w0 w)" "model_ok UserIdentities (rollback w0 w)"
    "model_ok OAuthClients (rollback w0 w)" "model_ok Codes (rollback w0 w)"
    using assms world_ok_models [OF assms(1)]
      Users.refs_grow [OF grow] Sessions.refs_grow [OF grow] Operators.refs_grow [OF grow]
      OperatorSessions.refs_grow [OF grow] Applications.refs_grow [OF grow] IdentityProviders.refs_grow [OF grow]
      UserIdentities.refs_grow [OF grow] OAuthClients.refs_grow [OF grow] Codes.refs_grow [OF grow]
    by (simp_all add: model_ok_def nexts_grow_def table_ok_restore rows_def)
  then show ?thesis
    using grow assms(2) by (simp add: advances_def world_ok_def nexts_grow_def)
qed

lemma sound_Transaction [schema_intros]:
  assumes "sound E body"
  shows "sound E (Transaction E' body)"
proof (rule soundI)
  fix w0 assume w0: "world_ok E w0"
  let ?w = "w0\<lparr>db_calls := Suc (db_calls w0)\<rparr>"
  have step: "advances E w0 ?w" by (rule world_ok_same [OF w0]) simp_all
  then have w1: "world_ok E ?w" by (simp add: advances_def)
  obtain r v where body: "run_state body ?w = (r, v)" by fastforce
  have adv: "advances E ?w v" by (rule soundD [OF assms w1 body])
  have v: "advances E w0 v" by (rule advances_trans [OF step adv])
  have "advances E w0 v'" if "codes v' = codes v" "users v' = users v" "sessions v' = sessions v"
    "operators v' = operators v" "operator_sessions v' = operator_sessions v" "applications v' = applications v"
    "identity_providers v' = identity_providers v" "user_identities v' = user_identities v"
    "oauth_clients v' = oauth_clients v" "ticks v' = ticks v" for v'
    using advances_trans [OF v world_ok_same, of v'] v that by (simp add: advances_def)
  then have commit: "advances E w0 (v\<lparr>db_calls := k\<rparr>)" for k by simp
  have "nexts_grow ?w (v\<lparr>db_calls := k\<rparr>)" for k
    using adv by (simp add: advances_def nexts_grow_def)
  from rollback_advances [OF w1 this] have undo': "advances E w0 (rollback ?w (v\<lparr>db_calls := k\<rparr>))" for k
    using advances_trans [OF step] by blast
  have undo: "advances E w0 (rollback ?w v)"
    using rollback_advances [OF w1, of v] adv advances_trans [OF step] by (simp add: advances_def)
  show "advances E w0 (snd (run_state (Transaction E' body) w0))"
  proof (cases "db_fault E' (db_calls w0)")
    case NoFault
    show ?thesis
    proof (cases r)
      case (Inl e)
      with NoFault body undo show ?thesis by (simp add: Transaction_def sql_def Let_def)
    next
      case (Inr a)
      with NoFault body commit undo' show ?thesis
        by (cases "db_fault E' (db_calls v)") (simp_all add: Transaction_def sql_def Let_def)
    qed
  qed (use step in \<open>simp_all add: Transaction_def sql_def Let_def\<close>)
qed

section \<open>Replacing a row keeps the schema\<close>

context db_model
begin

lemma table_replace_ok:
  assumes ok: "table_ok (m_schema M) t" and "sch_id (m_schema M) r' = i" and "sch_check (m_schema M) r'"
    and free: "\<And>s. s \<in> set (tbl_rows t) \<Longrightarrow> sch_id (m_schema M) s \<noteq> i \<Longrightarrow> \<not> sch_clash (m_schema M) s r'"
  shows "table_ok (m_schema M) (table_update (\<lambda>s. sch_id (m_schema M) s = i) (\<lambda>_. r') t)"
proof -
  let ?g = "\<lambda>s. if sch_id (m_schema M) s = i then r' else s"
  have id: "sch_id (m_schema M) (?g s) = sch_id (m_schema M) s" for s
    using assms(2) by simp
  have "sorted_wrt (\<lambda>x y. sch_id (m_schema M) (?g x) < sch_id (m_schema M) (?g y) \<and> \<not> sch_clash (m_schema M) (?g x) (?g y)) (tbl_rows t)"
  proof (rule sorted_wrt_mono_rel)
    show "sorted_wrt (\<lambda>x y. sch_id (m_schema M) x < sch_id (m_schema M) y \<and> \<not> sch_clash (m_schema M) x y) (tbl_rows t)"
      using ok by (simp add: table_ok_def)
    fix x y assume xy: "x \<in> set (tbl_rows t)" "y \<in> set (tbl_rows t)"
      "sch_id (m_schema M) x < sch_id (m_schema M) y \<and> \<not> sch_clash (m_schema M) x y"
    then have "\<not> sch_clash (m_schema M) (?g x) (?g y)"
      using free [of x] free [of y] clash_sym by auto
    with xy(3) show "sch_id (m_schema M) (?g x) < sch_id (m_schema M) (?g y) \<and> \<not> sch_clash (m_schema M) (?g x) (?g y)"
      unfolding id by simp
  qed
  then have "sorted_wrt (\<lambda>x y. sch_id (m_schema M) x < sch_id (m_schema M) y \<and> \<not> sch_clash (m_schema M) x y) (map ?g (tbl_rows t))"
    by (simp only: sorted_wrt_map)
  moreover have "\<forall>s \<in> set (tbl_rows t). sch_id (m_schema M) (?g s) < tbl_next t \<and> sch_check (m_schema M) (?g s)"
    unfolding id using ok assms(3) by (simp add: table_ok_def)
  ultimately show ?thesis
    unfolding table_ok_def tbl_rows_update tbl_next_update by (simp only: set_map ball_simps image_iff)
qed

lemma own_updates:
  assumes ok: "model_ok M w"
  shows "own_step M w (snd (gorm_updates M i r (counted a b w)))"
proof -
  let ?P = "\<lambda>s. sch_id (m_schema M) s = i"
  let ?r = "sch_set_id (m_schema M) i r"
  let ?t = "table_update ?P (\<lambda>_. ?r) (m_table M w)"
  have grow: "ids_grow w (m_put M ?t w)"
  proof (rule put_grow)
    fix k assume "has_row (sch_id (m_schema M)) (m_table M w) k"
    then obtain s where s: "s \<in> set (tbl_rows (m_table M w))" "sch_id (m_schema M) s = k"
      by (auto simp: has_row_iff)
    then have "(if ?P s then ?r else s) \<in> set (tbl_rows ?t)"
      unfolding tbl_rows_update set_map by (intro image_eqI [OF refl])
    moreover have "sch_id (m_schema M) (if ?P s then ?r else s) = k"
      using s(2) set_id_id by simp
    ultimately obtain q where "q \<in> set (tbl_rows ?t)" "sch_id (m_schema M) q = k"
      by (rule that)
    then show "has_row (sch_id (m_schema M)) ?t k"
      unfolding has_row_iff by blast
  qed
  have "own_step M w (counted a b (m_put M ?t w))"
    if check: "sch_check (m_schema M) ?r" and refs: "sch_refs (m_schema M) (counted a b w) ?r"
      and free: "\<not> list_ex (\<lambda>s. \<not> ?P s \<and> sch_clash (m_schema M) s ?r) (rows M w)"
  proof -
    have "table_ok (m_schema M) ?t"
      using ok check free
      by (intro table_replace_ok) (auto simp: model_ok_def set_id_id rows_def list_ex_iff)
    moreover have "sch_refs (m_schema M) w q" if "q \<in> set (tbl_rows ?t)" for q
    proof -
      have "sch_refs (m_schema M) w ?r"
        using refs refs_grow [of "counted a b w" w] by (simp add: ids_grow_def)
      moreover have "q = ?r \<or> q \<in> set (rows M w)"
        using that unfolding tbl_rows_update rows_def by auto
      ultimately show ?thesis using ok by (auto simp: model_ok_def)
    qed
    ultimately have "model_ok M (m_put M ?t w)"
      by (intro model_okI) (auto simp: get_put rows_put intro: refs_grow [OF grow])
    moreover have "ids_grow w (counted a b (m_put M ?t w))"
      using grow by (simp add: ids_grow_def)
    moreover have "touches M w (counted a b (m_put M ?t w))"
      by (auto simp: touches_def)
    ultimately show ?thesis
      by (simp add: own_step_def model_ok_counted get_counted get_put tbl_next_update)
  qed
  then show ?thesis
    using ok by (simp add: gorm_updates_def gorm_update_def Let_def get_counted put_counted rows_counted)
qed

lemma Updates_own: "model_ok M w \<Longrightarrow> own_step M w (snd (run_state (Updates E M i r) w))"
  using own_sql [of w "gorm_updates M i (m_updated M (clock E (ticks w)) r)" E 1 0]
  by (simp add: Updates_def run_Now_counted own_updates)

end

lemma sound_Updates [schema_intros]:
  "sound E (Updates E' OAuthClients i c)" "sound E (Updates E' Applications i a)"
proof (rule_tac [!] soundI)
  fix w assume w: "world_ok E w"
  show "advances E w (snd (run_state (Updates E' OAuthClients i c) w))"
    by (intro own_OAuthClients [OF w] OAuthClients.Updates_own world_ok_models [OF w])
  show "advances E w (snd (run_state (Updates E' Applications i a) w))"
    by (intro own_Applications [OF w] Applications.Updates_own world_ok_models [OF w])
qed

section \<open>Every repository operation keeps the schema\<close>

lemma sound_Update_Codes:
  assumes "\<And>s. Code_ID (g s) = Code_ID s" and "\<And>s. Code_CodeHash (g s) = Code_CodeHash s"
    and "\<And>s. Code_UserID (g s) = Code_UserID s" and "\<And>s. Code_OAuthClientID (g s) = Code_OAuthClientID s"
    and "\<And>s. Code_CodeChallengeMethod (g s) = Code_CodeChallengeMethod s"
  shows "sound E (Update E' Codes P g)"
  by (intro soundI own_Codes Codes.Update_own world_ok_models)
     (use assms in \<open>auto simp: model_defs schema_defs elim: world_ok_models\<close>)

lemma sound_Update_IdentityProviders:
  assumes "\<And>s. IdP_ID (g s) = IdP_ID s" and "\<And>s. IdP_ApplicationID (g s) = IdP_ApplicationID s"
    and "\<And>s. IdP_Provider (g s) = IdP_Provider s"
  shows "sound E (Update E' IdentityProviders P g)"
  by (intro soundI own_IdentityProviders IdentityProviders.Update_own world_ok_models)
     (use assms in \<open>auto simp: model_defs schema_defs elim: world_ok_models\<close>)

lemma sound_sql:
  assumes "\<And>w. world_ok E w \<Longrightarrow> advances E w (snd (f w))"
  shows "sound E (sql E' f)"
proof (rule soundI)
  fix w assume w: "world_ok E w"
  let ?w = "w\<lparr>db_calls := Suc (db_calls w)\<rparr>"
  have step: "advances E w ?w" by (rule world_ok_same [OF w]) simp_all
  then have "world_ok E ?w" by (simp add: advances_def)
  then have "advances E w (snd (f ?w))"
    using advances_trans [OF step assms] by blast
  with step show "advances E w (snd (run_state (sql E' f) w))"
    by (simp add: sql_def Let_def split: fault.split)
qed

lemma idp_next_advances:
  assumes "world_ok E w"
  shows "advances E w (w\<lparr>identity_providers := (identity_providers w)\<lparr>tbl_next := tbl_next (identity_providers w) + 1\<rparr>\<rparr>)"
proof -
  let ?t = "(identity_providers w)\<lparr>tbl_next := tbl_next (identity_providers w) + 1\<rparr>"
  have "own_step IdentityProviders w (counted 0 0 (m_put IdentityProviders ?t w))"
  proof (rule IdentityProviders.own_counted)
    have "sch_id identity_providers_schema r < k \<Longrightarrow> sch_id identity_providers_schema r < k + 1" for r k
      by simp
    then show "model_ok IdentityProviders (counted 0 0 (m_put IdentityProviders ?t w))"
      using world_ok_models(6) [OF assms]
      by (auto simp: model_ok_def table_ok_def rows_def model_defs identity_providers_schema_def)
  qed (use world_ok_models(6) [OF assms] in \<open>auto simp: ids_grow_def touches_def intro!: exI [of _ 0]\<close>)
  then show ?thesis using own_IdentityProviders [OF assms] by fastforce
qed

lemma idp_upsert_advances:
  assumes w: "world_ok E w"
  shows "advances E w (snd (idp_upsert r w))"
proof -
  let ?t = "identity_providers w"
  let ?same = "\<lambda>p. IdP_ApplicationID p = IdP_ApplicationID r \<and> IdP_Provider p = IdP_Provider r"
  let ?g = "\<lambda>q. q\<lparr>IdP_ClientID := IdP_ClientID r, IdP_ClientSecretEncrypted := IdP_ClientSecretEncrypted r,
                  IdP_Enabled := IdP_Enabled r, IdP_UpdatedAt := IdP_UpdatedAt r\<rparr>"
  have ins: "advances E w (snd (gorm_insert IdentityProviders r w))"
    using own_IdentityProviders [OF w IdentityProviders.own_insert [OF world_ok_models(6) [OF w], of r 0 0]] by simp
  have "own_step IdentityProviders w (snd (gorm_update IdentityProviders ?same ?g (counted 0 0 w)))"
    by (intro IdentityProviders.own_update world_ok_models [OF w]) (auto simp: model_defs schema_defs)
  then have upd: "advances E w (w\<lparr>identity_providers := table_update ?same ?g ?t\<rparr>)"
    using own_IdentityProviders [OF w] by (simp add: gorm_update_def)
  then have "advances E w (w\<lparr>identity_providers := (table_update ?same ?g ?t)\<lparr>tbl_next := tbl_next ?t + 1\<rparr>\<rparr>)"
    using advances_trans [OF upd idp_next_advances [of E "w\<lparr>identity_providers := table_update ?same ?g ?t\<rparr>"]]
    by (simp add: advances_def tbl_next_update)
  with ins idp_next_advances [OF w] show ?thesis
    by (simp add: idp_upsert_def Let_def split: option.split)
qed

lemma sound_repositories [schema_intros]:
  "sound E (gormUserRepo_GetByEmail E' email)" "sound E (gormUserRepo_GetByID E' i)"
  "sound E (gormUserRepo_Create E u)"
  "sound E (gormClientRepo_GetByID E' i)" "sound E (gormClientRepo_GetByClientID E' cid)"
  "sound E (gormClientRepo_Create E' c)" "sound E (gormClientRepo_Update E' c)" "sound E (gormClientRepo_List E')"
  "sound E (gormClientRepo_ListByEnvironment E' en)" "sound E (gormClientRepo_ListByApplicationID E' i)"
  "sound E (gormApplicationRepo_Create E' a)" "sound E (gormApplicationRepo_CreateWithClient E' a c)"
  "sound E (gormApplicationRepo_GetByID E' i)" "sound E (gormApplicationRepo_List E')"
  "sound E (gormApplicationRepo_Update E' a)" "sound E (gormApplicationRepo_GetWithClients E' i)"
  "sound E (gormOperatorRepo_GetByEmail E' email)" "sound E (gormOperatorRepo_GetByID E' i)"
  "sound E (gormOperatorRepo_Count E')" "sound E (gormOperatorRepo_CreateFirstOperator E p)"
  "sound E (gormIdentityProviderRepo_ListByApplicationID E' i)"
  "sound E (gormIdentityProviderRepo_GetByApplicationAndProvider E' i pr)"
  "sound E (gormIdentityProviderRepo_Upsert E' idp)" "sound E (gormIdentityProviderRepo_SetEnabled E' i pr b)"
  "sound E (gormIdentityProviderRepo_Delete E' i pr)"
  "sound E (gormUserIdentityRepo_GetByProviderSubject E' pr sub)" "sound E (gormUserIdentityRepo_ListByUserID E' i)"
  "sound E (gormUserIdentityRepo_Create E' ident)" "sound E (gormUserIdentityRepo_CreateWithUser E u ident)"
  "sound E (gormCodeRepo_Create E' code)" "sound E (gormCodeRepo_GetByCodeHash E' h)" "sound E (gormCodeRepo_Consume E' i)"
  unfolding gormUserRepo_GetByEmail_def gormUserRepo_GetByID_def gormUserRepo_Create_def gormClientRepo_GetByID_def
    gormClientRepo_GetByClientID_def gormClientRepo_Create_def gormClientRepo_Update_def gormClientRepo_List_def
    gormClientRepo_ListByEnvironment_def gormClientRepo_ListByApplicationID_def gormApplicationRepo_Create_def
    gormApplicationRepo_CreateWithClient_def gormApplicationRepo_GetByID_def gormApplicationRepo_List_def
    gormApplicationRepo_Update_def gormApplicationRepo_GetWithClients_def gormOperatorRepo_GetByEmail_def
    gormOperatorRepo_GetByID_def gormOperatorRepo_Count_def gormOperatorRepo_CreateFirstOperator_def
    gormIdentityProviderRepo_ListByApplicationID_def gormIdentityProviderRepo_GetByApplicationAndProvider_def
    gormIdentityProviderRepo_Upsert_def gormIdentityProviderRepo_SetEnabled_def gormIdentityProviderRepo_Delete_def
    gormUserIdentityRepo_GetByProviderSubject_def gormUserIdentityRepo_ListByUserID_def gormUserIdentityRepo_Create_def
    gormUserIdentityRepo_CreateWithUser_def gormCodeRepo_Create_def gormCodeRepo_GetByCodeHash_def
    gormCodeRepo_Consume_def advisory_xact_lock_def
  by (intro schema_intros sound_Update_Codes sound_Update_IdentityProviders sound_read
      sound_sql [OF idp_upsert_advances]; simp)+

section \<open>An authorization code is consumed once and stays consumed\<close>

text \<open>The columns of a code that no statement of the program changes.\<close>

definition same_grant :: "authorization_code \<Rightarrow> authorization_code \<Rightarrow> bool" where
  "same_grant c d \<longleftrightarrow> Code_ID c = Code_ID d \<and> Code_CodeHash c = Code_CodeHash d
     \<and> Code_OAuthClientID c = Code_OAuthClientID d \<and> Code_UserID c = Code_UserID d
     \<and> Code_RedirectURI c = Code_RedirectURI d \<and> Code_Scope c = Code_Scope d \<and> Code_Nonce c = Code_Nonce d
     \<and> Code_CodeChallenge c = Code_CodeChallenge d \<and> Code_CodeChallengeMethod c = Code_CodeChallengeMethod d
     \<and> Code_ExpiresAt c = Code_ExpiresAt d \<and> Code_CreatedAt c = Code_CreatedAt d"

definition codes_evolve :: "world \<Rightarrow> world \<Rightarrow> bool" where
  "codes_evolve w w' \<longleftrightarrow> (\<forall>c \<in> set (rows Codes w). \<exists>d \<in> set (rows Codes w').
     same_grant c d \<and> (Code_ConsumedAt c \<noteq> None \<longrightarrow> Code_ConsumedAt d = Code_ConsumedAt c))"

lemma same_grant_refl [simp]: "same_grant c c"
  by (simp add: same_grant_def)

lemma codes_evolveI:
  assumes "rows Codes w' = map f (rows Codes w)"
    and "\<And>c. c \<in> set (rows Codes w) \<Longrightarrow> same_grant c (f c)"
    and "\<And>c. c \<in> set (rows Codes w) \<Longrightarrow> Code_ConsumedAt c \<noteq> None \<Longrightarrow> Code_ConsumedAt (f c) = Code_ConsumedAt c"
  shows "codes_evolve w w'"
  unfolding codes_evolve_def assms(1) set_map using assms(2,3) by blast

lemma codes_evolve_same_rows: "rows Codes w' = rows Codes w \<Longrightarrow> codes_evolve w w'"
  by (rule codes_evolveI [of _ id]) simp_all

lemma codes_evolve_refl [simp]: "codes_evolve w w"
  by (rule codes_evolve_same_rows) simp

lemma codes_evolve_trans: "codes_evolve u v \<Longrightarrow> codes_evolve v w \<Longrightarrow> codes_evolve u w"
  unfolding codes_evolve_def same_grant_def by (metis (no_types, lifting))

lemma codes_evolve_same: "codes w' = codes w \<Longrightarrow> codes_evolve w w'"
  by (rule codes_evolve_same_rows) (simp add: rows_def)

lemma Codes_rows_simps [simp]:
  "rows Codes (counted a b w) = rows Codes w" "rows Codes (w\<lparr>ticks := k\<rparr>) = rows Codes w"
  "rows Codes (w\<lparr>entropy_reads := k\<rparr>) = rows Codes w"
  by (simp_all add: rows_def)

definition consume_row :: "instant \<Rightarrow> instant \<Rightarrow> authorization_code \<Rightarrow> authorization_code" where
  "consume_row t u c = c\<lparr>Code_ConsumedAt := Some t, Code_UpdatedAt := u\<rparr>"

definition consumable :: "int \<Rightarrow> instant \<Rightarrow> authorization_code \<Rightarrow> bool" where
  "consumable i t c \<longleftrightarrow> Code_ID c = i \<and> Code_ConsumedAt c = None \<and> t < Code_ExpiresAt c"

text \<open>All a call of Consume can do, whatever it answers.\<close>

lemma ConsumeE:
  assumes "run_state (gormCodeRepo_Consume E i) w = (res, w')"
  obtains "rows Codes w' = rows Codes w" and "\<exists>e. res = Inl e"
  | "rows Codes w' = map (\<lambda>c. if consumable i (clock E (ticks w)) c
        then consume_row (clock E (ticks w + 1)) (clock E (ticks w + 2)) c else c) (rows Codes w)"
    and "res = Inr () \<Longrightarrow> list_ex (consumable i (clock E (ticks w))) (rows Codes w)"
proof -
  let ?P = "\<lambda>c. Code_ID c = i \<and> Code_ConsumedAt c = None \<and> clock E (ticks w) < Code_ExpiresAt c"
  let ?g = "Code_ConsumedAt_update (\<lambda>_. Some (clock E (Suc (ticks w))))"
  have P: "?P = consumable i (clock E (ticks w))"
    by (simp add: fun_eq_iff consumable_def)
  obtain r where upd: "run_state (Update E Codes ?P ?g) (counted 2 0 w) = (r, w')" and res: "res = must_affect r"
    using assms by (auto simp: gormCodeRepo_Consume_def run_Now_counted numeral_2_eq_2 split: prod.splits)
  from upd show thesis
  proof (cases rule: Codes.UpdateE')
    case 1
    with that(1) res show ?thesis by (simp add: must_affect_def)
  next
    case 2
    have "rows Codes w' = map (\<lambda>c. if consumable i (clock E (ticks w)) c
        then consume_row (clock E (ticks w + 1)) (clock E (ticks w + 2)) c else c) (rows Codes w)"
      using 2 by (simp add: Codes.rows_update P del: model_table_simps)
        (simp add: model_defs consume_row_def)
    moreover have "list_ex (consumable i (clock E (ticks w))) (rows Codes w)" if "res = Inr ()"
    proof -
      from that res obtain n where r: "r = Inr n" "n \<noteq> 0"
        by (auto simp: must_affect_def split: sum.splits if_splits)
      have "n = affected ?P (m_table Codes (counted 2 0 w))"
        using upd [unfolded r(1)] by (rule Codes.UpdateE)
      with r(2) show ?thesis
        by (auto simp: P affected_def rows_def list_ex_iff filter_empty_conv)
    qed
    ultimately show ?thesis by (rule that(2))
  qed
qed

lemma Consume_evolves:
  assumes "run_state (gormCodeRepo_Consume E i) w = (res, w')"
  shows "codes_evolve w w'"
  using assms
proof (cases rule: ConsumeE)
  case 1
  then show ?thesis by (intro codes_evolve_same_rows)
next
  case 2
  show ?thesis
    by (rule codes_evolveI [OF 2(1)]) (auto simp: consumable_def consume_row_def same_grant_def)
qed

text \<open>After a Consume that succeeded the code is consumed; before it was not.\<close>

lemma Consume_success:
  assumes "run_state (gormCodeRepo_Consume E i) w = (Inr (), w')" and "world_ok E0 w"
    and "c \<in> set (rows Codes w)" and "Code_ID c = i"
  shows "Code_ConsumedAt c = None" and "clock E (ticks w) < Code_ExpiresAt c"
    and "\<exists>d \<in> set (rows Codes w'). same_grant c d \<and> Code_ConsumedAt d = Some (clock E (ticks w + 1))"
proof -
  have unique: "d = c" if "d \<in> set (rows Codes w)" "Code_ID d = i" for d
    using Codes.table_ok_unique_id [of "codes w" d c] world_ok_models(9) [OF assms(2)] assms(3,4) that
    by (auto simp: model_ok_def rows_def) (simp add: model_defs schema_defs)
  have mapped: "rows Codes w' = map (\<lambda>c. if consumable i (clock E (ticks w)) c
        then consume_row (clock E (ticks w + 1)) (clock E (ticks w + 2)) c else c) (rows Codes w)"
    and ex: "list_ex (consumable i (clock E (ticks w))) (rows Codes w)"
    using assms(1) by (cases rule: ConsumeE; simp)+
  from ex unique have c: "consumable i (clock E (ticks w)) c"
    by (auto simp: list_ex_iff consumable_def)
  then show "Code_ConsumedAt c = None" and "clock E (ticks w) < Code_ExpiresAt c"
    by (simp_all add: consumable_def)
  show "\<exists>d \<in> set (rows Codes w'). same_grant c d \<and> Code_ConsumedAt d = Some (clock E (ticks w + 1))"
    unfolding mapped set_map using assms(3) c
    by (intro bexI [of _ "consume_row (clock E (ticks w + 1)) (clock E (ticks w + 2)) c"] image_eqI [of _ _ c])
       (simp_all add: consume_row_def same_grant_def)
qed

end
