(* ===== verification/Oauth.thy ===== *)
theory Oauth
  imports Models Go_Url Sha256
begin

text \<open>
  The protocol rules that need no database (internal/oauth): the authorization request and its
  validation, clients' secrets, redirect URIs and scopes, codes and PKCE.
\<close>

section \<open>Authorization requests (authorize.go)\<close>

record authorize_request =
  Req_ClientID :: string
  Req_RedirectURI :: string
  Req_ResponseType :: string
  Req_State :: string
  Req_Scope :: string
  Req_Nonce :: string
  Req_CodeChallenge :: string
  Req_CodeChallengeMethod :: string

definition ParseAuthorizeRequest :: "url_values \<Rightarrow> authorize_request" where
  "ParseAuthorizeRequest query =
     \<lparr>Req_ClientID = Get query ''client_id'',
      Req_RedirectURI = Get query ''redirect_uri'',
      Req_ResponseType = Get query ''response_type'',
      Req_State = Get query ''state'',
      Req_Scope = Get query ''scope'',
      Req_Nonce = Get query ''nonce'',
      Req_CodeChallenge = Get query ''code_challenge'',
      Req_CodeChallengeMethod = Get query ''code_challenge_method''\<rparr>"

definition Scopes :: "authorize_request \<Rightarrow> string list" where
  "Scopes r = Fields (Req_Scope r)"

definition HasScope :: "authorize_request \<Rightarrow> string \<Rightarrow> bool" where
  "HasScope r scope = list_ex (\<lambda>s. s = scope) (Scopes r)"

record authorize_error =
  Err_Code :: string
  Err_Description :: string

definition Validate :: "authorize_request \<Rightarrow> authorize_error option" where
  "Validate r =
     (if Req_ResponseType r \<noteq> ''code'' then
        Some \<lparr>Err_Code = ''unsupported_response_type'',
              Err_Description = ''only the authorization code flow is supported''\<rparr>
      else if Req_CodeChallenge r = '''' then
        Some \<lparr>Err_Code = ''invalid_request'', Err_Description = ''code_challenge is required (PKCE)''\<rparr>
      else if Req_CodeChallengeMethod r \<noteq> ''S256'' then
        Some \<lparr>Err_Code = ''invalid_request'', Err_Description = ''code_challenge_method must be S256''\<rparr>
      else if length (Req_CodeChallenge r) < 43 \<or> length (Req_CodeChallenge r) > 128 then
        Some \<lparr>Err_Code = ''invalid_request'', Err_Description = ''code_challenge has an invalid length''\<rparr>
      else if HasScope r ''openid'' \<and> Req_Nonce r = '''' then
        Some \<lparr>Err_Code = ''invalid_request'', Err_Description = ''nonce is required for OpenID Connect requests''\<rparr>
      else if Req_State r = '''' then
        Some \<lparr>Err_Code = ''invalid_request'', Err_Description = ''state is required''\<rparr>
      else None)"

section \<open>Clients and scopes (client.go)\<close>

definition SupportedScopes :: "string list" where
  "SupportedScopes = [''openid'', ''profile'', ''email'']"

definition IsConfidential :: "oauth_client \<Rightarrow> bool" where
  "IsConfidential c \<longleftrightarrow> Client_ClientType c = ''confidential''"

definition IsSupportedScope :: "string \<Rightarrow> bool" where
  "IsSupportedScope scope \<longleftrightarrow> scope \<in> set SupportedScopes"

text \<open>
  \<open>subtle.ConstantTimeCompare\<close>: 1 exactly when lengths and contents agree; the differences of all
  bytes are accumulated.
\<close>

definition ConstantTimeCompare :: "string \<Rightarrow> string \<Rightarrow> int" where
  "ConstantTimeCompare x y =
     (if length x \<noteq> length y then 0
      else if fold (\<lambda>(a, b) v. v \<or> a \<noteq> b) (zip x y) False then 0 else 1)"

definition ValidateClientSecret :: "oauth_client \<Rightarrow> string \<Rightarrow> bool" where
  "ValidateClientSecret c submittedSecret =
     (if length (Client_ClientSecretHash c) = 0 \<or> submittedSecret = '''' then False
      else ConstantTimeCompare (Sum256 submittedSecret) (Client_ClientSecretHash c) = 1)"

definition IsRedirectURIAllowed :: "oauth_client \<Rightarrow> string \<Rightarrow> bool" where
  "IsRedirectURIAllowed c uri \<longleftrightarrow> uri \<in> set (Client_RedirectURIs c)"

definition IsScopeAllowed :: "application \<Rightarrow> string \<Rightarrow> bool" where
  "IsScopeAllowed app scope \<longleftrightarrow> scope \<in> set (App_AllowedScopes app)"

definition ValidateRequestedScopes :: "application \<Rightarrow> string \<Rightarrow> bool" where
  "ValidateRequestedScopes app scopeParam = list_all (IsScopeAllowed app) (Fields scopeParam)"

section \<open>Codes and tokens (code.go)\<close>

definition AuthorizationCodeTTL :: duration where
  "AuthorizationCodeTTL = 60 * Second"

definition GenerateAuthorizationCode :: "env \<Rightarrow> (world, goerr + string) state" where
  "GenerateAuthorizationCode E = do {
     b \<leftarrow> RandRead E 32;
     ret (case b of Inl e \<Rightarrow> Inl e | Inr b \<Rightarrow> Inr (RawURLEncode b))
   }"

definition GenerateAccessToken :: "env \<Rightarrow> (world, goerr + string) state" where
  "GenerateAccessToken E = do {
     b \<leftarrow> RandRead E 32;
     ret (case b of Inl e \<Rightarrow> Inl e | Inr b \<Rightarrow> Inr (RawURLEncode b))
   }"

definition HashAuthorizationCode :: "string \<Rightarrow> string" where
  "HashAuthorizationCode code = Sum256 code"

section \<open>PKCE (pkce.go)\<close>

definition VerifyPKCE :: "string \<Rightarrow> string \<Rightarrow> string \<Rightarrow> bool" where
  "VerifyPKCE challenge verifier method =
     (if method \<noteq> ''S256'' \<or> challenge = '''' then False
      else if length verifier < 43 \<or> length verifier > 128 then False
      else ConstantTimeCompare (RawURLEncode (Sum256 verifier)) challenge = 1)"

definition PKCEChallenge :: "string \<Rightarrow> string" where
  "PKCEChallenge verifier = RawURLEncode (Sum256 verifier)"

section \<open>Facts\<close>

lemma fold_or: "fold (\<lambda>(a, b) v. v \<or> a \<noteq> b) ps v \<longleftrightarrow> v \<or> (\<exists>(a, b) \<in> set ps. a \<noteq> b)"
  by (induction ps arbitrary: v) auto

lemma ConstantTimeCompare_iff: "ConstantTimeCompare x y = 1 \<longleftrightarrow> x = y"
proof -
  have "(\<forall>(a, b) \<in> set (zip x y). a = b) \<longleftrightarrow> x = y" if "length x = length y"
    using that by (induction x y rule: list_induct2) auto
  then show ?thesis
    by (auto simp: ConstantTimeCompare_def fold_or)
qed

lemma HasScope_iff: "HasScope r scope \<longleftrightarrow> scope \<in> set (Scopes r)"
  by (auto simp: HasScope_def list_ex_iff)

lemma run_Generate [run_simps]:
  "run_state (GenerateAuthorizationCode E) w =
     (case entropy E (entropy_reads w) 32 of None \<Rightarrow> Inl ErrRand | Some b \<Rightarrow> Inr (RawURLEncode b),
      w\<lparr>entropy_reads := Suc (entropy_reads w)\<rparr>)"
  "run_state (GenerateAccessToken E) w =
     (case entropy E (entropy_reads w) 32 of None \<Rightarrow> Inl ErrRand | Some b \<Rightarrow> Inr (RawURLEncode b),
      w\<lparr>entropy_reads := Suc (entropy_reads w)\<rparr>)"
  by (simp_all add: GenerateAuthorizationCode_def GenerateAccessToken_def run_RandRead split: option.split)

lemma VerifyPKCE_iff:
  "VerifyPKCE challenge verifier method \<longleftrightarrow>
     method = ''S256'' \<and> 43 \<le> length verifier \<and> length verifier \<le> 128 \<and> challenge = PKCEChallenge verifier"
proof -
  have "length (RawURLEncode (Sum256 verifier)) = 43"
    by (rule b64_encode_32) simp
  then have "RawURLEncode (Sum256 verifier) \<noteq> []" by auto
  then show ?thesis
    unfolding VerifyPKCE_def PKCEChallenge_def by (auto simp: ConstantTimeCompare_iff dest: sym)
qed

lemma b64_digit_unreserved: "unreserved (b64_digit URLEncoding n)"
proof (cases "n < 64")
  case True
  have "list_all (\<lambda>n. unreserved (b64_digit URLEncoding n)) [0..<64]"
    by code_simp
  with True show ?thesis by (simp add: list_all_iff)
qed (simp add: b64_digit_def URLEncoding_def unreserved_def)

lemma b64_encode_unreserved: "c \<in> set (RawURLEncode s) \<Longrightarrow> unreserved c"
  by (induction "URLEncoding" s rule: b64_encode.induct) (auto simp: Let_def b64_digit_unreserved)

lemma ValidateClientSecret_iff:
  "ValidateClientSecret c secret \<longleftrightarrow> secret \<noteq> [] \<and> Client_ClientSecretHash c = Sum256 secret"
  using Sum256_not_Nil [of secret, THEN not_sym] by (auto simp: ValidateClientSecret_def ConstantTimeCompare_iff)

section \<open>Properties\<close>

text \<open>
  C19.  PKCE: a verifier is accepted for a challenge exactly when the method is S256, the verifier
  has between 43 and 128 bytes and the challenge is the URL-safe base64 encoding, without padding,
  of the verifier's SHA-256 hash.
\<close>

theorem VerifyPKCE_exact:
  "VerifyPKCE challenge verifier method =
     (method = ''S256'' \<and> 43 \<le> length verifier \<and> length verifier \<le> 128
      \<and> challenge = RawURLEncode (Sum256 verifier))"
  by (simp add: VerifyPKCE_iff PKCEChallenge_def)

text \<open>
  A challenge that \<open>PKCEChallenge\<close> makes is accepted by the authorization endpoint's checks on
  challenges and by \<open>VerifyPKCE\<close> for a verifier of a legal length, and consists of unreserved
  characters only.
\<close>

theorem PKCEChallenge_accepted:
  assumes "43 \<le> length verifier" and "length verifier \<le> 128"
  shows "VerifyPKCE (PKCEChallenge verifier) verifier ''S256'' \<and> length (PKCEChallenge verifier) = 43
    \<and> list_all unreserved (PKCEChallenge verifier)"
proof -
  have "length (PKCEChallenge verifier) = 43"
    unfolding PKCEChallenge_def by (rule b64_encode_32) simp
  moreover have "list_all unreserved (PKCEChallenge verifier)"
    using b64_encode_unreserved by (auto simp: PKCEChallenge_def list_all_iff)
  ultimately show ?thesis using assms by (simp add: VerifyPKCE_iff)
qed

theorem PKCEChallenge_accepted_witness:
  "VerifyPKCE (PKCEChallenge (replicate 43 (CHR ''v''))) (replicate 43 (CHR ''v'')) ''S256''"
  using PKCEChallenge_accepted [of "replicate 43 (CHR ''v'')"] by simp

end
