(* ===== verification/Oidc.thy ===== *)
theory Oidc
  imports Oauth Http Go_Json Gorm
begin

text \<open>
  The discovery document and the ID tokens (internal/oidc).  Signing, which the source leaves to the
  JOSE library, is a field of the issuer: it takes the payload and returns the compact token.
\<close>

section \<open>Discovery (discovery.go)\<close>

definition NewDiscoveryConfig :: "string \<Rightarrow> discovery_config" where
  "NewDiscoveryConfig issuerURL =
     (let issuer = TrimRight issuerURL (CHR ''/'') in
      \<lparr>Issuer = issuer,
       AuthorizationEndpoint = issuer @ ''/authorize'',
       TokenEndpoint = issuer @ ''/token'',
       UserInfoEndpoint = '''',
       JWKSURI = issuer @ ''/.well-known/jwks.json'',
       ResponseTypesSupported = [''code''],
       GrantTypesSupported = [''authorization_code''],
       SubjectTypesSupported = [''public''],
       IDTokenSigningAlgValuesSupported = [''RS256''],
       ScopesSupported = [''openid'', ''profile'', ''email''],
       TokenEndpointAuthMethodsSupported = [''client_secret_basic'', ''client_secret_post'', ''none''],
       CodeChallengeMethodsSupported = [''S256''],
       ClaimsSupported = [''sub'', ''iss'', ''aud'', ''exp'', ''iat'', ''auth_time'', ''nonce'', ''email'']\<rparr>)"

section \<open>ID tokens (idtoken.go)\<close>

record id_token_claims =
  Claim_Iss :: string
  Claim_Sub :: string
  Claim_Aud :: string
  Claim_Exp :: int
  Claim_Iat :: int
  Claim_AuthTime :: int
  Claim_Nonce :: string
  Claim_Email :: string

text \<open>\<open>json.Marshal(claims)\<close>.\<close>

definition Marshal_claims :: "id_token_claims \<Rightarrow> string" where
  "Marshal_claims c = json_object
     ([(''iss'', json_string (Claim_Iss c)), (''sub'', json_string (Claim_Sub c)),
       (''aud'', json_string (Claim_Aud c)), (''exp'', Itoa (Claim_Exp c)), (''iat'', Itoa (Claim_Iat c)),
       (''auth_time'', Itoa (Claim_AuthTime c))]
      @ omitempty ''nonce'' (Claim_Nonce c) @ omitempty ''email'' (Claim_Email c))"

record id_token_issuer =
  Issuer_sign :: "string \<Rightarrow> goerr + string"
  Issuer_URL :: string
  Issuer_ttl :: duration

definition NewIDTokenIssuer :: "(string \<Rightarrow> goerr + string) \<Rightarrow> string \<Rightarrow> duration \<Rightarrow> id_token_issuer" where
  "NewIDTokenIssuer sign issuerURL ttl =
     \<lparr>Issuer_sign = sign, Issuer_URL = issuerURL, Issuer_ttl = (if ttl \<le> 0 then 10 * Minute else ttl)\<rparr>"

record issue_params =
  Param_User :: user
  Param_ClientID :: string
  Param_Nonce :: string
  Param_AuthTime :: instant
  Param_Email :: string

definition issue_claims :: "id_token_issuer \<Rightarrow> instant \<Rightarrow> issue_params \<Rightarrow> id_token_claims" where
  "issue_claims i now p =
     \<lparr>Claim_Iss = Issuer_URL i, Claim_Sub = User_Subject (Param_User p), Claim_Aud = Param_ClientID p,
      Claim_Exp = Unix (now + Issuer_ttl i), Claim_Iat = Unix now, Claim_AuthTime = Unix (Param_AuthTime p),
      Claim_Nonce = Param_Nonce p, Claim_Email = Param_Email p\<rparr>"

definition Issue :: "env \<Rightarrow> id_token_issuer \<Rightarrow> issue_params \<Rightarrow> (world, goerr + string) state" where
  "Issue E i p = do {
     now \<leftarrow> Now E;
     ret (Issuer_sign i (Marshal_claims (issue_claims i now p)))
   }"

lemma run_Issue [run_simps]:
  "run_state (Issue E i p) w =
     (Issuer_sign i (Marshal_claims (issue_claims i (clock E (ticks w)) p)), counted 1 0 w)"
  by (simp add: Issue_def run_Now_counted)

end
