(* ===== verification/Secrets.thy ===== *)
theory Secrets
  imports Gorm
begin

text \<open>
  The box that encrypts provider secrets and pending requests (internal/secrets/box.go).  The cipher,
  AES-256-GCM under the server's key, is a field of the box.
\<close>

record aead =
  NonceSize :: nat
  Seal :: "string \<Rightarrow> string \<Rightarrow> string" \<comment> \<open>nonce, plaintext\<close>
  Open :: "string \<Rightarrow> string \<Rightarrow> string option" \<comment> \<open>nonce, ciphertext\<close>

text \<open>What an AEAD promises of what it sealed itself.\<close>

definition aead_opens :: "aead \<Rightarrow> bool" where
  "aead_opens a \<longleftrightarrow> (\<forall>n p. length n = NonceSize a \<longrightarrow> Open a n (Seal a n p) = Some p)"

text \<open>\<open>Seal\<close> appends to the nonce it is given as destination.\<close>

definition Box_Encrypt :: "env \<Rightarrow> aead \<Rightarrow> string \<Rightarrow> (world, goerr + string) state" where
  "Box_Encrypt E b plaintext = do {
     nonce \<leftarrow> RandRead E (NonceSize b);
     ret (case nonce of Inl e \<Rightarrow> Inl e | Inr n \<Rightarrow> Inr (n @ Seal b n plaintext))
   }"

definition Box_Decrypt :: "aead \<Rightarrow> string \<Rightarrow> goerr + string" where
  "Box_Decrypt b ciphertext =
     (if length ciphertext < NonceSize b then Inl (ErrText ''ciphertext is too short'')
      else case Open b (take (NonceSize b) ciphertext) (drop (NonceSize b) ciphertext) of
             None \<Rightarrow> Inl (ErrText ''cipher: message authentication failed'')
           | Some p \<Rightarrow> Inr p)"

lemma sound_Box_Encrypt [schema_intros]: "sound E (Box_Encrypt E' b p)"
  unfolding Box_Encrypt_def by (intro schema_intros)

lemma Box_EncryptE:
  assumes "run_state (Box_Encrypt E b p) w = (Inr c, w')"
  obtains n where "entropy E (entropy_reads w) (NonceSize b) = Some n" and "c = n @ Seal b n p"
    and "w' = w\<lparr>entropy_reads := Suc (entropy_reads w)\<rparr>"
  using assms by (auto simp: Box_Encrypt_def run_RandRead split: option.splits)

lemma Decrypt_Encrypt:
  assumes "run_state (Box_Encrypt E b p) w = (Inr c, w')" and "entropy_fills E" and "aead_opens b"
  shows "Box_Decrypt b c = Inr p"
  using assms(1)
proof (rule Box_EncryptE)
  fix n assume "entropy E (entropy_reads w) (NonceSize b) = Some n" and c: "c = n @ Seal b n p"
  then have "length n = NonceSize b"
    using assms(2) by (simp add: entropy_fills_def)
  with c assms(3) show ?thesis by (simp add: Box_Decrypt_def aead_opens_def)
qed

end
