(* ===== verification/Apps.thy ===== *)
theory Apps
  imports Session_Managers Repositories Oidc Secrets
begin

text \<open>
  The server's fixed parts (the struct \<open>App\<close> of internal/app.go) as far as the handlers use them: its
  configuration, its keys and the outside world it talks to.  The repositories are the operations of
  the theories Session\_Managers and Repositories.
\<close>

record app =
  app_env :: env
  app_sessions :: session_config
  app_operatorSessions :: session_config
  app_discovery :: discovery_config
  app_idTokens :: id_token_issuer
  app_secrets :: aead
  app_jwks :: string \<comment> \<open>the public keys, as the JOSE library encodes them\<close>

text \<open>\<open>renderPage\<close> of a page that is registered.\<close>

definition renderPage :: "nat \<Rightarrow> string \<Rightarrow> (string \<times> page_field) list \<Rightarrow> response" where
  "renderPage status page data =
     \<lparr>resp_status = status, resp_location = None,
      resp_headers = [(''Content-Type'', ''text/html; charset=utf-8'')], resp_cookies = [],
      resp_body = Page page data\<rparr>"

lemma renderPage_simps [simp]:
  "resp_status (renderPage n p d) = n" "resp_location (renderPage n p d) = None"
  "resp_cookies (renderPage n p d) = []" "resp_body (renderPage n p d) = Page p d"
  by (simp_all add: renderPage_def)

end
