(* ===== verification/Token.thy ===== *)
theory Token
  imports Apps
begin

text \<open>
  The token endpoint (internal/token.go).  The handler is cut where it issues a database statement:
  the checks of the form, the client, the code, its consumption, the answer.  \<open>tokenHandler\<close> runs the
  parts one after the other; the theory Interleaving runs those of many requests in any order.
\<close>

section \<open>Answers\<close>

definition writeTokenError :: "nat \<Rightarrow> string \<Rightarrow> string \<Rightarrow> response" where
  "writeTokenError status code description =
     \<lparr>resp_status = status, resp_location = None,
      resp_headers = [(''Content-Type'', ''application/json''), (''Cache-Control'', ''no-store''),
                      (''Pragma'', ''no-cache'')]
        @ (if code = ''invalid_client'' then [(''WWW-Authenticate'', ''Basic realm=\"token\"'')] else []),
      resp_cookies = [], resp_body = TokenErrorJSON code description\<rparr>"

definition writeTokenResponse :: "token_response \<Rightarrow> response" where
  "writeTokenResponse t =
     \<lparr>resp_status = StatusOK, resp_location = None,
      resp_headers = [(''Content-Type'', ''application/json''), (''Cache-Control'', ''no-store''),
                      (''Pragma'', ''no-cache'')],
      resp_cookies = [], resp_body = TokenJSON t\<rparr>"

section \<open>Scopes and client authentication\<close>

definition hasScope :: "string \<Rightarrow> string \<Rightarrow> bool" where
  "hasScope scopeParam scope = list_ex (\<lambda>s. s = scope) (Fields scopeParam)"

text \<open>The values of the form and of the Authorization header the handler works with.\<close>

record token_params =
  Tok_Code :: string
  Tok_RedirectURI :: string
  Tok_CodeVerifier :: string
  Tok_ClientID :: string
  Tok_BasicClientID :: string
  Tok_BasicSecret :: string
  Tok_HasBasic :: bool

definition client_authenticated :: "request \<Rightarrow> oauth_client \<Rightarrow> token_params \<Rightarrow> bool" where
  "client_authenticated r client p =
     (if Client_TokenEndpointAuthMethod client = ''client_secret_basic'' then
        Tok_HasBasic p \<and> Tok_BasicClientID p = Client_ClientID client
        \<and> ValidateClientSecret client (Tok_BasicSecret p)
      else if Client_TokenEndpointAuthMethod client = ''client_secret_post'' then
        Tok_ClientID p = Client_ClientID client
        \<and> ValidateClientSecret client (FormValue r ''client_secret'')
      else False)"

text \<open>\<open>Some\<close> is the answer that has been written.\<close>

definition authenticateTokenClient :: "request \<Rightarrow> oauth_client \<Rightarrow> token_params \<Rightarrow> response option" where
  "authenticateTokenClient r client p =
     (if \<not> IsConfidential client then None
      else if \<not> client_authenticated r client p then
        Some (writeTokenError StatusUnauthorized ''invalid_client'' ''Client authentication failed'')
      else None)"

section \<open>The parts of the handler\<close>

definition invalid_request :: "string \<Rightarrow> response" where
  "invalid_request description = writeTokenError StatusBadRequest ''invalid_request'' description"

definition invalid_grant :: "string \<Rightarrow> response" where
  "invalid_grant description = writeTokenError StatusBadRequest ''invalid_grant'' description"

definition server_error :: "string \<Rightarrow> response" where
  "server_error description = writeTokenError StatusInternalServerError ''server_error'' description"

definition token_form :: "request \<Rightarrow> response + token_params" where
  "token_form r =
     (let ct = Header_Get r ''Content-Type'';
          grantType = FormValue r ''grant_type'';
          code = FormValue r ''code'';
          redirectURI = FormValue r ''redirect_uri'';
          codeVerifier = FormValue r ''code_verifier'';
          hasBasic = (req_basic_auth r \<noteq> None);
          (basicClientID, basicSecret) = (case req_basic_auth r of None \<Rightarrow> ('''', '''') | Some p \<Rightarrow> p);
          formClientID = FormValue r ''client_id'';
          clientID = (if formClientID = '''' then basicClientID else formClientID)
      in
      if ct \<noteq> '''' \<and> \<not> HasPrefix ct ''application/x-www-form-urlencoded'' then
        Inl (invalid_request ''Content-Type must be application/x-www-form-urlencoded'')
      else if ParseForm r \<noteq> Inr () then Inl (invalid_request ''Malformed request body'')
      else if grantType = '''' then Inl (invalid_request ''grant_type is required'')
      else if grantType \<noteq> ''authorization_code'' then
        Inl (writeTokenError StatusBadRequest ''unsupported_grant_type'' ''Only authorization_code is supported'')
      else if code = '''' then Inl (invalid_request ''code is required'')
      else if redirectURI = '''' then Inl (invalid_request ''redirect_uri is required'')
      else if codeVerifier = '''' then Inl (invalid_request ''code_verifier is required (PKCE)'')
      else if clientID = '''' then Inl (invalid_request ''client_id is required'')
      else Inr \<lparr>Tok_Code = code, Tok_RedirectURI = redirectURI, Tok_CodeVerifier = codeVerifier,
                Tok_ClientID = clientID, Tok_BasicClientID = basicClientID,
                Tok_BasicSecret = basicSecret, Tok_HasBasic = hasBasic\<rparr>)"

definition token_client :: "app \<Rightarrow> request \<Rightarrow> token_params \<Rightarrow> (world, response + oauth_client) state" where
  "token_client A r p = do {
     found \<leftarrow> gormClientRepo_GetByClientID (app_env A) (Tok_ClientID p);
     ret (case found of
            Inl e \<Rightarrow>
              if e = ErrNotFound then
                Inl (writeTokenError StatusUnauthorized ''invalid_client'' ''Client authentication failed'')
              else Inl (server_error ''Unable to process the token request'')
          | Inr client \<Rightarrow>
              (case authenticateTokenClient r client p of Some resp \<Rightarrow> Inl resp | None \<Rightarrow> Inr client))
   }"

definition token_code ::
    "app \<Rightarrow> token_params \<Rightarrow> oauth_client \<Rightarrow> (world, response + authorization_code) state" where
  "token_code A p client = do {
     found \<leftarrow> gormCodeRepo_GetByCodeHash (app_env A) (HashAuthorizationCode (Tok_Code p));
     case found of
       Inl e \<Rightarrow>
         ret (if e = ErrNotFound then Inl (invalid_grant ''Authorization code is invalid'')
              else Inl (server_error ''Unable to process the token request''))
     | Inr stored \<Rightarrow>
         if Code_OAuthClientID stored \<noteq> Client_ID client then
           ret (Inl (invalid_grant ''Authorization code is invalid''))
         else if Code_ConsumedAt stored \<noteq> None then
           ret (Inl (invalid_grant ''Authorization code has already been used''))
         else do {
           now \<leftarrow> Now (app_env A);
           ret (if Code_ExpiresAt stored < now then
                  Inl (invalid_grant ''Authorization code has expired'')
                else Inr stored)
         }
   }"

definition token_consume :: "app \<Rightarrow> authorization_code \<Rightarrow> (world, response option) state" where
  "token_consume A stored = do {
     r \<leftarrow> gormCodeRepo_Consume (app_env A) (Code_ID stored);
     ret (case r of Inl e \<Rightarrow> Some (invalid_grant ''Authorization code is invalid'') | Inr _ \<Rightarrow> None)
   }"

definition token_id_token ::
    "app \<Rightarrow> oauth_client \<Rightarrow> authorization_code \<Rightarrow> (world, response + string) state" where
  "token_id_token A client stored = do {
     found \<leftarrow> gormUserRepo_GetByID (app_env A) (Code_UserID stored);
     case found of
       Inl e \<Rightarrow> ret (Inl (server_error ''Unable to issue ID token''))
     | Inr user \<Rightarrow> do {
         authTime \<leftarrow> (if Code_CreatedAt stored = zero_time then Now (app_env A) else ret (Code_CreatedAt stored));
         token \<leftarrow> Issue (app_env A) (app_idTokens A)
           \<lparr>Param_User = user, Param_ClientID = Client_ClientID client,
            Param_Nonce = (case Code_Nonce stored of None \<Rightarrow> '''' | Some n \<Rightarrow> n),
            Param_AuthTime = authTime,
            Param_Email = (if hasScope (Code_Scope stored) ''email'' then User_Email user else '''')\<rparr>;
         ret (case token of
                Inl e \<Rightarrow> Inl (server_error ''Unable to issue ID token'')
              | Inr t \<Rightarrow> Inr t)
       }
   }"

definition token_answer ::
    "app \<Rightarrow> token_params \<Rightarrow> oauth_client \<Rightarrow> authorization_code \<Rightarrow> (world, response) state" where
  "token_answer A p client stored =
     (if Code_RedirectURI stored \<noteq> Tok_RedirectURI p then
        ret (invalid_grant ''redirect_uri does not match the authorization request'')
      else if \<not> VerifyPKCE (Code_CodeChallenge stored) (Tok_CodeVerifier p) (Code_CodeChallengeMethod stored) then
        ret (invalid_grant ''PKCE verification failed'')
      else do {
        access \<leftarrow> GenerateAccessToken (app_env A);
        case access of
          Inl e \<Rightarrow> ret (server_error ''Unable to issue token'')
        | Inr accessToken \<Rightarrow> do {
            let response = \<lparr>AccessToken = accessToken, IDToken = '''', TokenType = ''Bearer'',
                            ExpiresIn = seconds (Issuer_ttl (app_idTokens A))\<rparr>;
            if hasScope (Code_Scope stored) ''openid'' then do {
              idToken \<leftarrow> token_id_token A client stored;
              ret (case idToken of
                     Inl resp \<Rightarrow> resp
                   | Inr t \<Rightarrow> writeTokenResponse (response\<lparr>IDToken := t\<rparr>))
            }
            else ret (writeTokenResponse response)
          }
      })"

definition tokenHandler :: "app \<Rightarrow> request \<Rightarrow> (world, response) state" where
  "tokenHandler A r =
     (case token_form r of
        Inl resp \<Rightarrow> ret resp
      | Inr p \<Rightarrow> do {
          c \<leftarrow> token_client A r p;
          case c of
            Inl resp \<Rightarrow> ret resp
          | Inr client \<Rightarrow> do {
              s \<leftarrow> token_code A p client;
              case s of
                Inl resp \<Rightarrow> ret resp
              | Inr stored \<Rightarrow> do {
                  failed \<leftarrow> token_consume A stored;
                  case failed of
                    Some resp \<Rightarrow> ret resp
                  | None \<Rightarrow> token_answer A p client stored
                }
            }
        })"

section \<open>What the parts do\<close>

lemma writeTokenError_body [simp]: "resp_body (writeTokenError n c d) = TokenErrorJSON c d"
  "resp_status (writeTokenError n c d) = n"
  by (simp_all add: writeTokenError_def)

lemma writeTokenResponse_body [simp]: "resp_body (writeTokenResponse t) = TokenJSON t"
  "resp_status (writeTokenResponse t) = 200"
  by (simp_all add: writeTokenResponse_def StatusOK_def)

lemmas token_error_defs = invalid_request_def invalid_grant_def server_error_def

lemma token_form_InlD: "token_form r = Inl resp \<Longrightarrow> resp_body resp \<noteq> TokenJSON t"
  by (auto simp: token_form_def Let_def token_error_defs split: if_splits prod.splits)

lemma token_form_params:
  assumes "token_form r = Inr p"
  shows "Tok_Code p = FormValue r ''code'' \<and> Tok_RedirectURI p = FormValue r ''redirect_uri''
    \<and> Tok_CodeVerifier p = FormValue r ''code_verifier''"
  using assms by (auto simp: token_form_def Let_def split: if_splits prod.splits)

lemma run_token_client [run_simps]:
  "run_state (token_client A r p) w =
     (case lookup (app_env A) OAuthClients (\<lambda>c. Client_ClientID c = Tok_ClientID p) w of
        Inl e \<Rightarrow> Inl (if e = ErrNotFound then writeTokenError StatusUnauthorized ''invalid_client'' ''Client authentication failed''
                     else server_error ''Unable to process the token request'')
      | Inr client \<Rightarrow> (case authenticateTokenClient r client p of Some resp \<Rightarrow> Inl resp | None \<Rightarrow> Inr client),
      counted 0 1 w)"
  by (simp add: token_client_def run_simps split: sum.split)

lemma token_client_InrD:
  assumes "run_state (token_client A r p) w = (Inr client, w')"
  shows "client \<in> set (rows OAuthClients w)" and "Client_ClientID client = Tok_ClientID p"
    and "IsConfidential client \<Longrightarrow> client_authenticated r client p" and "w' = counted 0 1 w"
proof -
  from assms have found: "lookup (app_env A) OAuthClients (\<lambda>c. Client_ClientID c = Tok_ClientID p) w = Inr client"
    and auth: "authenticateTokenClient r client p = None" and w': "counted 0 1 w = w'"
    unfolding run_token_client by (simp_all split: sum.splits option.splits if_splits)
  show "client \<in> set (rows OAuthClients w)" and "Client_ClientID client = Tok_ClientID p"
    using lookup_InrD [OF found] by blast+
  show "IsConfidential client \<Longrightarrow> client_authenticated r client p"
    using auth by (simp add: authenticateTokenClient_def split: if_splits)
  show "w' = counted 0 1 w" using w' by simp
qed

lemma token_client_InlD:
  assumes "run_state (token_client A r p) w = (Inl resp, w')"
  shows "resp_body resp \<noteq> TokenJSON t"
  using assms unfolding run_token_client
  by (auto simp: authenticateTokenClient_def token_error_defs split: sum.splits option.splits if_splits)

lemma token_code_InrD:
  assumes "run_state (token_code A p client) w = (Inr stored, w')"
  shows "stored \<in> set (rows Codes w)" and "Code_CodeHash stored = HashAuthorizationCode (Tok_Code p)"
    and "Code_OAuthClientID stored = Client_ID client" and "Code_ConsumedAt stored = None"
    and "clock (app_env A) (ticks w) \<le> Code_ExpiresAt stored" and "w' = counted 1 1 w"
proof -
  let ?l = "lookup (app_env A) Codes (\<lambda>c. Code_CodeHash c = HashAuthorizationCode (Tok_Code p)) w"
  obtain s where l: "?l = Inr s"
    using assms by (auto simp: token_code_def run_simps split: sum.splits if_splits)
  then have s: "s = stored" and rest: "Code_OAuthClientID s = Client_ID client" "Code_ConsumedAt s = None"
    "\<not> Code_ExpiresAt s < clock (app_env A) (ticks w)" "w' = counted 1 1 w"
    using assms by (simp_all add: token_code_def run_simps(4-) run_Now_counted run_lookups split: if_splits)
  show "stored \<in> set (rows Codes w)" and "Code_CodeHash stored = HashAuthorizationCode (Tok_Code p)"
    using lookup_InrD [OF l] s by blast+
  show "Code_OAuthClientID stored = Client_ID client" and "Code_ConsumedAt stored = None"
    and "clock (app_env A) (ticks w) \<le> Code_ExpiresAt stored" and "w' = counted 1 1 w"
    using rest s by simp_all
qed

lemma token_code_InlD:
  assumes "run_state (token_code A p client) w = (Inl resp, w')"
  shows "resp_body resp \<noteq> TokenJSON t"
  using assms unfolding token_code_def
  by (auto simp: run_lookups run_Now token_error_defs split: sum.splits if_splits)

lemma token_code_codes: "codes (snd (run_state (token_code A p client) w)) = codes w"
  by (simp add: token_code_def run_lookups run_Now split: sum.split)

lemma token_client_codes: "codes (snd (run_state (token_client A r p) w)) = codes w"
  by (simp add: run_token_client)

lemma token_consume_None:
  assumes "run_state (token_consume A stored) w = (None, w')"
  shows "run_state (gormCodeRepo_Consume (app_env A) (Code_ID stored)) w = (Inr (), w')"
  using assms by (auto simp: token_consume_def split: prod.splits sum.splits)

lemma token_consume_SomeD:
  assumes "run_state (token_consume A stored) w = (Some resp, w')"
  shows "resp = invalid_grant ''Authorization code is invalid''"
    and "\<exists>e. run_state (gormCodeRepo_Consume (app_env A) (Code_ID stored)) w = (Inl e, w')"
  using assms by (auto simp: token_consume_def split: prod.splits sum.splits)

text \<open>The claims of an ID token for a code of a user, made at an instant.\<close>

definition grant_claims ::
    "id_token_issuer \<Rightarrow> oauth_client \<Rightarrow> authorization_code \<Rightarrow> user \<Rightarrow> instant \<Rightarrow> instant \<Rightarrow> id_token_claims" where
  "grant_claims i client stored user now auth =
     \<lparr>Claim_Iss = Issuer_URL i, Claim_Sub = User_Subject user, Claim_Aud = Client_ClientID client,
      Claim_Exp = Unix (now + Issuer_ttl i), Claim_Iat = Unix now, Claim_AuthTime = Unix auth,
      Claim_Nonce = (case Code_Nonce stored of None \<Rightarrow> '''' | Some n \<Rightarrow> n),
      Claim_Email = (if hasScope (Code_Scope stored) ''email'' then User_Email user else '''')\<rparr>"

lemma hasScope_iff: "hasScope s x \<longleftrightarrow> x \<in> set (Fields s)"
  by (auto simp: hasScope_def list_ex_iff)

lemma token_consume_frame:
  "ticks w \<le> ticks (snd (run_state (token_consume A stored) w)) \<and> users (snd (run_state (token_consume A stored) w)) = users w"
  by (simp add: token_consume_def gormCodeRepo_Consume_def Update_def sql_def gorm_update_def Let_def run_Now
      split: sum.split fault.split)

lemma token_id_token_InrD:
  assumes "run_state (token_id_token A client stored) w = (Inr token, w')"
  obtains user k auth where "user \<in> set (rows (Users (app_env A)) w)" and "User_ID user = Code_UserID stored"
    and "ticks w \<le> k" and "Code_CreatedAt stored \<noteq> zero_time \<Longrightarrow> auth = Code_CreatedAt stored"
    and "Issuer_sign (app_idTokens A)
           (Marshal_claims (grant_claims (app_idTokens A) client stored user (clock (app_env A) k) auth)) = Inr token"
proof -
  let ?E = "app_env A"
  let ?l = "lookup ?E (Users ?E) (\<lambda>u. User_ID u = Code_UserID stored) w"
  obtain user where l: "?l = Inr user"
    using assms by (auto simp: token_id_token_def run_lookups split: sum.splits)
  let ?z = "Code_CreatedAt stored = zero_time"
  let ?k = "if ?z then Suc (ticks w) else ticks w"
  let ?auth = "if ?z then clock ?E (ticks w) else Code_CreatedAt stored"
  have sign: "Issuer_sign (app_idTokens A)
      (Marshal_claims (grant_claims (app_idTokens A) client stored user (clock ?E ?k) ?auth)) = Inr token"
    using assms l
    by (cases "?z") (simp_all add: token_id_token_def run_lookups run_Now_counted run_Issue issue_claims_def
        grant_claims_def split: sum.splits split del: if_split)
  show thesis
  proof (rule that [OF _ _ _ _ sign])
    show "user \<in> set (rows (Users ?E) w)" and "User_ID user = Code_UserID stored"
      using lookup_InrD [OF l] by blast+
  qed simp_all
qed

lemma token_id_token_InlD:
  assumes "run_state (token_id_token A client stored) w = (Inl resp, w')"
  shows "resp_body resp \<noteq> TokenJSON t"
  using assms unfolding token_id_token_def
  by (auto simp: run_lookups run_Now run_Issue token_error_defs split: sum.splits if_splits)


text \<open>What an answer with tokens says of the request.\<close>

lemma token_answer_tokens:
  assumes "run_state (token_answer A p client stored) w = (resp, w')" and "resp_body resp = TokenJSON t"
  obtains b where "Code_RedirectURI stored = Tok_RedirectURI p"
    and "VerifyPKCE (Code_CodeChallenge stored) (Tok_CodeVerifier p) (Code_CodeChallengeMethod stored)"
    and "entropy (app_env A) (entropy_reads w) 32 = Some b" and "AccessToken t = RawURLEncode b"
    and "resp_status resp = 200" and "TokenType t = ''Bearer''" and "ExpiresIn t = seconds (Issuer_ttl (app_idTokens A))"
    and "\<not> hasScope (Code_Scope stored) ''openid'' \<Longrightarrow> IDToken t = []"
    and "hasScope (Code_Scope stored) ''openid'' \<Longrightarrow>
       \<exists>user k auth. user \<in> set (rows (Users (app_env A)) w) \<and> User_ID user = Code_UserID stored \<and> ticks w \<le> k
         \<and> (Code_CreatedAt stored \<noteq> zero_time \<longrightarrow> auth = Code_CreatedAt stored)
         \<and> Issuer_sign (app_idTokens A) (Marshal_claims
             (grant_claims (app_idTokens A) client stored user (clock (app_env A) k) auth)) = Inr (IDToken t)"
proof -
  let ?E = "app_env A"
  let ?v = "w\<lparr>entropy_reads := Suc (entropy_reads w)\<rparr>"
  let ?T = "\<lambda>b. \<lparr>AccessToken = RawURLEncode b, IDToken = [], TokenType = ''Bearer'',
                  ExpiresIn = seconds (Issuer_ttl (app_idTokens A))\<rparr>"
  have uri: "Code_RedirectURI stored = Tok_RedirectURI p"
    and pkce: "VerifyPKCE (Code_CodeChallenge stored) (Tok_CodeVerifier p) (Code_CodeChallengeMethod stored)"
    using assms by (auto simp: token_answer_def token_error_defs split: if_splits)
  with assms obtain b where b: "entropy ?E (entropy_reads w) 32 = Some b"
    by (auto simp: token_answer_def token_error_defs run_Generate split: if_splits option.splits)
  show thesis
  proof (cases "hasScope (Code_Scope stored) ''openid''")
    case False
    with assms uri pkce b have "TokenJSON t = TokenJSON (?T b)" and "resp_status resp = 200"
      by (auto simp: token_answer_def run_Generate Let_def)
    with that [of b] uri pkce b False show thesis by auto
  next
    case True
    obtain i u where id: "run_state (token_id_token A client stored) ?v = (i, u)" by fastforce
    with assms uri pkce b True have resp: "(case i of Inl resp \<Rightarrow> resp | Inr tok \<Rightarrow> writeTokenResponse (?T b\<lparr>IDToken := tok\<rparr>)) = resp"
      by (simp add: token_answer_def run_Generate Let_def)
    then obtain tok where i: "i = Inr tok"
      using token_id_token_InlD id assms(2) by (cases i) auto
    from id [unfolded i] show thesis
    proof (rule token_id_token_InrD)
      fix user k auth
      assume *: "user \<in> set (rows (Users ?E) ?v)" "User_ID user = Code_UserID stored" "ticks ?v \<le> k"
        "Code_CreatedAt stored \<noteq> zero_time \<Longrightarrow> auth = Code_CreatedAt stored"
        "Issuer_sign (app_idTokens A) (Marshal_claims (grant_claims (app_idTokens A) client stored user (clock ?E k) auth)) = Inr tok"
      have "t = ?T b\<lparr>IDToken := tok\<rparr>" and "resp_status resp = 200"
        using resp assms(2) i by auto
      moreover have "rows (Users ?E) ?v = rows (Users ?E) w" by (simp add: rows_def)
      ultimately show thesis
        using that [of b] uri pkce b True * by simp blast
    qed
  qed
qed

lemma keeps_codes:
  "keeps (\<lambda>w. codes w = c) (gormUserRepo_GetByID E i)" "keeps (\<lambda>w. codes w = c) (Now E)"
  "keeps (\<lambda>w. codes w = c) (Issue E iss ps)" "keeps (\<lambda>w. codes w = c) (GenerateAccessToken E)"
  by (simp_all add: keeps_def run_lookups run_Now run_Issue run_Generate)

lemma token_answer_codes: "codes (snd (run_state (token_answer A p client stored) w)) = codes w"
proof -
  have "keeps (\<lambda>w. codes w = c) (token_id_token A client stored)" for c
    unfolding token_id_token_def by (intro keeps_bind keeps_if keeps_sum keeps_ret keeps_codes)
  then have "keeps (\<lambda>w. codes w = c) (token_answer A p client stored)" for c
    unfolding token_answer_def Let_def by (intro keeps_bind keeps_if keeps_sum keeps_ret keeps_codes)
  then show ?thesis by (simp add: keeps_def)
qed


section \<open>Runs of the handler\<close>

lemma tokenHandlerE:
  assumes "run_state (tokenHandler A r) w = (resp, w')"
  obtains (form) "token_form r = Inl resp" "w' = w"
  | (client) p where "token_form r = Inr p" "run_state (token_client A r p) w = (Inl resp, w')"
  | (code) p client w1 where "token_form r = Inr p" "run_state (token_client A r p) w = (Inr client, w1)"
      "run_state (token_code A p client) w1 = (Inl resp, w')"
  | (consume) p client w1 stored w2 where "token_form r = Inr p"
      "run_state (token_client A r p) w = (Inr client, w1)"
      "run_state (token_code A p client) w1 = (Inr stored, w2)" "run_state (token_consume A stored) w2 = (Some resp, w')"
  | (answer) p client w1 stored w2 w3 where "token_form r = Inr p"
      "run_state (token_client A r p) w = (Inr client, w1)"
      "run_state (token_code A p client) w1 = (Inr stored, w2)" "run_state (token_consume A stored) w2 = (None, w3)"
      "run_state (token_answer A p client stored) w3 = (resp, w')"
proof (cases "token_form r")
  case (Inl x)
  with assms form show thesis by (simp add: tokenHandler_def)
next
  case (Inr p)
  note run = assms [unfolded tokenHandler_def Inr sum.case]
  from run obtain c w1 where 1: "run_state (token_client A r p) w = (c, w1)"
    and rest: "run_state (case c of Inl resp \<Rightarrow> ret resp
          | Inr client \<Rightarrow> do {
              s \<leftarrow> token_code A p client;
              case s of
                Inl resp \<Rightarrow> ret resp
              | Inr stored \<Rightarrow> do {
                  failed \<leftarrow> token_consume A stored;
                  case failed of Some resp \<Rightarrow> ret resp | None \<Rightarrow> token_answer A p client stored
                }
            }) w1 = (resp, w')"
    by (rule run_bindE)
  show thesis
  proof (cases c)
    case Inl
    with rest 1 client [OF \<open>token_form r = Inr p\<close>] show thesis by simp
  next
    case c: (Inr client)
    from rest [unfolded c sum.case] obtain s w2 where 2: "run_state (token_code A p client) w1 = (s, w2)"
      and rest: "run_state (case s of Inl resp \<Rightarrow> ret resp
              | Inr stored \<Rightarrow> do {
                  failed \<leftarrow> token_consume A stored;
                  case failed of Some resp \<Rightarrow> ret resp | None \<Rightarrow> token_answer A p client stored
                }) w2 = (resp, w')"
      by (rule run_bindE)
    note 1 = 1 [unfolded c]
    show thesis
    proof (cases s)
      case Inl
      with rest 2 code [OF \<open>token_form r = Inr p\<close> 1] show thesis by simp
    next
      case s: (Inr stored)
      from rest [unfolded s sum.case] obtain f w3 where 3: "run_state (token_consume A stored) w2 = (f, w3)"
        and rest: "run_state (case f of Some resp \<Rightarrow> ret resp | None \<Rightarrow> token_answer A p client stored) w3 = (resp, w')"
        by (rule run_bindE)
      note 2 = 2 [unfolded s]
      show thesis
        by (cases f; use rest 3 consume [OF \<open>token_form r = Inr p\<close> 1 2] answer [OF \<open>token_form r = Inr p\<close> 1 2] in simp)
    qed
  qed
qed

lemma sound_Issue [schema_intros]: "sound E (Issue E' i p)"
  unfolding Issue_def by (intro schema_intros)

lemma sound_Generate [schema_intros]: "sound E (GenerateAuthorizationCode E')" "sound E (GenerateAccessToken E')"
  unfolding GenerateAuthorizationCode_def GenerateAccessToken_def by (intro schema_intros)+

lemma sound_token_parts:
  "sound E (token_client A r p)" "sound E (token_code A p client)" "sound E (token_consume A stored)"
  "sound E (token_answer A p client stored)"
proof -
  show "sound E (token_client A r p)" "sound E (token_code A p client)" "sound E (token_consume A stored)"
    unfolding token_client_def token_code_def token_consume_def by (intro schema_intros)+
  have "sound E (token_id_token A client stored)"
    unfolding token_id_token_def by (intro schema_intros)
  then show "sound E (token_answer A p client stored)"
    unfolding token_answer_def Let_def by (intro schema_intros)
qed

lemma sound_tokenHandler [schema_intros]: "sound E (tokenHandler A r)"
  unfolding tokenHandler_def by (intro schema_intros sound_token_parts)

text \<open>The handler only ever changes a code by consuming it.\<close>

lemma token_consume_evolves: "codes_evolve w (snd (run_state (token_consume A stored) w))"
  using Consume_evolves [of "app_env A" "Code_ID stored" w]
  by (auto simp: token_consume_def split: prod.splits)

lemma tokenHandler_evolves:
  assumes "run_state (tokenHandler A r) w = (resp, w')"
  shows "codes_evolve w w'"
  using assms
proof (cases rule: tokenHandlerE)
  case form
  then show ?thesis by simp
next
  case (client p)
  then show ?thesis using token_client_codes [of A r p w] by (simp add: codes_evolve_same)
next
  case (code p client w1)
  then show ?thesis
    using token_client_codes [of A r p w] token_code_codes [of A p client w1] by (simp add: codes_evolve_same)
next
  case (consume p client w1 stored w2)
  then have "codes w2 = codes w"
    using token_client_codes [of A r p w] token_code_codes [of A p client w1] by simp
  with consume token_consume_evolves [of w2 A stored] show ?thesis
    using codes_evolve_trans codes_evolve_same by (metis snd_conv)
next
  case (answer p client w1 stored w2 w3)
  then have "codes w2 = codes w" and "codes w' = codes w3"
    using token_client_codes [of A r p w] token_code_codes [of A p client w1]
      token_answer_codes [of A p client stored w3] by simp_all
  with answer token_consume_evolves [of w2 A stored] show ?thesis
    using codes_evolve_trans codes_evolve_same by (metis snd_conv)
qed


text \<open>A request that is answered with tokens has passed every part.\<close>

lemma token_success_parts:
  assumes "run_state (tokenHandler A r) w = (resp, w')" and "resp_body resp = TokenJSON t"
  obtains p client w1 stored w2 w3 where "token_form r = Inr p"
      "run_state (token_client A r p) w = (Inr client, w1)"
      "run_state (token_code A p client) w1 = (Inr stored, w2)" "run_state (token_consume A stored) w2 = (None, w3)"
      "run_state (token_answer A p client stored) w3 = (resp, w')"
  using assms(1)
proof (cases rule: tokenHandlerE)
  case form
  with token_form_InlD assms(2) show thesis by blast
next
  case (client p)
  with token_client_InlD assms(2) show thesis by blast
next
  case (code p client w1)
  with token_code_InlD assms(2) show thesis by blast
next
  case (consume p client w1 stored w2)
  from token_consume_SomeD(1) [OF consume(4)] assms(2) show thesis by (simp add: token_error_defs)
next
  case (answer p client w1 stored w2 w3)
  then show thesis by (rule that)
qed

text \<open>What a confidential client has shown: its secret, in the way it is registered for.\<close>

definition secret_shown :: "request \<Rightarrow> oauth_client \<Rightarrow> bool" where
  "secret_shown r client \<longleftrightarrow>
     (Client_TokenEndpointAuthMethod client = ''client_secret_basic'' \<and>
        (\<exists>s. req_basic_auth r = Some (Client_ClientID client, s) \<and> s \<noteq> [] \<and> Client_ClientSecretHash client = Sum256 s)) \<or>
     (Client_TokenEndpointAuthMethod client = ''client_secret_post'' \<and>
        FormValue r ''client_secret'' \<noteq> [] \<and> Client_ClientSecretHash client = Sum256 (FormValue r ''client_secret''))"

lemma token_form_basic:
  assumes "token_form r = Inr p" and "Tok_HasBasic p"
  shows "req_basic_auth r = Some (Tok_BasicClientID p, Tok_BasicSecret p)"
  using assms by (auto simp: token_form_def Let_def split: if_splits prod.splits option.splits)

lemma client_authenticated_secret:
  assumes "token_form r = Inr p" and "client_authenticated r client p"
  shows "secret_shown r client"
  using assms(2) token_form_basic [OF assms(1)]
  by (auto simp: client_authenticated_def secret_shown_def ValidateClientSecret_iff split: if_splits)

lemma token_success_grant:
  assumes "world_ok E w" and "run_state (tokenHandler A r) w = (resp, w')" and "resp_body resp = TokenJSON t"
  obtains client stored d where "client \<in> set (rows OAuthClients w)" and "stored \<in> set (rows Codes w)"
    and "Code_CodeHash stored = Sum256 (FormValue r ''code'')" and "Code_OAuthClientID stored = Client_ID client"
    and "Code_ConsumedAt stored = None" and "\<exists>k \<ge> ticks w. clock (app_env A) k < Code_ExpiresAt stored"
    and "Code_RedirectURI stored = FormValue r ''redirect_uri''"
    and "VerifyPKCE (Code_CodeChallenge stored) (FormValue r ''code_verifier'') (Code_CodeChallengeMethod stored)"
    and "IsConfidential client \<Longrightarrow> secret_shown r client"
    and "d \<in> set (rows Codes w')" and "same_grant stored d" and "Code_ConsumedAt d \<noteq> None"
proof -
  from assms(2,3) show thesis
  proof (rule token_success_parts)
    fix p client w1 stored w2 w3
    assume form: "token_form r = Inr p" and cl: "run_state (token_client A r p) w = (Inr client, w1)"
      and co: "run_state (token_code A p client) w1 = (Inr stored, w2)"
      and con: "run_state (token_consume A stored) w2 = (None, w3)"
      and ans: "run_state (token_answer A p client stored) w3 = (resp, w')"
    have w1: "w1 = counted 0 1 w" using token_client_InrD(4) [OF cl] .
    have w2: "w2 = counted 1 1 w1" using token_code_InrD(6) [OF co] .
    note code = token_code_InrD [OF co]
    have "advances E w w2"
      using advances_trans [OF soundD [OF sound_token_parts(1) assms(1) cl] soundD [OF sound_token_parts(2) _ co]]
        soundD [OF sound_token_parts(1) assms(1) cl] by (simp add: advances_def)
    then have ok2: "world_ok E w2" by (simp add: advances_def)
    have mem: "stored \<in> set (rows Codes w2)" using code(1) by (simp add: w2)
    note consumed = Consume_success [OF token_consume_None [OF con] ok2 mem refl]
    obtain d where d: "d \<in> set (rows Codes w3)" "same_grant stored d" "Code_ConsumedAt d \<noteq> None"
      using consumed(3) by auto
    have "rows Codes w' = rows Codes w3"
      using token_answer_codes [of A p client stored w3] ans by (simp add: rows_def)
    with d have d': "d \<in> set (rows Codes w')" by simp
    show thesis
    proof (rule that [OF _ _ _ _ _ _ _ _ _ d' d(2,3)])
      show "client \<in> set (rows OAuthClients w)" by (rule token_client_InrD(1) [OF cl])
      show "stored \<in> set (rows Codes w)" using code(1) by (simp add: w1)
      show "Code_CodeHash stored = Sum256 (FormValue r ''code'')"
        using code(2) token_form_params [OF form] by (simp add: HashAuthorizationCode_def)
      show "Code_OAuthClientID stored = Client_ID client" and "Code_ConsumedAt stored = None"
        using code(3,4) by simp_all
      show "\<exists>k \<ge> ticks w. clock (app_env A) k < Code_ExpiresAt stored"
        using consumed(2) by (intro exI [of _ "ticks w2"]) (simp add: w2 w1)
      show "Code_RedirectURI stored = FormValue r ''redirect_uri''"
        and "VerifyPKCE (Code_CodeChallenge stored) (FormValue r ''code_verifier'') (Code_CodeChallengeMethod stored)"
        using token_answer_tokens [OF ans assms(3)] token_form_params [OF form] by metis+
      show "IsConfidential client \<Longrightarrow> secret_shown r client"
        using token_client_InrD(3) [OF cl] client_authenticated_secret [OF form] by blast
    qed
  qed
qed

lemma codes_unique_hash:
  assumes "world_ok E w" and "c \<in> set (rows Codes w)" and "d \<in> set (rows Codes w)" and "Code_CodeHash c = Code_CodeHash d"
  shows "c = d"
proof (rule Codes.table_ok_clash)
  show "table_ok (m_schema Codes) (codes w)"
    using world_ok_models(9) [OF assms(1)] by (simp add: model_ok_def)
qed (use assms in \<open>simp_all add: rows_def model_defs schema_defs\<close>)

text \<open>A consumed code is worth nothing to any later request.\<close>

lemma consumed_code_refused:
  assumes "world_ok E w" and "d \<in> set (rows Codes w)" and "Code_ConsumedAt d \<noteq> None"
    and "Code_CodeHash d = Sum256 (FormValue r ''code'')" and "run_state (tokenHandler A r) w = (resp, w')"
  shows "resp_body resp \<noteq> TokenJSON t"
proof
  assume "resp_body resp = TokenJSON t"
  with assms(1,5) show False
    by (rule token_success_grant) (metis assms(1-4) codes_unique_hash)
qed


section \<open>Properties\<close>

text \<open>
  C2.  Tokens are only ever given for a grant.  On a database that keeps its constraints, a request is
  answered with tokens only if the code it presents was stored (by its SHA-256 hash), belongs to a
  registered client, had not been consumed and was unexpired when it was consumed, was issued for the redirect URI
  the request names and for a PKCE challenge the request's verifier meets; a confidential client has
  shown its secret in the way it is registered for.  Afterwards that very code is consumed.
\<close>

theorem tokens_need_grant:
  assumes "world_ok E w" and "run_state (tokenHandler A r) w = (resp, w')" and "resp_body resp = TokenJSON t"
  shows "\<exists>client stored. client \<in> set (rows OAuthClients w) \<and> stored \<in> set (rows Codes w)
    \<and> Code_CodeHash stored = Sum256 (FormValue r ''code'') \<and> Code_OAuthClientID stored = Client_ID client
    \<and> Code_ConsumedAt stored = None \<and> (\<exists>k \<ge> ticks w. clock (app_env A) k < Code_ExpiresAt stored)
    \<and> Code_RedirectURI stored = FormValue r ''redirect_uri''
    \<and> VerifyPKCE (Code_CodeChallenge stored) (FormValue r ''code_verifier'') (Code_CodeChallengeMethod stored)
    \<and> (IsConfidential client \<longrightarrow> secret_shown r client)
    \<and> (\<exists>d \<in> set (rows Codes w'). same_grant stored d \<and> Code_ConsumedAt d \<noteq> None)"
  using assms by (rule token_success_grant) blast

text \<open>
  C3.  A code is redeemed at most once: after a request that was answered with tokens, and after
  anything else that only adds codes or consumes them, no request presenting the same code is
  answered with tokens, whoever sends it and whatever else it contains.
\<close>

theorem code_single_redemption:
  assumes "world_ok E w" and "run_state (tokenHandler A r) w = (resp, w')" and "resp_body resp = TokenJSON t"
    and "codes_evolve w' v" and "world_ok E' v" and "FormValue r' ''code'' = FormValue r ''code''"
  shows "resp_body (fst (run_state (tokenHandler A' r') v)) \<noteq> TokenJSON t'"
  using assms(1-3)
proof (rule token_success_grant)
  fix client stored d
  assume "Code_CodeHash stored = Sum256 (FormValue r ''code'')" and "d \<in> set (rows Codes w')"
    and "same_grant stored d" and "Code_ConsumedAt d \<noteq> None"
  moreover from this(2,4) assms(4) obtain e where "e \<in> set (rows Codes v)" "same_grant d e" "Code_ConsumedAt e \<noteq> None"
    unfolding codes_evolve_def by metis
  ultimately have "e \<in> set (rows Codes v)" "Code_ConsumedAt e \<noteq> None" "Code_CodeHash e = Sum256 (FormValue r' ''code'')"
    using assms(6) by (simp_all add: same_grant_def)
  then show ?thesis
    using consumed_code_refused [OF assms(5)] by (metis prod.collapse)
qed

text \<open>
  C13.  A failed exchange burns the code: when a request is refused because the redirect URI differs or
  because PKCE fails, the code it presented is consumed in the resulting state, so that guessing
  again with the same code is pointless.
\<close>

theorem failed_exchange_burns_code:
  assumes "world_ok E w" and "run_state (tokenHandler A r) w = (resp, w')"
    and "resp_body resp = TokenErrorJSON ''invalid_grant'' ''PKCE verification failed'' \<or>
         resp_body resp = TokenErrorJSON ''invalid_grant'' ''redirect_uri does not match the authorization request''"
  shows "\<exists>d \<in> set (rows Codes w'). Code_CodeHash d = Sum256 (FormValue r ''code'') \<and> Code_ConsumedAt d \<noteq> None"
  using assms(2)
proof (cases rule: tokenHandlerE)
  case form
  then have False using assms(3)
    by (auto simp: token_form_def Let_def token_error_defs split: if_splits prod.splits)
  then show ?thesis ..
next
  case (client p)
  then have False using assms(3)
    unfolding run_token_client by (auto simp: authenticateTokenClient_def token_error_defs split: sum.splits option.splits if_splits)
  then show ?thesis ..
next
  case (code p client w1)
  then have False using assms(3) unfolding token_code_def
    by (auto simp: run_lookups run_Now token_error_defs split: sum.splits if_splits)
  then show ?thesis ..
next
  case (consume p client w1 stored w2)
  from token_consume_SomeD(1) [OF this(4)] assms(3) have False by (simp add: token_error_defs)
  then show ?thesis ..
next
  case (answer p client w1 stored w2 w3)
  have "advances E w w1" by (rule soundD [OF sound_token_parts(1) assms(1) answer(2)])
  then have "world_ok E w1" by (simp add: advances_def)
  from soundD [OF sound_token_parts(2) this answer(3)] have ok: "world_ok E w2" by (simp add: advances_def)
  have "stored \<in> set (rows Codes w2)"
    using token_code_InrD(1,6) [OF answer(3)] by simp
  from Consume_success(3) [OF token_consume_None [OF answer(4)] ok this refl]
  obtain d where "d \<in> set (rows Codes w3)" "same_grant stored d" "Code_ConsumedAt d \<noteq> None"
    by auto
  moreover have "rows Codes w' = rows Codes w3"
    using token_answer_codes [of A p client stored w3] answer(5) by (simp add: rows_def)
  moreover have "Code_CodeHash stored = Sum256 (FormValue r ''code'')"
    using token_code_InrD(2) [OF answer(3)] token_form_params [OF answer(1)] by (simp add: HashAuthorizationCode_def)
  ultimately show ?thesis by (auto simp: same_grant_def)
qed

section \<open>A concrete exchange\<close>

definition sample_verifier :: string where
  "sample_verifier = replicate 43 (CHR ''v'')"

definition sample_client :: oauth_client where
  "sample_client = \<lparr>Client_ID = 1, Client_ApplicationID = 1, Client_ClientID = ''cid'', Client_ClientSecretHash = [],
     Client_ClientType = ''public'', Client_TokenEndpointAuthMethod = ''none'',
     Client_RedirectURIs = [''https://app/cb''], Client_PostLogoutRedirectURIs = [], Client_AllowedOrigins = [],
     Client_Environment = ''local'', Client_CreatedAt = 0, Client_UpdatedAt = 0\<rparr>"

definition sample_application :: application where
  "sample_application = \<lparr>App_ID = 1, App_Name = ''App'', App_Description = [], App_FirstParty = True,
     App_AllowedScopes = [''openid'', ''email''], App_CreatedAt = 0, App_UpdatedAt = 0\<rparr>"

definition sample_code :: authorization_code where
  "sample_code = \<lparr>Code_ID = 1, Code_CodeHash = Sum256 ''code-1'', Code_OAuthClientID = 1, Code_UserID = 1,
     Code_RedirectURI = ''https://app/cb'', Code_Scope = ''openid email'', Code_Nonce = Some ''n'',
     Code_CodeChallenge = PKCEChallenge sample_verifier, Code_CodeChallengeMethod = ''S256'',
     Code_ExpiresAt = 1790000060000000000, Code_ConsumedAt = None, Code_CreatedAt = 1790000000000000000,
     Code_UpdatedAt = 1790000000000000000\<rparr>"

definition grant_world :: world where
  "grant_world = signed_in_world
     \<lparr>applications := \<lparr>tbl_rows = [sample_application], tbl_next = 2\<rparr>,
      oauth_clients := \<lparr>tbl_rows = [sample_client], tbl_next = 2\<rparr>,
      codes := \<lparr>tbl_rows = [sample_code], tbl_next = 2\<rparr>\<rparr>"

definition sample_aead :: aead where
  "sample_aead = \<lparr>NonceSize = 12, Seal = (\<lambda>n p. p), Open = (\<lambda>n c. Some c)\<rparr>"

definition sample_app :: app where
  "sample_app = \<lparr>app_env = calm_env, app_sessions = sample_config,
     app_operatorSessions = sample_config\<lparr>CookieName := ''centrauth_operator''\<rparr>,
     app_discovery = NewDiscoveryConfig ''https://idp'',
     app_idTokens = NewIDTokenIssuer (\<lambda>p. Inr (''jws:'' @ p)) ''https://idp'' (10 * Minute),
     app_secrets = sample_aead, app_jwks = ''{}''\<rparr>"

definition sample_request :: request where
  "sample_request = \<lparr>req_method = ''GET'', req_host = ''id.example'', req_path = ''/'', req_escaped_path = ''/'', req_raw_query = [], req_headers = [],
     req_post_form = [], req_body_ok = True, req_basic_auth = None, req_cookies = [], req_path_values = [],
     req_user = None, req_operator = None\<rparr>"

definition exchange_request :: "string \<Rightarrow> request" where
  "exchange_request verifier = sample_request\<lparr>req_method := ''POST'', req_path := ''/token'',
     req_headers := [(''Content-Type'', ''application/x-www-form-urlencoded'')],
     req_post_form := [(''grant_type'', ''authorization_code''), (''code'', ''code-1''),
       (''redirect_uri'', ''https://app/cb''), (''code_verifier'', verifier), (''client_id'', ''cid'')]\<rparr>"

lemma sample_app_simps [simp]:
  "app_env sample_app = calm_env" "Issuer_ttl (app_idTokens sample_app) = 600000000000"
  "Issuer_sign (app_idTokens sample_app) p = Inr (''jws:'' @ p)"
  by (simp_all add: sample_app_def NewIDTokenIssuer_def Minute_def Second_def)

lemma grant_world_ok: "world_ok calm_env grant_world"
  by (simp add: world_ok_def model_ok_def table_ok_def rows_def model_defs schema_defs has_row_def signed_in_defs
      grant_world_def sample_application_def sample_client_def sample_code_def)

lemma Query_empty [simp]: "ParseQuery [] = ([], True)" "Query [] = []"
  by (simp_all add: Query_def ParseQuery.simps [of "[]"])

lemma exchange_form:
  assumes "verifier \<noteq> []"
  shows "token_form (exchange_request verifier) = Inr
     \<lparr>Tok_Code = ''code-1'', Tok_RedirectURI = ''https://app/cb'', Tok_CodeVerifier = verifier,
      Tok_ClientID = ''cid'', Tok_BasicClientID = [], Tok_BasicSecret = [], Tok_HasBasic = False\<rparr>"
  using assms
  by (simp add: token_form_def exchange_request_def sample_request_def Header_Get_def FormValue_def URL_Query_def
      ParseForm_def Get_def HasPrefix_def Let_def)

lemma run_exchange_consume:
  assumes "verifier \<noteq> []"
  shows "\<exists>w1 w2 w3 p. token_form (exchange_request verifier) = Inr p \<and> Tok_CodeVerifier p = verifier
     \<and> Tok_RedirectURI p = ''https://app/cb''
     \<and> run_state (token_client sample_app (exchange_request verifier) p) grant_world = (Inr sample_client, w1)
     \<and> run_state (token_code sample_app p sample_client) w1 = (Inr sample_code, w2)
     \<and> run_state (token_consume sample_app sample_code) w2 = (None, w3)
     \<and> users w3 = users grant_world"
proof -
  let ?p = "\<lparr>Tok_Code = ''code-1'', Tok_RedirectURI = ''https://app/cb'', Tok_CodeVerifier = verifier,
      Tok_ClientID = ''cid'', Tok_BasicClientID = [], Tok_BasicSecret = [], Tok_HasBasic = False\<rparr>"
  have 1: "run_state (token_client sample_app (exchange_request verifier) ?p) grant_world = (Inr sample_client, counted 0 1 grant_world)"
    by (simp add: run_token_client lookup_def rows_def grant_world_def sample_client_def authenticateTokenClient_def IsConfidential_def)
  have 2: "run_state (token_code sample_app ?p sample_client) (counted 0 1 grant_world) = (Inr sample_code, counted 1 2 grant_world)"
    by (simp add: token_code_def run_lookups run_Now_counted lookup_def rows_def HashAuthorizationCode_def grant_world_def
        signed_in_defs sample_code_def sample_client_def numeral_2_eq_2)
  have "fst (run_state (token_consume sample_app sample_code) (counted 1 2 grant_world)) = None
      \<and> users (snd (run_state (token_consume sample_app sample_code) (counted 1 2 grant_world))) = users grant_world"
    by (simp add: token_consume_def gormCodeRepo_Consume_def Update_def sql_def gorm_update_def affected_def
        must_affect_def Let_def run_Now grant_world_def signed_in_defs sample_code_def)
  then obtain w3 where "run_state (token_consume sample_app sample_code) (counted 1 2 grant_world) = (None, w3)"
    and "users w3 = users grant_world"
    by (metis prod.collapse)
  with 1 2 exchange_form [OF assms] show ?thesis by fastforce
qed

lemma run_exchange:
  "\<exists>t w'. run_state (tokenHandler sample_app (exchange_request sample_verifier)) grant_world = (writeTokenResponse t, w')"
proof -
  have ne: "sample_verifier \<noteq> []" by (simp add: sample_verifier_def)
  from run_exchange_consume [OF ne] obtain w1 w2 w3 p
    where form: "token_form (exchange_request sample_verifier) = Inr p" "Tok_CodeVerifier p = sample_verifier"
      "Tok_RedirectURI p = ''https://app/cb''"
    and 1: "run_state (token_client sample_app (exchange_request sample_verifier) p) grant_world = (Inr sample_client, w1)"
    and 2: "run_state (token_code sample_app p sample_client) w1 = (Inr sample_code, w2)"
    and 3: "run_state (token_consume sample_app sample_code) w2 = (None, w3)" and users: "users w3 = users grant_world"
    by blast
  have "VerifyPKCE (PKCEChallenge sample_verifier) sample_verifier ''S256''"
    by (simp add: VerifyPKCE_iff sample_verifier_def)
  moreover have "\<exists>t u. run_state (token_id_token sample_app sample_client sample_code) v = (Inr t, u)"
    if "users v = users grant_world" for v
    using that by (simp add: token_id_token_def run_lookups run_Issue lookup_def rows_def sample_code_def grant_world_def
        signed_in_defs zero_time_def)
  from this [of "w3\<lparr>entropy_reads := Suc (entropy_reads w3)\<rparr>"] users
  obtain t u where "run_state (token_id_token sample_app sample_client sample_code) (w3\<lparr>entropy_reads := Suc (entropy_reads w3)\<rparr>) = (Inr t, u)"
    by auto
  ultimately have "\<exists>t u. run_state (token_answer sample_app p sample_client sample_code) w3 = (writeTokenResponse t, u)"
    using form(2,3) by (auto simp: token_answer_def run_Generate Let_def sample_code_def)
  with form(1) 1 2 3 show ?thesis
    by (auto simp: tokenHandler_def)
qed

theorem tokens_need_grant_witness:
  "\<exists>resp w'. run_state (tokenHandler sample_app (exchange_request sample_verifier)) grant_world = (resp, w')
     \<and> (\<exists>d \<in> set (rows Codes w'). same_grant sample_code d \<and> Code_ConsumedAt d \<noteq> None)"
proof -
  obtain t w' where run: "run_state (tokenHandler sample_app (exchange_request sample_verifier)) grant_world = (writeTokenResponse t, w')"
    using run_exchange by blast
  have "rows Codes grant_world = [sample_code]"
    by (simp add: rows_def grant_world_def)
  with tokens_need_grant [OF grant_world_ok run writeTokenResponse_body(1)]
  have "\<exists>d \<in> set (rows Codes w'). same_grant sample_code d \<and> Code_ConsumedAt d \<noteq> None"
    by auto
  with run show ?thesis by blast
qed

theorem code_single_redemption_witness:
  "\<exists>t w' resp. run_state (tokenHandler sample_app (exchange_request sample_verifier)) grant_world = (writeTokenResponse t, w')
     \<and> fst (run_state (tokenHandler sample_app (exchange_request sample_verifier)) w') = resp
     \<and> (\<forall>t'. resp_body resp \<noteq> TokenJSON t')"
proof -
  obtain t w' where run: "run_state (tokenHandler sample_app (exchange_request sample_verifier)) grant_world = (writeTokenResponse t, w')"
    using run_exchange by blast
  have "world_ok calm_env w'"
    using sound_world_ok [OF sound_tokenHandler grant_world_ok, of sample_app "exchange_request sample_verifier"] run
    by simp
  from code_single_redemption [OF grant_world_ok run writeTokenResponse_body(1) codes_evolve_refl this refl]
  show ?thesis using run by blast
qed

theorem failed_exchange_burns_code_witness:
  "\<exists>resp w'. run_state (tokenHandler sample_app (exchange_request ''guess'')) grant_world = (resp, w')
     \<and> resp_body resp = TokenErrorJSON ''invalid_grant'' ''PKCE verification failed''
     \<and> (\<exists>d \<in> set (rows Codes w'). Code_CodeHash d = Sum256 ''code-1'' \<and> Code_ConsumedAt d \<noteq> None)"
proof -
  from run_exchange_consume [of "''guess''"] obtain w1 w2 w3 p
    where form: "token_form (exchange_request ''guess'') = Inr p" "Tok_CodeVerifier p = ''guess''"
      "Tok_RedirectURI p = ''https://app/cb''"
    and parts: "run_state (token_client sample_app (exchange_request ''guess'') p) grant_world = (Inr sample_client, w1)"
      "run_state (token_code sample_app p sample_client) w1 = (Inr sample_code, w2)"
      "run_state (token_consume sample_app sample_code) w2 = (None, w3)"
    by blast
  have "\<not> VerifyPKCE c ''guess'' m" for c m by (simp add: VerifyPKCE_iff)
  moreover have "Code_RedirectURI sample_code = ''https://app/cb''" by (simp add: sample_code_def)
  ultimately have run: "run_state (tokenHandler sample_app (exchange_request ''guess'')) grant_world
      = (invalid_grant ''PKCE verification failed'', w3)"
    using form parts by (simp add: tokenHandler_def token_answer_def)
  have body: "resp_body (invalid_grant ''PKCE verification failed'') = TokenErrorJSON ''invalid_grant'' ''PKCE verification failed''"
    by (simp add: invalid_grant_def)
  have "FormValue (exchange_request ''guess'') ''code'' = ''code-1''"
    by (simp add: FormValue_def exchange_request_def sample_request_def Get_def)
  with failed_exchange_burns_code [OF grant_world_ok run] body run show ?thesis by auto
qed

section \<open>The shape of the answers\<close>

definition well_formed_answer :: "response \<Rightarrow> bool" where
  "well_formed_answer resp \<longleftrightarrow>
     resp_location resp = None \<and> resp_cookies resp = []
     \<and> map_of (resp_headers resp) ''Cache-Control'' = Some ''no-store''
     \<and> (case resp_body resp of
          TokenJSON t \<Rightarrow> resp_status resp = 200 \<and> map_of (resp_headers resp) ''WWW-Authenticate'' = None
        | TokenErrorJSON c d \<Rightarrow> resp_status resp \<in> {400, 401, 500}
            \<and> (resp_status resp = 401 \<longleftrightarrow> c = ''invalid_client'')
            \<and> (c = ''invalid_client'' \<longleftrightarrow> map_of (resp_headers resp) ''WWW-Authenticate'' \<noteq> None)
        | _ \<Rightarrow> False)"

lemma well_formed_tokens [simp]: "well_formed_answer (writeTokenResponse t)"
  by (simp add: well_formed_answer_def writeTokenResponse_def StatusOK_def)

lemma well_formed_errors [simp]:
  "well_formed_answer (invalid_request d)" "well_formed_answer (invalid_grant d)" "well_formed_answer (server_error d)"
  "well_formed_answer (writeTokenError StatusBadRequest ''unsupported_grant_type'' d)"
  "well_formed_answer (writeTokenError StatusUnauthorized ''invalid_client'' d)"
  by (simp_all add: well_formed_answer_def writeTokenError_def token_error_defs status_defs)

lemma token_form_well_formed: "token_form r = Inl resp \<Longrightarrow> well_formed_answer resp"
  by (auto simp: token_form_def Let_def split: if_splits prod.splits)

lemma token_client_well_formed: "run_state (token_client A r p) w = (Inl resp, w') \<Longrightarrow> well_formed_answer resp"
  unfolding run_token_client by (auto simp: authenticateTokenClient_def split: sum.splits option.splits if_splits)

lemma token_code_well_formed: "run_state (token_code A p c) w = (Inl resp, w') \<Longrightarrow> well_formed_answer resp"
  unfolding token_code_def by (auto simp: run_lookups run_Now split: sum.splits if_splits)

lemma token_id_token_well_formed:
  "run_state (token_id_token A c s) w = (Inl resp, w') \<Longrightarrow> well_formed_answer resp"
  unfolding token_id_token_def by (auto simp: run_lookups run_Now run_Issue split: sum.splits if_splits)

lemma token_answer_well_formed:
  assumes "run_state (token_answer A p c s) w = (resp, w')"
  shows "well_formed_answer resp"
proof -
  obtain i u where id: "run_state (token_id_token A c s) (w\<lparr>entropy_reads := Suc (entropy_reads w)\<rparr>) = (i, u)"
    by fastforce
  have "i = Inl x \<Longrightarrow> well_formed_answer x" for x
    using token_id_token_well_formed id by blast
  with assms id show ?thesis
    by (auto simp: token_answer_def run_Generate Let_def split: if_splits option.splits sum.splits)
qed

text \<open>
  C15.  The answers of the token endpoint are well formed: an answer is either tokens with status 200 or
  a JSON error with status 400, 401 or 500; the status is 401 exactly for the error
  \<open>invalid_client\<close>, and exactly then the client is asked to authenticate.  None may be cached, and
  none carries a redirect or a cookie.
\<close>

theorem token_answers_well_formed:
  "well_formed_answer (fst (run_state (tokenHandler A r) w))"
proof -
  obtain resp w' where run: "run_state (tokenHandler A r) w = (resp, w')" by fastforce
  from run have "well_formed_answer resp"
  proof (cases rule: tokenHandlerE)
    case form
    then show ?thesis by (intro token_form_well_formed)
  next
    case client
    show ?thesis by (rule token_client_well_formed [OF client(2)])
  next
    case code
    show ?thesis by (rule token_code_well_formed [OF code(3)])
  next
    case consume
    then show ?thesis using token_consume_SomeD(1) [OF consume(4)] by simp
  next
    case answer
    show ?thesis by (rule token_answer_well_formed [OF answer(5)])
  qed
  with run show ?thesis by simp
qed

text \<open>
  C14.  What an ID token says.  When a code with the \<open>openid\<close> scope is exchanged, the ID token in the
  answer is the signature of a payload about the user the code was issued for, addressed to the
  client that presented the code, with the code's nonce, with that user's e-mail address exactly when
  the scope \<open>email\<close> was granted, issued now and expiring after the configured lifetime.
\<close>

theorem id_token_says_grant:
  assumes "run_state (tokenHandler A r) w = (resp, w')" and "resp_body resp = TokenJSON t"
  shows "\<exists>client stored. stored \<in> set (rows Codes w) \<and> Code_CodeHash stored = Sum256 (FormValue r ''code'')
    \<and> client \<in> set (rows OAuthClients w) \<and> Client_ID client = Code_OAuthClientID stored
    \<and> (if ''openid'' \<in> set (Fields (Code_Scope stored))
       then \<exists>user k auth. user \<in> set (rows (Users (app_env A)) w) \<and> User_ID user = Code_UserID stored \<and> ticks w \<le> k
         \<and> (Code_CreatedAt stored \<noteq> zero_time \<longrightarrow> auth = Code_CreatedAt stored)
         \<and> Issuer_sign (app_idTokens A) (Marshal_claims
             (grant_claims (app_idTokens A) client stored user (clock (app_env A) k) auth)) = Inr (IDToken t)
       else IDToken t = [])"
  using assms
proof (rule token_success_parts)
  fix p client w1 stored w2 w3
  assume form: "token_form r = Inr p" and cl: "run_state (token_client A r p) w = (Inr client, w1)"
    and co: "run_state (token_code A p client) w1 = (Inr stored, w2)"
    and con: "run_state (token_consume A stored) w2 = (None, w3)"
    and ans: "run_state (token_answer A p client stored) w3 = (resp, w')"
  have w1: "w1 = counted 0 1 w" using token_client_InrD(4) [OF cl] .
  have "ticks w \<le> ticks w3" and users: "rows (Users (app_env A)) w3 = rows (Users (app_env A)) w"
    using token_consume_frame [of w2 A stored] con by (simp_all add: token_code_InrD(6) [OF co] w1 rows_def)
  then have mono: "ticks w3 \<le> k \<Longrightarrow> ticks w \<le> k" for k by simp
  show ?thesis
  proof (intro exI [of _ client] exI [of _ stored] conjI)
    show "stored \<in> set (rows Codes w)" "client \<in> set (rows OAuthClients w)"
      using token_code_InrD(1) [OF co] token_client_InrD(1) [OF cl] by (simp_all add: w1)
    show "Code_CodeHash stored = Sum256 (FormValue r ''code'')" "Client_ID client = Code_OAuthClientID stored"
      using token_code_InrD(2,3) [OF co] token_form_params [OF form] by (simp_all add: HashAuthorizationCode_def)
  qed (use ans assms(2) in \<open>rule token_answer_tokens, auto simp: hasScope_iff users dest: mono\<close>)
qed

lemma id_token_says_grant_witness:
  "\<exists>t w'. run_state (tokenHandler sample_app (exchange_request sample_verifier)) grant_world = (writeTokenResponse t, w')
     \<and> (\<exists>stored. stored \<in> set (rows Codes grant_world) \<and> Code_CodeHash stored = Sum256 ''code-1'')"
proof -
  obtain t w' where run: "run_state (tokenHandler sample_app (exchange_request sample_verifier)) grant_world = (writeTokenResponse t, w')"
    using run_exchange by blast
  moreover have "FormValue (exchange_request sample_verifier) ''code'' = ''code-1''"
    by (simp add: FormValue_def exchange_request_def sample_request_def Get_def)
  ultimately show ?thesis
    using id_token_says_grant [OF run writeTokenResponse_body(1)] by auto
qed

end
