(* ===== verification/Interleaving.thy ===== *)
theory Interleaving
  imports Token
begin

text \<open>
  Many token requests at once.  Each is a thread that runs the parts of \<open>tokenHandler\<close>, one database
  statement at a time; the threads of one server (or several, on the same database) advance in any
  order, requests arrive at any time, and between any two steps anything else may happen that only
  adds codes or consumes them.
\<close>

section \<open>Threads\<close>

text \<open>
  Where a request is in the handler.  An answered thread remembers the code it consumed, if any: the
  program does not need this, the statements below do.
\<close>

datatype thread =
    Arrived
  | Client_loaded token_params oauth_client
  | Code_loaded token_params oauth_client authorization_code
  | Code_consumed token_params oauth_client authorization_code
  | Answered response "authorization_code option"

definition token_step :: "app \<Rightarrow> request \<Rightarrow> thread \<Rightarrow> (world, thread) state" where
  "token_step A r th =
     (case th of
        Arrived \<Rightarrow>
          (case token_form r of
             Inl resp \<Rightarrow> ret (Answered resp None)
           | Inr p \<Rightarrow> do {
               c \<leftarrow> token_client A r p;
               ret (case c of Inl resp \<Rightarrow> Answered resp None | Inr client \<Rightarrow> Client_loaded p client)
             })
      | Client_loaded p client \<Rightarrow> do {
          s \<leftarrow> token_code A p client;
          ret (case s of Inl resp \<Rightarrow> Answered resp None | Inr stored \<Rightarrow> Code_loaded p client stored)
        }
      | Code_loaded p client stored \<Rightarrow> do {
          failed \<leftarrow> token_consume A stored;
          ret (case failed of Some resp \<Rightarrow> Answered resp None | None \<Rightarrow> Code_consumed p client stored)
        }
      | Code_consumed p client stored \<Rightarrow> do {
          resp \<leftarrow> token_answer A p client stored;
          ret (Answered resp (Some stored))
        }
      | Answered resp g \<Rightarrow> ret (Answered resp g))"

fun thread_answer :: "thread \<Rightarrow> response option" where
  "thread_answer (Answered resp _) = Some resp"
| "thread_answer _ = None"

fun loaded_code :: "thread \<Rightarrow> authorization_code option" where
  "loaded_code (Code_loaded _ _ c) = Some c"
| "loaded_code (Code_consumed _ _ c) = Some c"
| "loaded_code (Answered _ g) = g"
| "loaded_code _ = None"

fun consumed_code :: "thread \<Rightarrow> authorization_code option" where
  "consumed_code (Code_consumed _ _ c) = Some c"
| "consumed_code (Answered _ g) = g"
| "consumed_code _ = None"

text \<open>
  The handler is its parts: running the steps of one thread without interruption is
  \<open>tokenHandler\<close>, with the same answer and the same effect on the state.
\<close>

lemma tokenHandler_is_its_steps:
  "tokenHandler A r = do {
     a \<leftarrow> token_step A r Arrived;
     b \<leftarrow> token_step A r a;
     c \<leftarrow> token_step A r b;
     d \<leftarrow> token_step A r c;
     ret (the (thread_answer d))
   }"
  by (rule state_ext) (simp add: tokenHandler_def token_step_def split: sum.split option.split prod.split)

section \<open>The system\<close>

type_synonym system = "world \<times> (request \<times> thread) list"

inductive sys_step :: "app \<Rightarrow> system \<Rightarrow> system \<Rightarrow> bool" for A :: app where
  arrive: "sys_step A (w, ts) (w, ts @ [(r, Arrived)])"
| advance: "i < length ts \<Longrightarrow> ts ! i = (r, th) \<Longrightarrow> run_state (token_step A r th) w = (th', w')
      \<Longrightarrow> sys_step A (w, ts) (w', ts[i := (r, th')])"
| other: "codes_evolve w w' \<Longrightarrow> world_ok (app_env A) w' \<Longrightarrow> sys_step A (w, ts) (w', ts)"

inductive_cases sys_stepE: "sys_step A (w, ts) s'"

inductive sys_reachable :: "app \<Rightarrow> system \<Rightarrow> bool" for A :: app where
  init: "world_ok (app_env A) w \<Longrightarrow> sys_reachable A (w, [])"
| step: "sys_reachable A s \<Longrightarrow> sys_step A s s' \<Longrightarrow> sys_reachable A s'"

section \<open>What every reachable state satisfies\<close>

text \<open>The stored copy of a code a thread has read.\<close>

definition stored_as :: "world \<Rightarrow> authorization_code \<Rightarrow> authorization_code \<Rightarrow> bool" where
  "stored_as w c d \<longleftrightarrow> d \<in> set (rows Codes w) \<and> same_grant c d"

definition params_ok :: "request \<Rightarrow> thread \<Rightarrow> bool" where
  "params_ok r th = (case th of
     Client_loaded p _ \<Rightarrow> token_form r = Inr p | Code_loaded p _ _ \<Rightarrow> token_form r = Inr p
   | Code_consumed p _ _ \<Rightarrow> token_form r = Inr p | _ \<Rightarrow> True)"

definition thread_ok :: "world \<Rightarrow> request \<Rightarrow> thread \<Rightarrow> bool" where
  "thread_ok w r th \<longleftrightarrow>
     params_ok r th
     \<and> (\<forall>c. loaded_code th = Some c \<longrightarrow>
          Code_CodeHash c = Sum256 (FormValue r ''code'') \<and> (\<exists>d. stored_as w c d))
     \<and> (\<forall>c. consumed_code th = Some c \<longrightarrow> (\<exists>d. stored_as w c d \<and> Code_ConsumedAt d \<noteq> None))
     \<and> (\<forall>resp t. thread_answer th = Some resp \<longrightarrow> resp_body resp = TokenJSON t \<longrightarrow> consumed_code th \<noteq> None)"

text \<open>No two threads have consumed the same code.\<close>

definition exclusive :: "(request \<times> thread) list \<Rightarrow> bool" where
  "exclusive ts \<longleftrightarrow> (\<forall>i < length ts. \<forall>j < length ts. \<forall>c d. i \<noteq> j \<longrightarrow>
     consumed_code (snd (ts ! i)) = Some c \<longrightarrow> consumed_code (snd (ts ! j)) = Some d \<longrightarrow> Code_ID c \<noteq> Code_ID d)"

definition sys_ok :: "app \<Rightarrow> system \<Rightarrow> bool" where
  "sys_ok A s \<longleftrightarrow> world_ok (app_env A) (fst s)
     \<and> (\<forall>i < length (snd s). thread_ok (fst s) (fst (snd s ! i)) (snd (snd s ! i)))
     \<and> exclusive (snd s)"

lemma stored_as_evolves:
  assumes "codes_evolve w w'" and "stored_as w c d"
  obtains e where "stored_as w' c e" and "Code_ConsumedAt d \<noteq> None \<Longrightarrow> Code_ConsumedAt e \<noteq> None"
proof -
  obtain e where "e \<in> set (rows Codes w')" "same_grant d e" "Code_ConsumedAt d \<noteq> None \<longrightarrow> Code_ConsumedAt e = Code_ConsumedAt d"
    using assms unfolding codes_evolve_def stored_as_def by blast
  with assms(2) show thesis
    by (intro that [of e]) (auto simp: stored_as_def same_grant_def)
qed

lemma thread_okD:
  assumes "thread_ok w r th"
  shows "params_ok r th"
    and "loaded_code th = Some c \<Longrightarrow> Code_CodeHash c = Sum256 (FormValue r ''code'')"
    and "loaded_code th = Some c \<Longrightarrow> \<exists>d. stored_as w c d"
    and "consumed_code th = Some c \<Longrightarrow> \<exists>d. stored_as w c d \<and> Code_ConsumedAt d \<noteq> None"
    and "thread_answer th = Some resp \<Longrightarrow> resp_body resp = TokenJSON t \<Longrightarrow> consumed_code th \<noteq> None"
  using assms unfolding thread_ok_def by blast+

lemma thread_ok_evolves:
  assumes evolve: "codes_evolve w w'" and ok: "thread_ok w r th"
  shows "thread_ok w' r th"
  unfolding thread_ok_def
proof (intro conjI allI impI)
  fix c assume c: "loaded_code th = Some c"
  from thread_okD(3) [OF ok c] obtain d where "stored_as w c d" ..
  then show "\<exists>e. stored_as w' c e" by (rule stored_as_evolves [OF evolve]) blast
next
  fix c assume c: "consumed_code th = Some c"
  from thread_okD(4) [OF ok c] obtain d where d: "stored_as w c d" "Code_ConsumedAt d \<noteq> None" by blast
  from d(1) show "\<exists>e. stored_as w' c e \<and> Code_ConsumedAt e \<noteq> None"
    by (rule stored_as_evolves [OF evolve]) (use d(2) in blast)
qed (use thread_okD [OF ok] in blast)+

lemma token_parts_evolve: "codes_evolve w (snd (run_state (token_step A r th) w))"
proof (cases th)
  case Arrived
  then show ?thesis
    using token_client_codes [of A r _ w]
    by (auto simp: token_step_def split: sum.split prod.split intro!: codes_evolve_same) (metis snd_conv)
next
  case (Client_loaded p client)
  then show ?thesis
    using token_code_codes [of A p client w]
    by (auto simp: token_step_def split: prod.split intro!: codes_evolve_same)
next
  case (Code_loaded p client stored)
  then show ?thesis
    using token_consume_evolves [of w A stored] by (auto simp: token_step_def split: prod.split)
next
  case (Code_consumed p client stored)
  then show ?thesis
    using token_answer_codes [of A p client stored w]
    by (auto simp: token_step_def split: prod.split intro!: codes_evolve_same)
qed (simp add: token_step_def)

lemma sound_token_step: "sound E (token_step A r th)"
  unfolding token_step_def
  by (cases th) (simp_all, (intro schema_intros sound_token_parts)+)

lemma codes_unique_id:
  assumes "world_ok E w" and "stored_as w c d" and "stored_as w c' d'" and "Code_ID c = Code_ID c'"
  shows "d = d'"
proof (rule Codes.table_ok_unique_id)
  show "table_ok (m_schema Codes) (codes w)"
    using world_ok_models(9) [OF assms(1)] by (simp add: model_ok_def)
qed (use assms in \<open>simp_all add: stored_as_def rows_def model_defs schema_defs same_grant_def\<close>)

text \<open>A step keeps what holds of its own thread.\<close>

lemma token_step_thread_ok:
  assumes "thread_ok w r th" and ok: "world_ok (app_env A) w" and run: "run_state (token_step A r th) w = (th', w')"
  shows "thread_ok w' r th'"
proof (cases th)
  case Arrived
  show ?thesis
  proof (cases "token_form r")
    case (Inl resp)
    with run Arrived token_form_InlD show ?thesis
      by (auto simp: token_step_def thread_ok_def params_ok_def)
  next
    case (Inr p)
    obtain c v where c: "run_state (token_client A r p) w = (c, v)" by fastforce
    with run Arrived Inr have th': "th' = (case c of Inl resp \<Rightarrow> Answered resp None | Inr client \<Rightarrow> Client_loaded p client)"
      by (simp add: token_step_def)
    show ?thesis
      using token_client_InlD c Inr by (cases c) (auto simp: th' thread_ok_def params_ok_def)
  qed
next
  case (Client_loaded p client)
  obtain s v where s: "run_state (token_code A p client) w = (s, v)" by fastforce
  with run Client_loaded have th': "th' = (case s of Inl resp \<Rightarrow> Answered resp None | Inr stored \<Rightarrow> Code_loaded p client stored)"
    and w': "w' = v" by (simp_all add: token_step_def)
  have form: "token_form r = Inr p"
    using thread_okD(1) [OF assms(1)] by (simp add: Client_loaded params_ok_def)
  show ?thesis
  proof (cases s)
    case (Inl resp)
    with token_code_InlD s th' show ?thesis by (auto simp: thread_ok_def params_ok_def)
  next
    case (Inr stored)
    note code = token_code_InrD [OF s [unfolded Inr]]
    then have "stored_as w' stored stored" by (simp add: w' stored_as_def)
    with code(2) form token_form_params [OF form] show ?thesis
      by (auto simp: th' Inr thread_ok_def params_ok_def HashAuthorizationCode_def)
  qed
next
  case (Code_loaded p client stored)
  obtain f v where f: "run_state (token_consume A stored) w = (f, v)" by fastforce
  with run Code_loaded have th': "th' = (case f of Some resp \<Rightarrow> Answered resp None | None \<Rightarrow> Code_consumed p client stored)"
    and w': "w' = v" by (simp_all add: token_step_def)
  show ?thesis
  proof (cases f)
    case (Some resp)
    with f token_consume_SomeD(1) [of A stored w resp v] show ?thesis
      by (auto simp: th' thread_ok_def params_ok_def token_error_defs)
  next
    case None
    have "loaded_code th = Some stored" by (simp add: Code_loaded)
    from thread_okD(2,3) [OF assms(1) this] obtain d where hash: "Code_CodeHash stored = Sum256 (FormValue r ''code'')"
      and d: "d \<in> set (rows Codes w)" "same_grant stored d" by (auto simp: stored_as_def)
    then have "Code_ID d = Code_ID stored" by (simp add: same_grant_def)
    from Consume_success(3) [OF token_consume_None [OF f [unfolded None]] ok d(1) this]
    obtain e where "e \<in> set (rows Codes v)" "same_grant d e" "Code_ConsumedAt e \<noteq> None" by auto
    with d(2) have "stored_as w' stored e \<and> Code_ConsumedAt e \<noteq> None"
      by (simp add: w' stored_as_def same_grant_def)
    with hash thread_okD(1) [OF assms(1)] show ?thesis
      by (auto simp: th' None Code_loaded thread_ok_def params_ok_def)
  qed
next
  case (Code_consumed p client stored)
  obtain resp v where v: "run_state (token_answer A p client stored) w = (resp, v)" by fastforce
  with run Code_consumed have th': "th' = Answered resp (Some stored)" and w': "w' = v"
    by (simp_all add: token_step_def)
  have "codes_evolve w w'"
    using token_answer_codes [of A p client stored w] v w' by (simp add: codes_evolve_same)
  from thread_ok_evolves [OF this assms(1)] show ?thesis
    by (simp add: th' Code_consumed thread_ok_def params_ok_def)
next
  case (Answered resp g)
  with run assms(1) show ?thesis by (simp add: token_step_def)
qed

text \<open>A step that makes its thread a consumer found the stored code unconsumed.\<close>

lemma token_step_consumes:
  assumes "thread_ok w r th" and ok: "world_ok (app_env A) w" and run: "run_state (token_step A r th) w = (th', w')"
    and "consumed_code th' = Some c" and "consumed_code th \<noteq> Some c"
  shows "\<exists>d. stored_as w c d \<and> Code_ConsumedAt d = None"
proof -
  obtain p client where th: "th = Code_loaded p client c" and f: "run_state (token_consume A c) w = (None, w')"
    using assms(3-5)
    by (cases th) (auto simp: token_step_def split: sum.splits option.splits prod.splits)
  then have "loaded_code th = Some c" by simp
  from thread_okD(3) [OF assms(1) this] obtain d where d: "d \<in> set (rows Codes w)" "same_grant c d"
    by (auto simp: stored_as_def)
  then have "Code_ID d = Code_ID c" by (simp add: same_grant_def)
  from Consume_success(1) [OF token_consume_None [OF f] ok d(1) this] d show ?thesis
    by (auto simp: stored_as_def)
qed

lemma exclusiveD:
  "exclusive ts \<Longrightarrow> i < length ts \<Longrightarrow> j < length ts \<Longrightarrow> i \<noteq> j \<Longrightarrow> consumed_code (snd (ts ! i)) = Some c \<Longrightarrow>
     consumed_code (snd (ts ! j)) = Some d \<Longrightarrow> Code_ID c \<noteq> Code_ID d"
  unfolding exclusive_def by blast

lemma exclusiveI:
  assumes "\<And>i j c d. i < length ts \<Longrightarrow> j < length ts \<Longrightarrow> i \<noteq> j \<Longrightarrow> consumed_code (snd (ts ! i)) = Some c \<Longrightarrow>
     consumed_code (snd (ts ! j)) = Some d \<Longrightarrow> Code_ID c \<noteq> Code_ID d"
  shows "exclusive ts"
  unfolding exclusive_def using assms by blast

lemma sys_okD:
  assumes "sys_ok A (w, ts)"
  shows "world_ok (app_env A) w" and "i < length ts \<Longrightarrow> thread_ok w (fst (ts ! i)) (snd (ts ! i))"
    and "exclusive ts"
  using assms by (simp_all add: sys_ok_def)

lemma exclusive_update:
  assumes "exclusive ts" and "i < length ts"
    and new: "\<And>j c d. j < length ts \<Longrightarrow> j \<noteq> i \<Longrightarrow> consumed_code (snd (ts ! j)) = Some d \<Longrightarrow>
               consumed_code (snd x) = Some c \<Longrightarrow> Code_ID c \<noteq> Code_ID d"
  shows "exclusive (ts[i := x])"
proof (rule exclusiveI)
  fix j k c d
  assume *: "j < length (ts[i := x])" "k < length (ts[i := x])" "j \<noteq> k"
    "consumed_code (snd (ts[i := x] ! j)) = Some c" "consumed_code (snd (ts[i := x] ! k)) = Some d"
  consider "j = i" | "k = i" | "j \<noteq> i" "k \<noteq> i" by blast
  then show "Code_ID c \<noteq> Code_ID d"
  proof cases
    case 1
    with * new [of k d c] show ?thesis by simp
  next
    case 2
    with * new [of j c d] show ?thesis by simp
  next
    case 3
    with * exclusiveD [OF assms(1), of j k c d] show ?thesis by simp
  qed
qed

lemma sys_ok_advance:
  assumes ok: "sys_ok A (w, ts)" and i: "i < length ts" "ts ! i = (r, th)"
    and run: "run_state (token_step A r th) w = (th', w')"
  shows "sys_ok A (w', ts[i := (r, th')])"
proof -
  note w = sys_okD(1) [OF ok]
  have th: "thread_ok w r th" using sys_okD(2) [OF ok i(1)] i(2) by simp
  have evolve: "codes_evolve w w'"
    using token_parts_evolve [of w A r th] run by simp
  have "world_ok (app_env A) w'"
    using soundD [OF sound_token_step w run] by (simp add: advances_def)
  moreover have "thread_ok w' (fst (ts[i := (r, th')] ! j)) (snd (ts[i := (r, th')] ! j))" if "j < length ts" for j
    using that token_step_thread_ok [OF th w run] thread_ok_evolves [OF evolve sys_okD(2) [OF ok that]]
    by (cases "j = i") simp_all
  moreover have "exclusive (ts[i := (r, th')])"
  proof (rule exclusive_update [OF sys_okD(3) [OF ok] i(1)])
    fix j c d
    assume j: "j < length ts" "j \<noteq> i" "consumed_code (snd (ts ! j)) = Some d" and "consumed_code (snd (r, th')) = Some c"
    then have c: "consumed_code th' = Some c" by simp
    show "Code_ID c \<noteq> Code_ID d"
    proof (cases "consumed_code th = Some c")
      case True
      with exclusiveD [OF sys_okD(3) [OF ok] i(1) j(1)] i j show ?thesis by simp
    next
      case False
      from token_step_consumes [OF th w run c False] obtain e where e: "stored_as w c e" "Code_ConsumedAt e = None" by blast
      from thread_okD(4) [OF sys_okD(2) [OF ok j(1)] j(3)]
      obtain f where f: "stored_as w d f" "Code_ConsumedAt f \<noteq> None" by blast
      show ?thesis
        using codes_unique_id [OF w e(1) f(1)] e(2) f(2) by auto
    qed
  qed
  ultimately show ?thesis by (simp add: sys_ok_def)
qed

lemma sys_ok_arrive:
  assumes "sys_ok A (w, ts)"
  shows "sys_ok A (w, ts @ [(r, Arrived)])"
proof -
  have "thread_ok w r Arrived" by (simp add: thread_ok_def params_ok_def)
  then have "thread_ok w (fst ((ts @ [(r, Arrived)]) ! i)) (snd ((ts @ [(r, Arrived)]) ! i))" if "i < Suc (length ts)" for i
    using that sys_okD(2) [OF assms] by (cases "i < length ts") (simp_all add: nth_append less_Suc_eq)
  moreover have "exclusive (ts @ [(r, Arrived)])"
  proof (rule exclusiveI)
    fix i j c d
    assume *: "i \<noteq> j" "consumed_code (snd ((ts @ [(r, Arrived)]) ! i)) = Some c"
      "consumed_code (snd ((ts @ [(r, Arrived)]) ! j)) = Some d"
      "i < length (ts @ [(r, Arrived)])" "j < length (ts @ [(r, Arrived)])"
    then have "i < length ts" "j < length ts"
      by (auto simp: nth_append less_Suc_eq split: if_splits)
    with * exclusiveD [OF sys_okD(3) [OF assms], of i j c d] show "Code_ID c \<noteq> Code_ID d"
      by (simp add: nth_append)
  qed
  ultimately show ?thesis using sys_okD(1) [OF assms] by (simp add: sys_ok_def)
qed

lemma sys_ok_step:
  assumes "sys_step A s s'" and "sys_ok A s"
  shows "sys_ok A s'"
  using assms
proof (cases rule: sys_step.cases)
  case (arrive w ts r)
  with sys_ok_arrive assms(2) show ?thesis by simp
next
  case (advance i ts r th w th' w')
  with sys_ok_advance assms(2) show ?thesis by blast
next
  case (other w w' ts)
  with assms(2) thread_ok_evolves [OF other(3)] show ?thesis by (simp add: sys_ok_def)
qed

lemma sys_reachable_ok:
  assumes "sys_reachable A s"
  shows "sys_ok A s"
  using assms
proof (induction rule: sys_reachable.induct)
  case (init w)
  then show ?case by (simp add: sys_ok_def exclusive_def)
next
  case (step s s')
  then show ?case using sys_ok_step by blast
qed

section \<open>Properties\<close>

text \<open>
  C1.  A code is redeemed at most once under any interleaving: in every state that any number of
  concurrent token requests can reach, two different requests that presented the same code have not
  both been answered with tokens.
\<close>

theorem concurrent_single_redemption:
  assumes "sys_reachable A (w, ts)" and "i < length ts" and "j < length ts" and "i \<noteq> j"
    and "ts ! i = (r, Answered resp g)" and "ts ! j = (r', Answered resp' g')"
    and "FormValue r ''code'' = FormValue r' ''code''"
  shows "\<not> (resp_body resp = TokenJSON t \<and> resp_body resp' = TokenJSON t')"
proof
  assume tok: "resp_body resp = TokenJSON t \<and> resp_body resp' = TokenJSON t'"
  note ok = sys_reachable_ok [OF assms(1)]
  have thi: "thread_ok w r (Answered resp g)" and thj: "thread_ok w r' (Answered resp' g')"
    using sys_okD(2) [OF ok assms(2)] sys_okD(2) [OF ok assms(3)] assms(5,6) by simp_all
  from thread_okD(5) [OF thi, of resp t] tok obtain c where c: "g = Some c" by auto
  from thread_okD(5) [OF thj, of resp' t'] tok obtain d where d: "g' = Some d" by auto
  note g = c d
  have loaded: "loaded_code (Answered resp g) = Some c" "loaded_code (Answered resp' g') = Some d"
    using g by simp_all
  from thread_okD(3) [OF thi loaded(1)] obtain e where "stored_as w c e" ..
  moreover from thread_okD(3) [OF thj loaded(2)] obtain f where "stored_as w d f" ..
  ultimately have ef: "stored_as w c e" "stored_as w d f" .
  have "Code_CodeHash c = Code_CodeHash d"
    using thread_okD(2) [OF thi loaded(1)] thread_okD(2) [OF thj loaded(2)] assms(7) by simp
  with ef have "e = f"
    by (intro codes_unique_hash [OF sys_okD(1) [OF ok]]) (auto simp: stored_as_def same_grant_def)
  with ef have "Code_ID c = Code_ID d" by (simp add: stored_as_def same_grant_def)
  with exclusiveD [OF sys_okD(3) [OF ok] assms(2-4), of c d] assms(5,6) g show False by simp
qed

text \<open>Two requests racing for one code: the first takes it, the second is refused.\<close>

lemma sys_run_thread:
  assumes "sys_reachable A (w, ts)" and "i < length ts" and "ts ! i = (r, Arrived)"
  shows "\<exists>g. sys_reachable A (snd (run_state (tokenHandler A r) w),
                 ts[i := (r, Answered (fst (run_state (tokenHandler A r) w)) g)])"
proof -
  obtain a w1 b w2 c w3 d w4 where runs: "run_state (token_step A r Arrived) w = (a, w1)"
    "run_state (token_step A r a) w1 = (b, w2)" "run_state (token_step A r b) w2 = (c, w3)"
    "run_state (token_step A r c) w3 = (d, w4)"
    by (meson surj_pair)
  let ?ts = "\<lambda>th. ts[i := (r, th)]"
  have adv: "sys_reachable A (v, ?ts th) \<Longrightarrow> run_state (token_step A r th) v = (th', v') \<Longrightarrow> sys_reachable A (v', ?ts th')"
    for v th th' v'
    using sys_reachable.step [OF _ sys_step.advance [of i "?ts th" r th A v th' v']] assms(2) by simp
  have "?ts Arrived = ts" using assms(3) by (metis list_update_id)
  with assms(1) have "sys_reachable A (w, ?ts Arrived)" by simp
  with runs adv have reach: "sys_reachable A (w4, ?ts d)" by blast
  have answered: "thread_answer d \<noteq> None"
    using runs by (auto simp: token_step_def split: sum.splits option.splits thread.splits prod.splits)
  then obtain resp g where d: "d = Answered resp g" by (cases d) auto
  have "run_state (tokenHandler A r) w = (resp, w4)"
    using tokenHandler_is_its_steps [of A r] runs d by simp
  with reach d show ?thesis by auto
qed

lemma concurrent_single_redemption_witness:
  "\<exists>w ts t resp' g g'. sys_reachable sample_app (w, ts) \<and> length ts = 2
     \<and> ts ! 0 = (exchange_request sample_verifier, Answered (writeTokenResponse t) g)
     \<and> ts ! 1 = (exchange_request sample_verifier, Answered resp' g')
     \<and> (\<forall>t'. resp_body resp' \<noteq> TokenJSON t')"
proof -
  let ?r = "exchange_request sample_verifier"
  have "sys_reachable sample_app (grant_world, [])"
    using sys_reachable.init [of sample_app grant_world] grant_world_ok by simp
  from sys_reachable.step [OF this sys_step.arrive [of _ _ _ ?r]]
  have "sys_reachable sample_app (grant_world, [(?r, Arrived)])" by simp
  from sys_reachable.step [OF this sys_step.arrive [of _ _ _ ?r]]
  have start: "sys_reachable sample_app (grant_world, [(?r, Arrived), (?r, Arrived)])" by simp
  obtain t w1 where run1: "run_state (tokenHandler sample_app ?r) grant_world = (writeTokenResponse t, w1)"
    using run_exchange by blast
  obtain resp w2 where run2: "run_state (tokenHandler sample_app ?r) w1 = (resp, w2)" by fastforce
  have "\<exists>g. sys_reachable sample_app (w1, [(?r, Answered (writeTokenResponse t) g), (?r, Arrived)])"
    using sys_run_thread [OF start, of 0 ?r] by (simp add: run1)
  then obtain g where 1: "sys_reachable sample_app (w1, [(?r, Answered (writeTokenResponse t) g), (?r, Arrived)])" ..
  have "\<exists>g'. sys_reachable sample_app (w2, [(?r, Answered (writeTokenResponse t) g), (?r, Answered resp g')])"
    using sys_run_thread [OF 1, of 1 ?r] by (simp add: run2)
  then obtain g' where 2: "sys_reachable sample_app (w2, [(?r, Answered (writeTokenResponse t) g), (?r, Answered resp g')])" ..
  have "\<forall>t'. resp_body resp \<noteq> TokenJSON t'"
    using concurrent_single_redemption [OF 2, of 0 1 ?r "writeTokenResponse t" g ?r resp g'] by simp
  with 2 show ?thesis
    by (intro exI [of _ w2] exI [of _ "[(?r, Answered (writeTokenResponse t) g), (?r, Answered resp g')]"]
        exI [of _ t] exI [of _ resp] exI [of _ g] exI [of _ g']) simp
qed

end
