(* ===== verification/Go_Unicode.thy ===== *)
theory Go_Unicode
  imports Go_Json Models
begin

text \<open>
  The operations of the packages strings, strconv and unicode whose answer on text that is not ASCII
  rests on Unicode's tables: lower-casing and quoting.  The tables are fields of the outside world;
  on ASCII text the operations are written out.
\<close>

section \<open>strings.ToLower\<close>

definition ascii_lower :: "char \<Rightarrow> char" where
  "ascii_lower c = (if 65 \<le> (of_char c :: nat) \<and> (of_char c :: nat) \<le> 90 then char_of ((of_char c :: nat) + 32) else c)"

definition ToLower :: "env \<Rightarrow> string \<Rightarrow> string" where
  "ToLower E s = (if plain_ascii s then map ascii_lower s else unicode_lower E s)"

section \<open>strconv.Quote (\%q)\<close>

definition quote_byte :: "char \<Rightarrow> string" where
  "quote_byte c =
     (if c = CHR 0x22 then [CHR 0x5C, CHR 0x22]
      else if c = CHR 0x5C then [CHR 0x5C, CHR 0x5C]
      else if c = CHR 0x07 then [CHR 0x5C, CHR ''a'']
      else if c = CHR 0x08 then [CHR 0x5C, CHR ''b'']
      else if c = CHR 0x0C then [CHR 0x5C, CHR ''f'']
      else if c = CHR 0x0A then [CHR 0x5C, CHR ''n'']
      else if c = CHR 0x0D then [CHR 0x5C, CHR ''r'']
      else if c = CHR 0x09 then [CHR 0x5C, CHR ''t'']
      else if c = CHR 0x0B then [CHR 0x5C, CHR ''v'']
      else if c < CHR 0x20 \<or> c = CHR 0x7F then
        [CHR 0x5C, CHR ''x'', lower_hex (of_char c div 16), lower_hex (of_char c mod 16)]
      else [c])"

definition Quote :: "env \<Rightarrow> string \<Rightarrow> string" where
  "Quote E s = CHR 0x22 # (if plain_ascii s then concat (map quote_byte s) else unicode_quote E s) @ [CHR 0x22]"

section \<open>Texts\<close>

lemma ascii_lower_plain: "c < CHR 0x80 \<Longrightarrow> ascii_lower c < CHR 0x80"
  by (auto simp: ascii_lower_def less_char_def)

lemma plain_ascii_Cons [simp]: "plain_ascii (c # s) \<longleftrightarrow> c < CHR 0x80 \<and> plain_ascii s"
  by (simp add: plain_ascii_def)

lemma plain_ascii_Nil [simp]: "plain_ascii []"
  by (simp add: plain_ascii_def)

lemma plain_ascii_append [simp]: "plain_ascii (s @ t) \<longleftrightarrow> plain_ascii s \<and> plain_ascii t"
  by (auto simp: plain_ascii_def)

lemma plain_ascii_lower [simp]: "plain_ascii s \<Longrightarrow> plain_ascii (map ascii_lower s)"
  by (auto simp: plain_ascii_def ascii_lower_plain)

lemma ascii_lower_idem [simp]: "ascii_lower (ascii_lower c) = ascii_lower c"
  by (auto simp: ascii_lower_def)

lemma ToLower_Nil [simp]: "ToLower E [] = []"
  by (simp add: ToLower_def)

end
