(* ===== verification/Go_Url_Parse.thy ===== *)
theory Go_Url_Parse
  imports Go_Url Go_Unicode
begin

text \<open>
  \<open>url.Parse\<close>, \<open>URL.String\<close> and \<open>URL.Hostname\<close> of Go's package net/url, as the source uses them:
  on redirect URIs, origins and the issuer.  Whether the text between brackets is an IPv6 literal is
  decided by the package net/netip, the field \<open>ipv6_literal\<close> of the outside world.
\<close>

section \<open>Escaping by component\<close>

datatype encoding = encodePath | encodeHost | encodeZone | encodeUserPassword | encodeFragment

definition alphanumeric :: "char \<Rightarrow> bool" where
  "alphanumeric c \<longleftrightarrow> (let n = of_char c :: nat in
     (97 \<le> n \<and> n \<le> 122) \<or> (65 \<le> n \<and> n \<le> 90) \<or> (48 \<le> n \<and> n \<le> 57))"

definition shouldEscape :: "char \<Rightarrow> encoding \<Rightarrow> bool" where
  "shouldEscape c mode =
     (if alphanumeric c then False
      else if mode \<in> set [encodeHost, encodeZone] \<and> (c \<in> set ''!$&()*+,;=:[]<>'' \<or> c = CHR 0x27 \<or> c = CHR 0x22) then False
      else if c \<in> set ''-_.~'' then False
      else if c \<in> set ''$&+,/:;=?@'' then
        (case mode of
           encodePath \<Rightarrow> c = CHR ''?''
         | encodeUserPassword \<Rightarrow> c \<in> set ''@/?:''
         | encodeFragment \<Rightarrow> False
         | _ \<Rightarrow> True)
      else if mode = encodeFragment \<and> c \<in> set ''!()*'' then False
      else True)"

fun escape :: "encoding \<Rightarrow> string \<Rightarrow> string" where
  "escape mode [] = []"
| "escape mode (c # s) =
     (if shouldEscape c mode
      then CHR ''%'' # upper_hex (of_char c div 16) # upper_hex (of_char c mod 16) # escape mode s
      else c # escape mode s)"

fun unescape :: "encoding \<Rightarrow> string \<Rightarrow> string option" where
  "unescape mode [] = Some []"
| "unescape mode (c # s) =
     (if c = CHR ''%'' then
        (case s of
           a # b # t \<Rightarrow>
             (case (hex_value a, hex_value b) of
                (Some x, Some y) \<Rightarrow>
                  if mode = encodeHost \<and> x < 8 \<and> [a, b] \<noteq> ''25'' then None
                  else if mode = encodeZone \<and> [a, b] \<noteq> ''25'' \<and> 16 * x + y \<noteq> 32
                       \<and> shouldEscape (char_of (16 * x + y)) encodeHost then None
                  else map_option ((#) (char_of (16 * x + y))) (unescape mode t)
              | _ \<Rightarrow> None)
         | _ \<Rightarrow> None)
      else if mode \<in> set [encodeHost, encodeZone] \<and> c < CHR 0x80 \<and> shouldEscape c mode then None
      else map_option ((#) c) (unescape mode s))"

definition validEncoded :: "string \<Rightarrow> encoding \<Rightarrow> bool" where
  "validEncoded s mode = list_all (\<lambda>c. c \<in> set ''!$&()*+,;=:@[]%'' \<or> c = CHR 0x27 \<or> \<not> shouldEscape c mode) s"

section \<open>The structure URL\<close>

record userinfo =
  Userinfo_username :: string
  Userinfo_password :: "string option"

record url =
  URL_Scheme :: string
  URL_Opaque :: string
  URL_User :: "userinfo option"
  URL_Host :: string
  URL_Path :: string
  URL_RawPath :: string
  URL_OmitHost :: bool
  URL_ForceQuery :: bool
  URL_RawQuery :: string
  URL_Fragment :: string
  URL_RawFragment :: string

definition empty_url :: url where
  "empty_url = \<lparr>URL_Scheme = [], URL_Opaque = [], URL_User = None, URL_Host = [], URL_Path = [],
     URL_RawPath = [], URL_OmitHost = False, URL_ForceQuery = False, URL_RawQuery = [],
     URL_Fragment = [], URL_RawFragment = []\<rparr>"

section \<open>Parsing\<close>

text \<open>\<open>getScheme\<close>: \<open>None\<close> is the error for a missing scheme, \<open>acc\<close> what has been read, last byte first.\<close>

fun get_scheme :: "string \<Rightarrow> string \<Rightarrow> string \<Rightarrow> (string \<times> string) option" where
  "get_scheme raw acc [] = Some ([], raw)"
| "get_scheme raw acc (c # s) =
     (let n = of_char c :: nat in
      if (97 \<le> n \<and> n \<le> 122) \<or> (65 \<le> n \<and> n \<le> 90) then get_scheme raw (c # acc) s
      else if (48 \<le> n \<and> n \<le> 57) \<or> c \<in> set ''+-.'' then
        (if acc = [] then Some ([], raw) else get_scheme raw (c # acc) s)
      else if c = CHR '':'' then (if acc = [] then None else Some (rev acc, s))
      else Some ([], raw))"

definition validOptionalPort :: "string \<Rightarrow> bool" where
  "validOptionalPort p =
     (case p of [] \<Rightarrow> True | c # s \<Rightarrow> c = CHR '':'' \<and> list_all (\<lambda>d. 48 \<le> (of_char d :: nat) \<and> (of_char d :: nat) \<le> 57) s)"

definition validUserinfo :: "string \<Rightarrow> bool" where
  "validUserinfo s = list_all (\<lambda>c. alphanumeric c \<or> c \<in> set ''-._:~!$&()*+,;=%@'' \<or> c = CHR 0x27) s"

text \<open>Before and after the last occurrence of a byte.\<close>

fun cut_last :: "char \<Rightarrow> string \<Rightarrow> (string \<times> string) option" where
  "cut_last d [] = None"
| "cut_last d (c # s) =
     (case cut_last d s of
        Some (a, b) \<Rightarrow> Some (c # a, b)
      | None \<Rightarrow> if c = d then Some ([], s) else None)"

text \<open>Before and from the first \<open>%25\<close>, the start of a zone.\<close>

fun cut_zone :: "string \<Rightarrow> (string \<times> string) option" where
  "cut_zone [] = None"
| "cut_zone (c # s) =
     (if take 3 (c # s) = ''%25'' then Some ([], c # s)
      else map_option (\<lambda>(a, b). (c # a, b)) (cut_zone s))"

text \<open>
  A bracket opens at the start of a host or nowhere, and a host without brackets has one colon at most; only
  PostgreSQL's URLs may have several, and then the last one is before the port.
\<close>

definition parse_host :: "env \<Rightarrow> string \<Rightarrow> string \<Rightarrow> string option" where
  "parse_host E scheme host =
     (if CHR ''['' \<in> set (tl host) then None
      else if HasPrefix host ''['' then
        (case cut_last (CHR '']'') host of
           None \<Rightarrow> None
         | Some (inner, colonPort) \<Rightarrow>
             if \<not> validOptionalPort colonPort then None
             else
               let unescaped = (case cut_zone inner of
                    Some (h1, h2) \<Rightarrow>
                      (case (unescape encodeHost h1, unescape encodeZone h2) of
                         (Some a, Some b) \<Rightarrow> Some (a @ b) | _ \<Rightarrow> None)
                  | None \<Rightarrow> unescape encodeHost inner)
               in case unescaped of
                    None \<Rightarrow> None
                  | Some h \<Rightarrow> if ipv6_literal E (drop 1 h) then Some (h @ '']'' @ colonPort) else None)
      else
        (case (if scheme = ''postgresql'' \<or> scheme = ''postgres'' then cut_last (CHR '':'') host
               else case Cut (CHR '':'') host of (name, port, found) \<Rightarrow> if found then Some (name, port) else None) of
           Some (_, port) \<Rightarrow> if validOptionalPort (CHR '':'' # port) then unescape encodeHost host else None
         | None \<Rightarrow> unescape encodeHost host))"

definition parse_userinfo :: "string \<Rightarrow> userinfo option" where
  "parse_userinfo s =
     (if \<not> validUserinfo s then None
      else case Cut (CHR '':'') s of (user, password, found) \<Rightarrow>
        (case (unescape encodeUserPassword user, unescape encodeUserPassword password) of
           (Some u, Some p) \<Rightarrow> Some \<lparr>Userinfo_username = u, Userinfo_password = (if found then Some p else None)\<rparr>
         | _ \<Rightarrow> None))"

definition parse_authority :: "env \<Rightarrow> string \<Rightarrow> string \<Rightarrow> (userinfo option \<times> string) option" where
  "parse_authority E scheme authority =
     (case cut_last (CHR ''@'') authority of
        None \<Rightarrow> map_option (\<lambda>h. (None, h)) (parse_host E scheme authority)
      | Some (user, host) \<Rightarrow>
          (case (parse_host E scheme host, parse_userinfo user) of
             (Some h, Some u) \<Rightarrow> Some (Some u, h) | _ \<Rightarrow> None))"

definition set_path :: "string \<Rightarrow> url \<Rightarrow> url option" where
  "set_path p u = map_option (\<lambda>path. u\<lparr>URL_Path := path,
     URL_RawPath := (if p = escape encodePath path then [] else p)\<rparr>) (unescape encodePath p)"

definition set_fragment :: "string \<Rightarrow> url \<Rightarrow> url option" where
  "set_fragment f u = map_option (\<lambda>frag. u\<lparr>URL_Fragment := frag,
     URL_RawFragment := (if f = escape encodeFragment frag then [] else f)\<rparr>) (unescape encodeFragment f)"

text \<open>The split of the query off what follows the scheme.\<close>

definition split_query :: "string \<Rightarrow> string \<times> string \<times> bool" where
  "split_query rest =
     (if rest \<noteq> [] \<and> last rest = CHR ''?'' \<and> CHR ''?'' \<notin> set (butlast rest) then (butlast rest, [], True)
      else case Cut (CHR ''?'') rest of (a, b, _) \<Rightarrow> (a, b, False))"

text \<open>\<open>strings.Cut(s, "/")\<close> that leaves the slash with what follows.\<close>

definition split_slash :: "string \<Rightarrow> string \<times> string" where
  "split_slash s = (takeWhile (\<lambda>c. c \<noteq> CHR ''/'') s, dropWhile (\<lambda>c. c \<noteq> CHR ''/'') s)"

definition parse_no_fragment :: "env \<Rightarrow> string \<Rightarrow> url option" where
  "parse_no_fragment E raw =
     (if list_ex (\<lambda>c. c < CHR 0x20 \<or> c = CHR 0x7F) raw then None
      else if raw = ''*'' then Some (empty_url\<lparr>URL_Path := ''*''\<rparr>)
      else case get_scheme raw [] raw of
        None \<Rightarrow> None
      | Some (scheme, rest0) \<Rightarrow>
          case split_query rest0 of (rest, query, force) \<Rightarrow>
            let u = empty_url\<lparr>URL_Scheme := map ascii_lower scheme, URL_RawQuery := query, URL_ForceQuery := force\<rparr> in
            if \<not> HasPrefix rest ''/'' \<and> scheme \<noteq> [] then Some (u\<lparr>URL_Opaque := rest\<rparr>)
            else if \<not> HasPrefix rest ''/'' \<and> CHR '':'' \<in> set (fst (split_slash rest)) then None
            else if (scheme \<noteq> [] \<or> \<not> HasPrefix rest ''///'') \<and> HasPrefix rest ''//'' then
              (case split_slash (drop 2 rest) of (authority, path) \<Rightarrow>
                 case parse_authority E (URL_Scheme u) authority of
                   None \<Rightarrow> None
                 | Some (user, host) \<Rightarrow> set_path path (u\<lparr>URL_User := user, URL_Host := host\<rparr>))
            else set_path rest (u\<lparr>URL_OmitHost := (scheme \<noteq> [] \<and> HasPrefix rest ''/'')\<rparr>))"

definition Parse :: "env \<Rightarrow> string \<Rightarrow> url option" where
  "Parse E raw =
     (case Cut (CHR ''#'') raw of (before, frag, _) \<Rightarrow>
        case parse_no_fragment E before of
          None \<Rightarrow> None
        | Some u \<Rightarrow> if frag = [] then Some u else set_fragment frag u)"

section \<open>Reading and printing a URL\<close>

definition IsAbs :: "url \<Rightarrow> bool" where
  "IsAbs u \<longleftrightarrow> URL_Scheme u \<noteq> []"

definition Hostname :: "url \<Rightarrow> string" where
  "Hostname u =
     (let h = (case cut_last (CHR '':'') (URL_Host u) of
                 Some (a, b) \<Rightarrow> if validOptionalPort (CHR '':'' # b) then a else URL_Host u
               | None \<Rightarrow> URL_Host u)
      in if HasPrefix h ''['' \<and> h \<noteq> [] \<and> last h = CHR '']'' then butlast (tl h) else h)"

definition EscapedPath :: "url \<Rightarrow> string" where
  "EscapedPath u =
     (if URL_RawPath u \<noteq> [] \<and> validEncoded (URL_RawPath u) encodePath
         \<and> unescape encodePath (URL_RawPath u) = Some (URL_Path u) then URL_RawPath u
      else if URL_Path u = ''*'' then ''*'' else escape encodePath (URL_Path u))"

definition EscapedFragment :: "url \<Rightarrow> string" where
  "EscapedFragment u =
     (if URL_RawFragment u \<noteq> [] \<and> validEncoded (URL_RawFragment u) encodeFragment
         \<and> unescape encodeFragment (URL_RawFragment u) = Some (URL_Fragment u) then URL_RawFragment u
      else escape encodeFragment (URL_Fragment u))"

definition Userinfo_String :: "userinfo \<Rightarrow> string" where
  "Userinfo_String i = escape encodeUserPassword (Userinfo_username i)
     @ (case Userinfo_password i of None \<Rightarrow> [] | Some p \<Rightarrow> CHR '':'' # escape encodeUserPassword p)"

definition authority_string :: "url \<Rightarrow> string" where
  "authority_string u =
     (if URL_Scheme u = [] \<and> URL_Host u = [] \<and> URL_User u = None then []
      else if URL_OmitHost u \<and> URL_Host u = [] \<and> URL_User u = None then []
      else (if URL_Host u \<noteq> [] \<or> URL_Path u \<noteq> [] \<or> URL_User u \<noteq> None then ''//'' else [])
        @ (case URL_User u of None \<Rightarrow> [] | Some i \<Rightarrow> Userinfo_String i @ ''@'')
        @ escape encodeHost (URL_Host u))"

definition url_String :: "url \<Rightarrow> string" where
  "url_String u =
     (let scheme = (if URL_Scheme u = [] then [] else URL_Scheme u @ '':'');
          path = EscapedPath u;
          auth = authority_string u;
          lead = (if path \<noteq> [] \<and> hd path \<noteq> CHR ''/'' \<and> URL_Host u \<noteq> [] then ''/'' else []);
          dot = (if scheme @ auth @ lead = [] \<and> CHR '':'' \<in> set (fst (split_slash path)) then ''./'' else [])
      in scheme @ (if URL_Opaque u \<noteq> [] then URL_Opaque u else auth @ lead @ dot @ path)
         @ (if URL_ForceQuery u \<or> URL_RawQuery u \<noteq> [] then CHR ''?'' # URL_RawQuery u else [])
         @ (if URL_Fragment u \<noteq> [] then CHR ''#'' # EscapedFragment u else []))"

end
