(* ===== verification/Redirect_URIs.thy ===== *)
theory Redirect_URIs
  imports Oauth Go_Url_Parse
begin

text \<open>
  What a registered redirect URI must look like (internal/oauth/validate.go).  The lemmas say what
  an accepted URI is made of and which URIs of the plain form scheme, host, path are accepted.
\<close>

section \<open>The check\<close>

datatype redirect_uri_error =
    ErrRedirectURINotAbsolute
  | ErrRedirectURIInsecure
  | ErrRedirectURIHasFragment
  | RedirectURIWildcard string
  | RedirectURIUnparsable string

definition redirect_uri_message :: "env \<Rightarrow> redirect_uri_error \<Rightarrow> string" where
  "redirect_uri_message E e =
     (case e of
        ErrRedirectURINotAbsolute \<Rightarrow> ''redirect URI must be absolute''
      | ErrRedirectURIInsecure \<Rightarrow> ''redirect URI must use https (http is allowed for localhost only)''
      | ErrRedirectURIHasFragment \<Rightarrow> ''redirect URI must not contain a fragment''
      | RedirectURIWildcard raw \<Rightarrow> ''redirect URI '' @ Quote E raw @ '' must not contain a wildcard''
      | RedirectURIUnparsable raw \<Rightarrow> ''parse redirect URI '' @ Quote E raw @ '': '' @ url_error E raw)"

definition isLoopbackHost :: "env \<Rightarrow> string \<Rightarrow> bool" where
  "isLoopbackHost E host \<longleftrightarrow> ToLower E host \<in> set [''localhost'', ''127.0.0.1'', ''::1'']"

definition ValidateRedirectURI :: "env \<Rightarrow> string \<Rightarrow> redirect_uri_error option" where
  "ValidateRedirectURI E raw0 =
     (let raw = TrimSpace raw0 in
      if raw = [] then Some ErrRedirectURINotAbsolute
      else if Contains raw ''*'' then Some (RedirectURIWildcard raw)
      else case Parse E raw of
        None \<Rightarrow> Some (RedirectURIUnparsable raw)
      | Some u \<Rightarrow>
          if \<not> IsAbs u \<or> URL_Host u = [] then Some ErrRedirectURINotAbsolute
          else if URL_Fragment u \<noteq> [] then Some ErrRedirectURIHasFragment
          else if URL_Scheme u = ''https'' then None
          else if URL_Scheme u = ''http'' \<and> isLoopbackHost E (Hostname u) then None
          else Some ErrRedirectURIInsecure)"

text \<open>What an accepted URI looks like once it is parsed.\<close>

definition acceptable_url :: "env \<Rightarrow> url \<Rightarrow> bool" where
  "acceptable_url E u \<longleftrightarrow>
     URL_Host u \<noteq> [] \<and> URL_Fragment u = []
     \<and> (URL_Scheme u = ''https'' \<or> URL_Scheme u = ''http'' \<and> isLoopbackHost E (Hostname u))"

lemma ValidateRedirectURI_None_iff:
  "ValidateRedirectURI E raw = None \<longleftrightarrow>
     TrimSpace raw \<noteq> [] \<and> \<not> Contains (TrimSpace raw) ''*''
     \<and> (\<exists>u. Parse E (TrimSpace raw) = Some u \<and> acceptable_url E u)"
  by (auto simp: ValidateRedirectURI_def acceptable_url_def IsAbs_def Let_def split: option.splits)

section \<open>Trimming and cutting plain text\<close>

lemma space_width_plain: "c < CHR 0x80 \<Longrightarrow> \<not> ascii_space c \<Longrightarrow> space_width (c # s) = 0"
  by simp

lemma TrimSpace_plain:
  assumes "plain_ascii s" and "\<forall>c \<in> set s. \<not> ascii_space c"
  shows "TrimSpace s = s"
proof -
  have left: "trim_left s = s"
    using assms by (cases s) (simp_all add: trim_left.simps)
  have "space_width_rev (rev s) = 0"
  proof -
    have zero: "space_width t = 0" if "set t \<subseteq> set s" for t
      using that assms by (cases t) (auto simp: plain_ascii_def)
    have "set (rev (take n (rev s))) \<subseteq> set s" for n
      using set_take_subset [of n "rev s"] by auto
    then show ?thesis unfolding space_width_rev_def by (simp add: zero del: set_rev)
  qed
  then show ?thesis
    by (simp add: TrimSpace_def left trim_right_rev.simps)
qed

lemma Contains_single: "Contains s [c] \<longleftrightarrow> c \<in> set s"
  by (induction s) (auto simp: HasPrefix_def)

lemma Cut_set: "Cut d s = (a, b, f) \<Longrightarrow> set a \<subseteq> set s \<and> set b \<subseteq> set s"
  by (induction s arbitrary: a) (auto split: if_splits prod.splits)

lemma cut_last_None [simp]: "d \<notin> set s \<Longrightarrow> cut_last d s = None"
  by (induction s) auto

section \<open>The scheme of a parsed text\<close>

lemma get_scheme_split:
  "get_scheme raw acc s = Some (scheme, rest) \<Longrightarrow> raw = rev acc @ s \<Longrightarrow>
     scheme = [] \<and> rest = raw \<or> raw = scheme @ CHR '':'' # rest"
  by (induction raw acc s rule: get_scheme.induct) (auto simp: Let_def split: if_splits)

lemma set_path_frame: "set_path p u = Some v \<Longrightarrow> URL_Scheme v = URL_Scheme u \<and> URL_Host v = URL_Host u"
  by (auto simp: set_path_def)

lemma set_fragment_frame: "set_fragment f u = Some v \<Longrightarrow> URL_Scheme v = URL_Scheme u \<and> URL_Host v = URL_Host u"
  by (auto simp: set_fragment_def)

lemma parse_no_fragment_scheme:
  assumes "parse_no_fragment E raw = Some u"
  shows "URL_Scheme u = [] \<or> (\<exists>scheme rest. get_scheme raw [] raw = Some (scheme, rest) \<and> URL_Scheme u = map ascii_lower scheme)"
  using assms
  by (auto simp: parse_no_fragment_def Let_def empty_url_def dest!: set_path_frame split: if_splits option.splits prod.splits)

lemma Cut_split: "Cut d s = (a, b, f) \<Longrightarrow> (if f then s = a @ d # b else s = a \<and> b = []) \<and> d \<notin> set a"
  by (induction s arbitrary: a) (auto split: if_splits prod.splits)

lemma Parse_scheme:
  assumes "Parse E raw = Some u" and "URL_Scheme u \<noteq> []"
  shows "\<exists>scheme rest. raw = scheme @ CHR '':'' # rest \<and> URL_Scheme u = map ascii_lower scheme"
proof -
  obtain before frag f where cut: "Cut (CHR ''#'') raw = (before, frag, f)"
    by (metis prod_cases3)
  obtain v where v: "parse_no_fragment E before = Some v" "URL_Scheme v = URL_Scheme u"
    using assms(1) cut by (auto simp: Parse_def dest: set_fragment_frame split: if_splits option.splits)
  obtain scheme rest where s: "get_scheme before [] before = Some (scheme, rest)" "URL_Scheme u = map ascii_lower scheme"
    using parse_no_fragment_scheme [OF v(1)] v(2) assms(2) by auto
  have "before = scheme @ CHR '':'' # rest"
    using get_scheme_split [OF s(1)] s(2) assms(2) by auto
  moreover have "raw = before \<or> raw = before @ CHR ''#'' # frag"
    using Cut_split [OF cut] by (auto split: if_splits)
  ultimately show ?thesis using s(2) by auto
qed

section \<open>Plain URIs\<close>

text \<open>Bytes that no component of a URL escapes, and texts of such bytes with slashes.\<close>

definition plain_byte :: "char \<Rightarrow> bool" where
  "plain_byte c \<longleftrightarrow> alphanumeric c \<or> c = CHR ''-'' \<or> c = CHR ''.''"

definition plain_path_byte :: "char \<Rightarrow> bool" where
  "plain_path_byte c \<longleftrightarrow> plain_byte c \<or> c = CHR ''/''"

lemma alphanumeric_ascii: "alphanumeric c \<Longrightarrow> CHR 0x20 < c \<and> c < CHR 0x7F"
  by (auto simp: alphanumeric_def Let_def less_char_def)

lemma plain_byte_ascii: "plain_path_byte c \<Longrightarrow> CHR 0x20 < c \<and> c < CHR 0x7F"
  using alphanumeric_ascii by (auto simp: plain_path_byte_def plain_byte_def)

lemma not_alphanumeric [simp]:
  "\<not> alphanumeric (CHR '':'')" "\<not> alphanumeric (CHR ''@'')" "\<not> alphanumeric (CHR ''['')" "\<not> alphanumeric (CHR ''?'')"
  "\<not> alphanumeric (CHR ''#'')" "\<not> alphanumeric (CHR ''*'')" "\<not> alphanumeric (CHR ''/'')" "\<not> alphanumeric (CHR ''%'')"
  by (simp_all add: alphanumeric_def)

lemma plain_path_byte_not:
  "plain_path_byte c \<Longrightarrow> c \<notin> {CHR '':'', CHR ''@'', CHR ''['', CHR ''?'', CHR ''#'', CHR ''*'', CHR ''%''}"
  by (auto simp: plain_path_byte_def plain_byte_def)

lemma plain_byte_not: "plain_byte c \<Longrightarrow> c \<noteq> CHR ''/''"
  by (auto simp: plain_byte_def)

lemma plain_not_escaped: "plain_path_byte c \<Longrightarrow> \<not> shouldEscape c encodePath"
  "plain_byte c \<Longrightarrow> \<not> shouldEscape c encodeHost"
  by (auto simp: plain_path_byte_def plain_byte_def shouldEscape_def)

lemma unescape_plain:
  assumes "\<forall>c \<in> set s. c \<noteq> CHR ''%'' \<and> \<not> shouldEscape c mode"
  shows "unescape mode s = Some s"
  using assms by (induction s) auto

lemma parse_host_plain:
  assumes "\<forall>c \<in> set h. plain_byte c"
  shows "parse_host E scheme h = Some h"
proof -
  have "c \<noteq> CHR '':'' \<and> c \<noteq> CHR ''['' \<and> c \<noteq> CHR ''%''" if "c \<in> set h" for c
    using assms that plain_path_byte_not [of c] by (auto simp: plain_path_byte_def)
  then have no: "CHR '':'' \<notin> set h" "CHR ''['' \<notin> set h" "\<forall>c \<in> set h. c \<noteq> CHR ''%''"
    by blast+
  have "unescape encodeHost h = Some h"
    using no(3) assms plain_not_escaped(2) by (intro unescape_plain) blast
  moreover have "\<not> HasPrefix h ''[''"
    using no(2) by (cases h) (auto simp: HasPrefix_def)
  moreover have "CHR ''['' \<notin> set (tl h)" "cut_last (CHR '':'') h = None"
    using no(2) no(1) by (auto dest: list.set_sel(2) [rotated], metis list.sel(2) list.set_sel(2))
  ultimately show ?thesis using no(1) by (simp add: parse_host_def Cut_none)
qed

lemma set_path_plain: "\<forall>c \<in> set p. plain_path_byte c \<Longrightarrow> set_path p u = Some (u\<lparr>URL_Path := p, URL_RawPath := []\<rparr>)"
proof -
  assume p: "\<forall>c \<in> set p. plain_path_byte c"
  then have "unescape encodePath p = Some p"
    using plain_path_byte_not plain_not_escaped(1) by (intro unescape_plain) blast
  moreover from p have "escape encodePath p = p"
    by (induction p) (auto simp: plain_not_escaped(1))
  ultimately show ?thesis by (simp add: set_path_def)
qed

lemma split_query_none: "CHR ''?'' \<notin> set rest \<Longrightarrow> split_query rest = (rest, [], False)"
  by (cases rest rule: rev_cases) (auto simp: split_query_def Cut_none)

lemma not_plain_path_byte [simp]:
  "\<not> plain_path_byte (CHR '':'')" "\<not> plain_path_byte (CHR ''@'')" "\<not> plain_path_byte (CHR ''?'')"
  "\<not> plain_path_byte (CHR ''#'')"
  using plain_path_byte_not by blast+

lemma split_slash_plain: "\<forall>c \<in> set h. plain_byte c \<Longrightarrow> p = [] \<or> hd p = CHR ''/'' \<Longrightarrow> split_slash (h @ p) = (h, p)"
  by (cases p) (auto simp: split_slash_def takeWhile_append dropWhile_append dest: plain_byte_not)

lemma get_scheme_web:
  "get_scheme raw [] (''https:'' @ s) = Some (''https'', s)" "get_scheme raw [] (''http:'' @ s) = Some (''http'', s)"
  by simp_all

lemma lower_web: "map ascii_lower ''https'' = ''https''" "map ascii_lower ''http'' = ''http''"
  by (simp_all add: ascii_lower_def)

lemma Parse_plain:
  assumes s: "s = ''https'' \<or> s = ''http''" and h: "\<forall>c \<in> set h. plain_byte c"
    and p: "\<forall>c \<in> set p. plain_path_byte c" "p = [] \<or> hd p = CHR ''/''"
  shows "Parse E (s @ ''://'' @ h @ p) = Some (empty_url\<lparr>URL_Scheme := s, URL_Host := h, URL_Path := p\<rparr>)"
proof -
  let ?raw = "s @ ''://'' @ h @ p"
  have hp: "\<forall>c \<in> set (h @ p). plain_path_byte c"
    using h p(1) by (auto simp: plain_path_byte_def)
  then have no: "CHR ''#'' \<notin> set (h @ p)" "CHR ''?'' \<notin> set (h @ p)" "CHR ''@'' \<notin> set (h @ p)"
    using not_plain_path_byte by blast+
  have chars: "CHR ''#'' \<notin> set ?raw"
    using s no(1) by (elim disjE) simp_all
  have quest: "CHR ''?'' \<notin> set (''//'' @ h @ p)"
    using no(2) by simp
  have "\<not> (c < CHR 0x20 \<or> c = CHR 0x7F)" if "c \<in> set ?raw" for c
  proof -
    have "c \<in> set s \<or> c \<in> set ''://'' \<or> plain_path_byte c" using that hp by auto
    then show ?thesis using s plain_byte_ascii [of c] by (elim disjE) (auto simp: less_char_def)
  qed
  then have ctl: "\<not> list_ex (\<lambda>c. c < CHR 0x20 \<or> c = CHR 0x7F) ?raw"
    by (simp only: list_ex_iff) blast
  have scheme: "get_scheme ?raw [] ?raw = Some (s, ''//'' @ h @ p)"
    using s get_scheme_web [of ?raw "''//'' @ h @ p"] by auto
  have auth: "parse_authority E scheme h = Some (None, h)" for scheme
    using parse_host_plain [OF h] no(3) by (simp add: parse_authority_def)
  have "parse_no_fragment E ?raw = Some (empty_url\<lparr>URL_Scheme := s, URL_Host := h, URL_Path := p\<rparr>)"
    unfolding parse_no_fragment_def if_not_P [OF ctl] scheme option.case split_query_none [OF quest] prod.case
    using s by (elim disjE) (simp_all add: HasPrefix_def split_slash_plain [OF h p(2)] auth set_path_plain [OF p(1)]
        lower_web [simplified] empty_url_def Let_def)
  then show ?thesis
    unfolding Parse_def Cut_none [OF chars] by simp
qed

lemma plain_path_byte_calm: "plain_path_byte c \<Longrightarrow> c < CHR 0x80 \<and> \<not> ascii_space c \<and> c \<noteq> CHR ''*''"
proof -
  assume c: "plain_path_byte c"
  then have "CHR 0x20 < c" and "c < CHR 0x7F" by (simp_all add: plain_byte_ascii)
  moreover have "\<not> (CHR 0x20 < d)" if "ascii_space d" for d
    using that unfolding ascii_space_def by (auto simp: less_char_def)
  moreover have "CHR 0x7F < CHR 0x80" by (simp add: less_char_def)
  ultimately show ?thesis using plain_path_byte_not [OF c] by (blast intro: less_trans)
qed

lemma plain_ascii_plain: "\<forall>c \<in> set h. plain_byte c \<Longrightarrow> plain_ascii h"
  unfolding plain_ascii_def using plain_path_byte_calm plain_path_byte_def by blast

lemma plain_byte_lower: "\<forall>c \<in> set h. plain_byte c \<Longrightarrow> ToLower E h = map ascii_lower h"
  by (simp add: ToLower_def plain_ascii_plain)

lemma lower_not_colon: "\<forall>c \<in> set h. plain_byte c \<Longrightarrow> map ascii_lower h \<noteq> CHR '':'' # t"
proof
  assume h: "\<forall>c \<in> set h. plain_byte c" and eq: "map ascii_lower h = CHR '':'' # t"
  from eq obtain c where "c \<in> set h" and "ascii_lower c = CHR '':''" by (cases h) auto
  then have "plain_byte c" and "c = CHR '':'' \<or> char_of ((of_char c :: nat) + 32) = CHR '':'' \<and> 65 \<le> (of_char c :: nat) \<and> (of_char c :: nat) \<le> 90"
    using h by (auto simp: ascii_lower_def split: if_splits)
  then have "char_of ((of_char c :: nat) + 32) = CHR '':''" and "65 \<le> (of_char c :: nat)" and "(of_char c :: nat) \<le> 90"
    by (auto simp: plain_byte_def)
  moreover have "char_of (n + 32) \<noteq> CHR '':''" if "65 \<le> n" "n \<le> 90" for n :: nat
  proof
    assume "char_of (n + 32) = CHR '':''"
    then have "(of_char (char_of (n + 32)) :: nat) = of_char (CHR '':'')" by (rule arg_cong)
    then have "(n + 32) mod 256 = 58" unfolding of_char_of by simp
    with that show False by simp
  qed
  ultimately show False by blast
qed

lemma Hostname_plain: "\<forall>c \<in> set h. plain_byte c \<Longrightarrow> URL_Host u = h \<Longrightarrow> Hostname u = h"
proof -
  assume h: "\<forall>c \<in> set h. plain_byte c" and u: "URL_Host u = h"
  have "\<not> plain_byte (CHR '':'')" "\<not> plain_byte (CHR ''['')" by (simp_all add: plain_byte_def)
  with h have "CHR '':'' \<notin> set h" "\<not> HasPrefix h ''[''" by (auto simp: HasPrefix_iff)
  then show ?thesis by (simp add: Hostname_def u)
qed

lemma TrimSpace_plain_uri:
  assumes "s = ''https'' \<or> s = ''http''" and "\<forall>c \<in> set t. plain_path_byte c"
  shows "TrimSpace (s @ ''://'' @ t) = s @ ''://'' @ t" and "\<not> Contains (s @ ''://'' @ t) ''*''"
proof -
  have all: "c < CHR 0x80 \<and> \<not> ascii_space c \<and> c \<noteq> CHR ''*''" if "c \<in> set (s @ ''://'' @ t)" for c
  proof -
    have "c \<in> set s \<or> c \<in> set ''://'' \<or> c \<in> set t" using that by auto
    then show ?thesis
    proof (elim disjE)
      assume "c \<in> set s"
      with assms(1) show ?thesis by (elim disjE) (auto simp: ascii_space_def less_char_def)
    next
      assume "c \<in> set ''://''"
      then show ?thesis by (auto simp: ascii_space_def less_char_def)
    qed (use assms(2) plain_path_byte_calm in blast)
  qed
  then show "TrimSpace (s @ ''://'' @ t) = s @ ''://'' @ t"
    by (intro TrimSpace_plain) (auto simp only: plain_ascii_def)
  show "\<not> Contains (s @ ''://'' @ t) ''*''"
    unfolding Contains_single using all by blast
qed

lemma plain_uri_verdict:
  assumes "host \<noteq> []" and "\<forall>c \<in> set host. plain_byte c"
    and "\<forall>c \<in> set path. plain_path_byte c" and "path = [] \<or> hd path = CHR ''/''"
  shows "ValidateRedirectURI E (''https'' @ ''://'' @ host @ path) = None
    \<and> ValidateRedirectURI E (''http'' @ ''://'' @ host @ path) =
        (if map ascii_lower host = ''localhost'' \<or> map ascii_lower host = ''127.0.0.1'' then None
         else Some ErrRedirectURIInsecure)"
proof -
  have hp: "\<forall>c \<in> set (host @ path). plain_path_byte c"
    using assms(2,3) by (auto simp: plain_path_byte_def)
  have "map ascii_lower host \<noteq> ''::1''"
    using lower_not_colon [OF assms(2)] .
  then show ?thesis
    using assms(1) Parse_plain [OF _ assms(2-4)] TrimSpace_plain_uri [OF _ hp] Hostname_plain [OF assms(2)]
    by (auto simp: ValidateRedirectURI_def IsAbs_def empty_url_def isLoopbackHost_def plain_byte_lower [OF assms(2)]
        simp del: append.simps Contains.simps)
qed

section \<open>Properties\<close>

text \<open>
  The verdict on plain redirect URIs.  For a host of letters, digits, dots and hyphens and a path
  of such bytes and slashes, the https URI is accepted, and the http URI is accepted exactly when the
  host, in any case, is \<open>localhost\<close> or \<open>127.0.0.1\<close>; otherwise it is refused as insecure.
\<close>

theorem plain_redirect_uri_verdict:
  assumes "host \<noteq> []" and "\<forall>c \<in> set host. plain_byte c"
    and "\<forall>c \<in> set path. plain_path_byte c" and "path = [] \<or> hd path = CHR ''/''"
  shows "ValidateRedirectURI E (''https'' @ ''://'' @ host @ path) = None
    \<and> ValidateRedirectURI E (''http'' @ ''://'' @ host @ path) =
        (if map ascii_lower host = ''localhost'' \<or> map ascii_lower host = ''127.0.0.1'' then None
         else Some ErrRedirectURIInsecure)"
  using assms by (rule plain_uri_verdict)

theorem plain_redirect_uri_verdict_witness:
  "ValidateRedirectURI calm_env (''https'' @ ''://'' @ ''app.example'' @ ''/cb'') = None
   \<and> ValidateRedirectURI calm_env (''http'' @ ''://'' @ ''app.example'' @ ''/cb'') = Some ErrRedirectURIInsecure
   \<and> ValidateRedirectURI calm_env (''http'' @ ''://'' @ ''localhost'' @ ''/cb'') = None"
proof -
  have "\<forall>c \<in> set ''app.example''. plain_byte c" "\<forall>c \<in> set ''localhost''. plain_byte c" "\<forall>c \<in> set ''/cb''. plain_path_byte c"
    by (simp_all add: plain_byte_def plain_path_byte_def alphanumeric_def)
  then show ?thesis
    using plain_redirect_uri_verdict [of "''app.example''" "''/cb''" calm_env] plain_redirect_uri_verdict [of "''localhost''" "''/cb''" calm_env]
    by (simp add: ascii_lower_def)
qed

text \<open>
  C20.  What an accepted redirect URI is.  Trimmed of white space it starts with a scheme that is, in
  any case, https or http; it parses, names a host, and has neither a fragment nor an asterisk; with
  http the host is a loopback name.  So neither \<open>javascript:\<close> nor \<open>data:\<close> URIs nor relative ones are ever
  accepted.
\<close>

theorem accepted_redirect_uri:
  assumes "ValidateRedirectURI E raw = None"
  shows "\<exists>scheme rest u. TrimSpace raw = scheme @ CHR '':'' # rest
    \<and> (map ascii_lower scheme = ''https'' \<or> map ascii_lower scheme = ''http'' \<and> isLoopbackHost E (Hostname u))
    \<and> CHR ''*'' \<notin> set (TrimSpace raw) \<and> Parse E (TrimSpace raw) = Some u
    \<and> URL_Host u \<noteq> [] \<and> URL_Fragment u = []"
proof -
  from assms obtain u where u: "Parse E (TrimSpace raw) = Some u" "acceptable_url E u"
    and star: "\<not> Contains (TrimSpace raw) ''*''"
    by (auto simp: ValidateRedirectURI_None_iff)
  from u(2) have "URL_Scheme u \<noteq> []" by (auto simp: acceptable_url_def)
  with Parse_scheme [OF u(1)] u star show ?thesis
    by (fastforce simp: acceptable_url_def Contains_single)
qed

theorem accepted_redirect_uri_witness:
  "CHR ''*'' \<notin> set (TrimSpace (''https'' @ ''://'' @ ''app.example'' @ ''/cb''))"
proof -
  have "\<forall>c \<in> set ''app.example''. plain_byte c" "\<forall>c \<in> set ''/cb''. plain_path_byte c"
    by (simp_all add: plain_byte_def plain_path_byte_def alphanumeric_def)
  then have "ValidateRedirectURI calm_env (''https'' @ ''://'' @ ''app.example'' @ ''/cb'') = None"
    unfolding ValidateRedirectURI_None_iff
    using Parse_plain [of "''https''" "''app.example''" "''/cb''" calm_env] TrimSpace_plain_uri [of "''https''" "''app.example/cb''"]
    by (auto simp: acceptable_url_def empty_url_def plain_path_byte_def simp del: Contains.simps)
  then show ?thesis using accepted_redirect_uri by blast
qed

end
