(* ===== verification/Upstream.thy ===== *)
theory Upstream
  imports Oauth Go_Unicode
begin

text \<open>
  The upstream identity providers (internal/upstream/upstream.go): which are supported, how each is
  configured, the URL a browser is sent to, and the identity a sign-in yields.
\<close>

section \<open>Providers\<close>

definition SupportedProviders :: "string list" where
  "SupportedProviders = [''google'', ''github'']"

definition IsSupported :: "string \<Rightarrow> bool" where
  "IsSupported provider \<longleftrightarrow> list_ex (\<lambda>p. p = provider) SupportedProviders"

record upstream_config =
  Conf_Name :: string
  Conf_ClientID :: string
  Conf_ClientSecret :: string
  Conf_RedirectURL :: string
  Conf_AuthURL :: string
  Conf_TokenURL :: string
  Conf_UserInfoURL :: string
  Conf_EmailsURL :: string
  Conf_Issuer :: string
  Conf_Scopes :: "string list"
  Conf_UsePKCE :: bool
  Conf_OIDC :: bool

definition ConfigFor ::
    "env \<Rightarrow> string \<Rightarrow> string \<Rightarrow> string \<Rightarrow> string \<Rightarrow> goerr + upstream_config" where
  "ConfigFor E name clientID clientSecret redirectURL =
     (if name = ''google'' then Inr
        \<lparr>Conf_Name = name, Conf_ClientID = clientID, Conf_ClientSecret = clientSecret,
         Conf_RedirectURL = redirectURL,
         Conf_AuthURL = ''https://accounts.google.com/o/oauth2/v2/auth'',
         Conf_TokenURL = ''https://oauth2.googleapis.com/token'',
         Conf_UserInfoURL = [], Conf_EmailsURL = [],
         Conf_Issuer = ''https://accounts.google.com'',
         Conf_Scopes = [''openid'', ''email'', ''profile''], Conf_UsePKCE = True, Conf_OIDC = True\<rparr>
      else if name = ''github'' then Inr
        \<lparr>Conf_Name = name, Conf_ClientID = clientID, Conf_ClientSecret = clientSecret,
         Conf_RedirectURL = redirectURL,
         Conf_AuthURL = ''https://github.com/login/oauth/authorize'',
         Conf_TokenURL = ''https://github.com/login/oauth/access_token'',
         Conf_UserInfoURL = ''https://api.github.com/user'',
         Conf_EmailsURL = ''https://api.github.com/user/emails'',
         Conf_Issuer = [],
         Conf_Scopes = [''read:user'', ''user:email''], Conf_UsePKCE = False, Conf_OIDC = False\<rparr>
      else Inl (ErrText (''unsupported identity provider '' @ Quote E name)))"

record identity =
  Identity_Provider :: string
  Identity_Subject :: string
  Identity_Email :: string
  Identity_EmailVerified :: bool
  Identity_Name :: string

definition Client_AuthCodeURL :: "upstream_config \<Rightarrow> string \<Rightarrow> string \<Rightarrow> string" where
  "Client_AuthCodeURL c state codeChallenge =
     (let query = [(''client_id'', Conf_ClientID c), (''redirect_uri'', Conf_RedirectURL c),
                   (''response_type'', ''code''), (''scope'', Join '' '' (Conf_Scopes c)), (''state'', state)];
          query = (if Conf_UsePKCE c \<and> codeChallenge \<noteq> []
                   then Set_value ''code_challenge_method'' ''S256'' (Set_value ''code_challenge'' codeChallenge query)
                   else query)
      in Conf_AuthURL c @ ''?'' @ Encode query)"

section \<open>Facts\<close>

lemma IsSupported_iff: "IsSupported p \<longleftrightarrow> p = ''google'' \<or> p = ''github''"
  by (auto simp: IsSupported_def SupportedProviders_def)

lemma ConfigFor_supported: "(\<exists>c. ConfigFor E name cid secret url = Inr c) \<longleftrightarrow> IsSupported name"
  by (auto simp: ConfigFor_def IsSupported_iff)

end
