(* ===== verification/App_Service.thy ===== *)
theory App_Service
  imports Redirect_URIs Repositories Upstream
begin

text \<open>
  Registration of applications and clients (internal/service/app\_service.go): normalisation of the
  input, its validation field by field, and the generation of client credentials.
\<close>

section \<open>Validation errors\<close>

text \<open>The messages of a \<open>ValidationError\<close> by field; a field keeps its first message.\<close>

type_synonym validation_fields = "(string \<times> string) list"

definition ValidationError_add :: "validation_fields \<Rightarrow> string \<Rightarrow> string \<Rightarrow> validation_fields" where
  "ValidationError_add verr field message =
     (if map_of verr field = None then verr @ [(field, message)] else verr)"

definition ValidationError_empty :: "validation_fields \<Rightarrow> bool" where
  "ValidationError_empty verr \<longleftrightarrow> length verr = 0"

definition ValidationError_Error :: "validation_fields \<Rightarrow> string" where
  "ValidationError_Error verr =
     ''validation failed: '' @ Join ''; '' (map (\<lambda>(k, message). k @ '': '' @ message) (sort_key fst verr))"

definition validationErrorFor :: "string \<Rightarrow> string \<Rightarrow> validation_fields" where
  "validationErrorFor field message = ValidationError_add [] field message"

section \<open>Input\<close>

definition clientTypes :: "string list" where
  "clientTypes = [''confidential'', ''public'']"

definition environments :: "string list" where
  "environments = [''local'', ''staging'', ''production'']"

record client_input =
  In_ClientType :: string
  In_RedirectURIs :: "string list"
  In_PostLogoutRedirectURIs :: "string list"
  In_AllowedOrigins :: "string list"
  In_Environment :: string
  In_TokenEndpointAuthMethod :: string

record register_app_input =
  Reg_Name :: string
  Reg_Description :: string
  Reg_FirstParty :: bool
  Reg_AllowedScopes :: "string list"
  Reg_Client :: client_input

record register_app_output =
  Out_App :: application
  Out_Client :: oauth_client
  Out_ClientSecret :: string

record app_metadata_input =
  Meta_Name :: string
  Meta_Description :: string
  Meta_FirstParty :: bool
  Meta_AllowedScopes :: "string list"

section \<open>Normalisation\<close>

text \<open>\<open>out\<close> collects the scopes seen, which are also the map \<open>seen\<close>; a message on the left is the error.\<close>

fun normalize_scopes_from :: "env \<Rightarrow> string list \<Rightarrow> string list \<Rightarrow> string + string list" where
  "normalize_scopes_from E out [] = Inr out"
| "normalize_scopes_from E out (raw # rest) =
     (let scope = ToLower E (TrimSpace raw) in
      if scope = [] \<or> scope \<in> set out then normalize_scopes_from E out rest
      else if \<not> IsSupportedScope scope then Inl (''Unsupported scope '' @ Quote E scope)
      else normalize_scopes_from E (out @ [scope]) rest)"

definition normalizeScopes :: "env \<Rightarrow> string list \<Rightarrow> string + string list" where
  "normalizeScopes E scopes = normalize_scopes_from E [] (concat (map Fields scopes))"

text \<open>\<open>strings.ReplaceAll(s, "\\r\\n", "\\n")\<close>.\<close>

fun replace_crlf :: "string \<Rightarrow> string" where
  "replace_crlf (a # b # s) =
     (if a = CHR 0x0D \<and> b = CHR 0x0A then CHR 0x0A # replace_crlf s else a # replace_crlf (b # s))"
| "replace_crlf s = s"

definition normalizeList :: "string list \<Rightarrow> string list" where
  "normalizeList values =
     filter (\<lambda>v. v \<noteq> []) (map TrimSpace (concat (map (\<lambda>raw. Fields (replace_crlf raw)) values)))"

section \<open>Validation\<close>

fun validateURIs :: "env \<Rightarrow> validation_fields \<Rightarrow> string \<Rightarrow> string list \<Rightarrow> validation_fields" where
  "validateURIs E verr field [] = verr"
| "validateURIs E verr field (uri # uris) =
     (case ValidateRedirectURI E uri of
        Some e \<Rightarrow> ValidationError_add verr field (redirect_uri_message E e)
      | None \<Rightarrow> validateURIs E verr field uris)"

text \<open>\<open>Some\<close> is the text of the error.\<close>

definition validateOrigin :: "env \<Rightarrow> string \<Rightarrow> string option" where
  "validateOrigin E raw =
     (case Parse E raw of
        None \<Rightarrow> Some (''invalid origin '' @ Quote E raw)
      | Some u \<Rightarrow>
          if \<not> IsAbs u \<or> URL_Host u = [] \<or> (URL_Scheme u \<noteq> ''https'' \<and> URL_Scheme u \<noteq> ''http'') then
            Some (''origin '' @ Quote E raw @ '' must be an absolute http(s) origin'')
          else if URL_Path u \<noteq> [] \<and> URL_Path u \<noteq> ''/'' then
            Some (''origin '' @ Quote E raw @ '' must not contain a path'')
          else None)"

text \<open>The loop over the origins stops at the first one that is refused.\<close>

fun validate_origins :: "env \<Rightarrow> validation_fields \<Rightarrow> string list \<Rightarrow> validation_fields" where
  "validate_origins E verr [] = verr"
| "validate_origins E verr (origin # origins) =
     (case validateOrigin E origin of
        Some message \<Rightarrow> ValidationError_add verr ''allowed_origins'' message
      | None \<Rightarrow> validate_origins E verr origins)"

section \<open>Credentials\<close>

definition generateClientID :: "env \<Rightarrow> (world, goerr + string) state" where
  "generateClientID E = do {
     b \<leftarrow> RandRead E 16;
     ret (case b of Inl e \<Rightarrow> Inl e | Inr b \<Rightarrow> Inr (hex_encode b))
   }"

definition generateClientSecret :: "env \<Rightarrow> (world, goerr + string) state" where
  "generateClientSecret E = do {
     b \<leftarrow> RandRead E 32;
     ret (case b of Inl e \<Rightarrow> Inl e | Inr b \<Rightarrow> Inr (RawURLEncode b))
   }"

section \<open>Building the rows\<close>

text \<open>The part of \<open>buildClient\<close> before the credentials: the errors found and the normalised fields.\<close>

record client_fields =
  CF_ClientType :: string
  CF_Environment :: string
  CF_RedirectURIs :: "string list"
  CF_PostLogoutURIs :: "string list"
  CF_Origins :: "string list"

definition client_fields_of :: "env \<Rightarrow> client_input \<Rightarrow> client_fields" where
  "client_fields_of E input =
     (let environment = ToLower E (TrimSpace (In_Environment input)) in
      \<lparr>CF_ClientType = ToLower E (TrimSpace (In_ClientType input)),
       CF_Environment = (if environment = [] then ''local'' else environment),
       CF_RedirectURIs = normalizeList (In_RedirectURIs input),
       CF_PostLogoutURIs = normalizeList (In_PostLogoutRedirectURIs input),
       CF_Origins = normalizeList (In_AllowedOrigins input)\<rparr>)"

definition client_errors :: "env \<Rightarrow> client_fields \<Rightarrow> validation_fields" where
  "client_errors E f =
     (let v0 = [];
          v1 = (if CF_ClientType f \<notin> set clientTypes
                then ValidationError_add v0 ''client_type'' ''Client type must be confidential or public'' else v0);
          v2 = (if CF_Environment f \<notin> set environments
                then ValidationError_add v1 ''environment'' ''Environment must be local, staging, or production'' else v1);
          v3 = (if length (CF_RedirectURIs f) = 0
                then ValidationError_add v2 ''redirect_uris'' ''At least one redirect URI is required'' else v2);
          v4 = validateURIs E v3 ''redirect_uris'' (CF_RedirectURIs f);
          v5 = validateURIs E v4 ''post_logout_redirect_uris'' (CF_PostLogoutURIs f)
      in validate_origins E v5 (CF_Origins f))"

definition auth_method :: "client_input \<Rightarrow> string \<Rightarrow> string" where
  "auth_method input clientType =
     (let m = TrimSpace (In_TokenEndpointAuthMethod input);
          m = (if m = [] then (if clientType = ''confidential'' then ''client_secret_basic'' else ''none'') else m)
      in if clientType = ''public'' then ''none'' else m)"

definition new_client :: "string \<Rightarrow> string \<Rightarrow> string \<Rightarrow> client_fields \<Rightarrow> oauth_client" where
  "new_client clientID secretHash authMethod f =
     \<lparr>Client_ID = 0, Client_ApplicationID = 0, Client_ClientID = clientID,
      Client_ClientSecretHash = secretHash, Client_ClientType = CF_ClientType f,
      Client_TokenEndpointAuthMethod = authMethod, Client_RedirectURIs = CF_RedirectURIs f,
      Client_PostLogoutRedirectURIs = CF_PostLogoutURIs f, Client_AllowedOrigins = CF_Origins f,
      Client_Environment = CF_Environment f, Client_CreatedAt = zero_time, Client_UpdatedAt = zero_time\<rparr>"

definition buildClient :: "env \<Rightarrow> client_input \<Rightarrow> (world, validation_fields + oauth_client \<times> string) state" where
  "buildClient E input =
     (let f = client_fields_of E input;
          verr = client_errors E f
      in if \<not> ValidationError_empty verr then ret (Inl verr)
         else do {
           let authMethod = auth_method input (CF_ClientType f);
           clientID \<leftarrow> generateClientID E;
           case clientID of
             Inl e \<Rightarrow> ret (Inl (validationErrorFor ''client_id'' ''Failed to generate client ID''))
           | Inr clientID \<Rightarrow>
               if CF_ClientType f = ''confidential'' then do {
                 secret \<leftarrow> generateClientSecret E;
                 ret (case secret of
                        Inl e \<Rightarrow> Inl (validationErrorFor ''client_secret'' ''Failed to generate client secret'')
                      | Inr secret \<Rightarrow> Inr (new_client clientID (Sum256 secret) authMethod f, secret))
               }
               else ret (Inr (new_client clientID [] authMethod f, []))
         })"

definition name_errors :: "string \<Rightarrow> validation_fields \<Rightarrow> validation_fields" where
  "name_errors name verr = (if name = [] then ValidationError_add verr ''name'' ''App name is required'' else verr)"

definition scope_errors :: "string + string list \<Rightarrow> validation_fields \<Rightarrow> validation_fields" where
  "scope_errors scopes verr =
     (case scopes of Inl message \<Rightarrow> ValidationError_add verr ''allowed_scopes'' message | Inr _ \<Rightarrow> verr)"

definition scope_list :: "string + string list \<Rightarrow> string list" where
  "scope_list scopes = (case scopes of Inl _ \<Rightarrow> [] | Inr out \<Rightarrow> out)"

text \<open>The loop over the client's errors: a map, whose order does not matter as its fields differ.\<close>

definition add_client_errors :: "validation_fields \<Rightarrow> validation_fields \<Rightarrow> validation_fields" where
  "add_client_errors clientErr verr =
     fold (\<lambda>(field, message) v. ValidationError_add v (''client_'' @ field) message) clientErr verr"

definition buildRegistration ::
    "env \<Rightarrow> register_app_input \<Rightarrow> (world, goerr + application \<times> oauth_client \<times> string) state" where
  "buildRegistration E input = do {
     let name = TrimSpace (Reg_Name input);
     let scopes = normalizeScopes E (Reg_AllowedScopes input);
     let v = scope_errors scopes (name_errors name []);
     built \<leftarrow> buildClient E (Reg_Client input);
     let verr = (case built of Inl clientErr \<Rightarrow> add_client_errors clientErr v | Inr _ \<Rightarrow> v);
     ret (case built of
            Inl _ \<Rightarrow> Inl (ErrValidation verr)
          | Inr (client, secret) \<Rightarrow>
              if \<not> ValidationError_empty verr then Inl (ErrValidation verr)
              else Inr (\<lparr>App_ID = 0, App_Name = name, App_Description = TrimSpace (Reg_Description input),
                         App_FirstParty = Reg_FirstParty input, App_AllowedScopes = scope_list scopes,
                         App_CreatedAt = zero_time, App_UpdatedAt = zero_time\<rparr>, client, secret))
   }"

section \<open>The service\<close>

definition AppService_RegisterApp ::
    "env \<Rightarrow> register_app_input \<Rightarrow> (world, goerr + register_app_output) state" where
  "AppService_RegisterApp E input = do {
     built \<leftarrow> buildRegistration E input;
     case built of
       Inl e \<Rightarrow> ret (Inl e)
     | Inr (a, client, secret) \<Rightarrow> do {
         r \<leftarrow> gormApplicationRepo_CreateWithClient E a client;
         ret (case r of
                Inl e \<Rightarrow> Inl (ErrWrapped ''create application with client: '' e)
              | Inr (a', client') \<Rightarrow> Inr \<lparr>Out_App = a', Out_Client = client', Out_ClientSecret = secret\<rparr>)
       }
   }"

definition AppService_UpdateApp ::
    "env \<Rightarrow> application \<Rightarrow> app_metadata_input \<Rightarrow> (world, goerr + application) state" where
  "AppService_UpdateApp E a input =
     (let name = TrimSpace (Meta_Name input);
          scopes = normalizeScopes E (Meta_AllowedScopes input);
          verr = scope_errors scopes (name_errors name [])
      in if \<not> ValidationError_empty verr then ret (Inl (ErrValidation verr))
         else gormApplicationRepo_Update E
           (a\<lparr>App_Name := name, App_Description := TrimSpace (Meta_Description input),
              App_FirstParty := Meta_FirstParty input, App_AllowedScopes := scope_list scopes\<rparr>))"

definition AppService_CreateClient ::
    "env \<Rightarrow> int \<Rightarrow> client_input \<Rightarrow> (world, goerr + oauth_client \<times> string) state" where
  "AppService_CreateClient E applicationID input = do {
     built \<leftarrow> buildClient E input;
     case built of
       Inl verr \<Rightarrow> ret (Inl (ErrValidation verr))
     | Inr (client, secret) \<Rightarrow> do {
         created \<leftarrow> gormClientRepo_Create E (client\<lparr>Client_ApplicationID := applicationID\<rparr>);
         ret (case created of
                Inl e \<Rightarrow> Inl (ErrWrapped ''create client: '' e)
              | Inr c \<Rightarrow> Inr (c, secret))
       }
   }"

section \<open>When validation finds nothing\<close>

lemma ValidationError_add_not_Nil [simp]: "ValidationError_add verr field message \<noteq> []"
  by (cases verr) (auto simp: ValidationError_add_def)

lemma ValidationError_empty_iff [simp]: "ValidationError_empty verr \<longleftrightarrow> verr = []"
  by (simp add: ValidationError_empty_def)

lemma validateURIs_Nil_iff:
  "validateURIs E verr field uris = [] \<longleftrightarrow> verr = [] \<and> (\<forall>u \<in> set uris. ValidateRedirectURI E u = None)"
  by (induction uris) (auto split: option.splits)

lemma validate_origins_Nil_iff:
  "validate_origins E verr origins = [] \<longleftrightarrow> verr = [] \<and> (\<forall>u \<in> set origins. validateOrigin E u = None)"
  by (induction origins) (auto split: option.splits)

lemma client_errors_Nil_iff:
  "client_errors E f = [] \<longleftrightarrow>
     CF_ClientType f \<in> set clientTypes \<and> CF_Environment f \<in> set environments \<and> CF_RedirectURIs f \<noteq> []
     \<and> (\<forall>u \<in> set (CF_RedirectURIs f) \<union> set (CF_PostLogoutURIs f). ValidateRedirectURI E u = None)
     \<and> (\<forall>u \<in> set (CF_Origins f). validateOrigin E u = None)"
  by (auto simp: client_errors_def validateURIs_Nil_iff validate_origins_Nil_iff Let_def split: if_splits)

lemma scope_errors_Nil_iff: "scope_errors scopes verr = [] \<longleftrightarrow> verr = [] \<and> (\<exists>out. scopes = Inr out)"
  by (auto simp: scope_errors_def split: sum.split)

lemma name_errors_Nil_iff: "name_errors name verr = [] \<longleftrightarrow> verr = [] \<and> name \<noteq> []"
  by (auto simp: name_errors_def)

lemma add_client_errors_not_Nil: "clientErr \<noteq> [] \<Longrightarrow> add_client_errors clientErr verr \<noteq> []"
proof -
  have keep: "v \<noteq> [] \<Longrightarrow> fold (\<lambda>(field, message) v. ValidationError_add v (g field) message) es v \<noteq> []" for g :: "string \<Rightarrow> string" and es v
  proof (induction es arbitrary: v)
    case (Cons e es)
    then show ?case by (cases e) simp
  qed simp
  assume "clientErr \<noteq> []"
  then obtain field message es where "clientErr = (field, message) # es" by (metis list.exhaust surj_pair)
  then show ?thesis using keep [of "ValidationError_add verr (''client_'' @ field) message"] by (simp add: add_client_errors_def)
qed

section \<open>Scopes\<close>

lemma normalize_scopes_from_Inr:
  assumes "normalize_scopes_from E out raws = Inr res" and "distinct out" and "set out \<subseteq> set SupportedScopes"
  shows "distinct res \<and> set res \<subseteq> set SupportedScopes
    \<and> set res = set out \<union> {s. s \<noteq> [] \<and> s \<in> (\<lambda>raw. ToLower E (TrimSpace raw)) ` set raws}"
  using assms
proof (induction E out raws rule: normalize_scopes_from.induct)
  case (2 E out raw rest)
  then show ?case
    by (auto simp: Let_def IsSupportedScope_def split: if_splits)
qed auto

lemma normalize_scopes_from_same:
  assumes "\<forall>s \<in> set raws. s \<in> set SupportedScopes \<and> ToLower E (TrimSpace s) = s" and "distinct (out @ raws)" and "[] \<notin> set raws"
  shows "normalize_scopes_from E out raws = Inr (out @ raws)"
  using assms
  by (induction E out raws rule: normalize_scopes_from.induct) (auto simp: IsSupportedScope_def)

lemma supported_scope_facts:
  assumes "s \<in> set SupportedScopes"
  shows "s \<noteq> []" and "ToLower E (TrimSpace s) = s" and "Fields s = [s]"
proof -
  have bytes: "plain_ascii s \<and> (\<forall>c \<in> set s. \<not> ascii_space c) \<and> map ascii_lower s = s \<and> s \<noteq> []"
  proof -
    have "\<forall>s \<in> set SupportedScopes. plain_ascii s \<and> (\<forall>c \<in> set s. \<not> ascii_space c) \<and> map ascii_lower s = s \<and> s \<noteq> []"
      by code_simp
    with assms show ?thesis by blast
  qed
  then show "s \<noteq> []" and "ToLower E (TrimSpace s) = s"
    by (simp_all add: TrimSpace_plain ToLower_def)
  show "Fields s = [s]"
    using bytes by (simp add: Fields_single space_free_ascii)
qed

section \<open>Trimmed text\<close>

lemma trim_left_done: "space_width (trim_left s) = 0"
  by (induction s rule: trim_left.induct) (metis trim_left.simps)

lemma trim_right_rev_done: "space_width_rev (trim_right_rev r) = 0"
  by (induction r rule: trim_right_rev.induct) (metis trim_right_rev.simps)

lemma trim_right_rev_drop: "\<exists>n. trim_right_rev r = drop n r"
proof (induction r rule: trim_right_rev.induct)
  case (1 r)
  show ?case
  proof (cases "space_width_rev r = 0")
    case True
    then have "trim_right_rev r = drop 0 r" by (subst trim_right_rev.simps) simp
    then show ?thesis by blast
  next
    case False
    with 1 obtain n where "trim_right_rev (drop (space_width_rev r) r) = drop n (drop (space_width_rev r) r)" by blast
    with False have "trim_right_rev r = drop (n + space_width_rev r) r"
      by (subst trim_right_rev.simps) simp
    then show ?thesis by blast
  qed
qed

lemma TrimSpace_idem [simp]: "TrimSpace (TrimSpace s) = TrimSpace s"
proof -
  let ?t = "TrimSpace s"
  obtain n where "trim_right_rev (rev (trim_left s)) = drop n (rev (trim_left s))"
    using trim_right_rev_drop by blast
  then have "?t = take (length (trim_left s) - n) (trim_left s)"
    by (simp add: TrimSpace_def drop_rev)
  then have "trim_left s = ?t @ drop (length (trim_left s) - n) (trim_left s)" by simp
  then have "space_width ?t = 0" using trim_left_done space_width_take by metis
  then have "trim_left ?t = ?t" by (simp add: trim_left.simps)
  moreover have "trim_right_rev (rev ?t) = rev ?t"
    using trim_right_rev_done [of "rev (trim_left s)"] by (simp add: TrimSpace_def trim_right_rev.simps)
  ultimately show ?thesis by (simp add: TrimSpace_def)
qed

lemma normalizeList_trimmed: "u \<in> set (normalizeList values) \<Longrightarrow> TrimSpace u = u"
  by (auto simp: normalizeList_def)

section \<open>What a registered client is\<close>

definition well_registered :: "env \<Rightarrow> oauth_client \<Rightarrow> bool" where
  "well_registered E c \<longleftrightarrow>
     Client_ClientType c \<in> set clientTypes \<and> Client_Environment c \<in> set environments
     \<and> Client_RedirectURIs c \<noteq> []
     \<and> (\<forall>u \<in> set (Client_RedirectURIs c) \<union> set (Client_PostLogoutRedirectURIs c).
          ValidateRedirectURI E u = None \<and> TrimSpace u = u)
     \<and> (\<forall>u \<in> set (Client_AllowedOrigins c). validateOrigin E u = None)
     \<and> (if Client_ClientType c = ''confidential'' then Client_ClientSecretHash c \<noteq> []
        else Client_ClientSecretHash c = [] \<and> Client_TokenEndpointAuthMethod c = ''none'')"

definition clients_ok :: "env \<Rightarrow> world \<Rightarrow> bool" where
  "clients_ok E w \<longleftrightarrow> (\<forall>c \<in> set (rows OAuthClients w). well_registered E c)"

text \<open>The fields \<open>well_registered\<close> and the credentials depend on.\<close>

definition same_registration :: "oauth_client \<Rightarrow> oauth_client \<Rightarrow> bool" where
  "same_registration c d \<longleftrightarrow>
     Client_ClientID d = Client_ClientID c \<and> Client_ClientSecretHash d = Client_ClientSecretHash c
     \<and> Client_ClientType d = Client_ClientType c \<and> Client_TokenEndpointAuthMethod d = Client_TokenEndpointAuthMethod c
     \<and> Client_RedirectURIs d = Client_RedirectURIs c \<and> Client_PostLogoutRedirectURIs d = Client_PostLogoutRedirectURIs c
     \<and> Client_AllowedOrigins d = Client_AllowedOrigins c \<and> Client_Environment d = Client_Environment c"

lemma same_registration_trans: "same_registration b c \<Longrightarrow> same_registration c d \<Longrightarrow> same_registration b d"
  by (simp add: same_registration_def)

lemma same_registration_owner [simp]: "same_registration c (c\<lparr>Client_ApplicationID := i\<rparr>)"
  by (simp add: same_registration_def)

lemma well_registered_same: "same_registration c d \<Longrightarrow> well_registered E d = well_registered E c"
  by (simp add: same_registration_def well_registered_def)

text \<open>Storing a client with an authentication method and an environment changes neither.\<close>

lemma stored_same:
  assumes "Client_TokenEndpointAuthMethod c \<noteq> []" and "Client_Environment c \<noteq> []"
  shows "same_registration c (sch_set_id (m_schema OAuthClients) i (m_created OAuthClients now c))"
  using assms by (simp add: same_registration_def OAuthClients_def oauth_clients_schema_def or_default_def)

lemma client_kinds: "t \<in> set clientTypes \<longleftrightarrow> t = ''confidential'' \<or> t = ''public''"
  by (simp add: clientTypes_def)

lemma auth_method_not_Nil [simp]: "auth_method input t \<noteq> []"
  by (auto simp: auth_method_def Let_def)

lemma auth_method_public [simp]: "auth_method input ''public'' = ''none''"
  by (simp add: auth_method_def Let_def)

lemma run_generateClientID [run_simps]:
  "run_state (generateClientID E) w =
     (case entropy E (entropy_reads w) 16 of None \<Rightarrow> Inl ErrRand | Some b \<Rightarrow> Inr (hex_encode b),
      w\<lparr>entropy_reads := Suc (entropy_reads w)\<rparr>)"
  by (simp add: generateClientID_def run_RandRead split: option.split)

lemma run_generateClientSecret [run_simps]:
  "run_state (generateClientSecret E) w =
     (case entropy E (entropy_reads w) 32 of None \<Rightarrow> Inl ErrRand | Some b \<Rightarrow> Inr (RawURLEncode b),
      w\<lparr>entropy_reads := Suc (entropy_reads w)\<rparr>)"
  by (simp add: generateClientSecret_def run_RandRead split: option.split)

text \<open>Building a client only reads random bytes.\<close>

definition only_entropy :: "world \<Rightarrow> world \<Rightarrow> bool" where
  "only_entropy w w' \<longleftrightarrow> (\<exists>n. w' = w\<lparr>entropy_reads := n\<rparr>)"

lemma only_entropy_refl [simp]: "only_entropy w w"
  unfolding only_entropy_def by (rule exI [of _ "entropy_reads w"]) simp

lemma only_entropy_rows: "only_entropy w w' \<Longrightarrow> rows OAuthClients w' = rows OAuthClients w \<and> rows Applications w' = rows Applications w"
  by (auto simp: only_entropy_def rows_def OAuthClients_def Applications_def)

lemma buildClientE:
  assumes "run_state (buildClient E input) w = (res, w')"
  obtains (invalid) "client_errors E (client_fields_of E input) \<noteq> []" and "w' = w"
      and "res = Inl (client_errors E (client_fields_of E input))"
  | (no_entropy) field message where "client_errors E (client_fields_of E input) = []"
      and "res = Inl [(field, message)]" and "only_entropy w w'"
  | (public) cid where "client_errors E (client_fields_of E input) = []"
      and "CF_ClientType (client_fields_of E input) = ''public''" and "only_entropy w w'"
      and "res = Inr (new_client cid [] ''none'' (client_fields_of E input), [])"
  | (confidential) b cid where "client_errors E (client_fields_of E input) = []"
      and "CF_ClientType (client_fields_of E input) = ''confidential''" and "only_entropy w w'"
      and "entropy E (Suc (entropy_reads w)) 32 = Some b"
      and "res = Inr (new_client cid (Sum256 (RawURLEncode b)) (auth_method input ''confidential'') (client_fields_of E input), RawURLEncode b)"
proof (cases "client_errors E (client_fields_of E input) = []")
  case False
  then show thesis using invalid assms by (simp add: buildClient_def Let_def)
next
  case True
  let ?f = "client_fields_of E input"
  have kind: "CF_ClientType ?f = ''confidential'' \<or> CF_ClientType ?f = ''public''"
    using True by (auto simp: client_errors_Nil_iff client_kinds)
  show thesis
  proof (cases "entropy E (entropy_reads w) 16")
    case None
    with assms True show thesis
      by (intro no_entropy) (auto simp: buildClient_def Let_def run_generateClientID validationErrorFor_def
          ValidationError_add_def only_entropy_def)
  next
    case (Some b)
    show thesis
    proof (cases "CF_ClientType ?f = ''confidential''")
      case False
      with assms True Some kind show thesis
        by (intro public [of "hex_encode b"]) (auto simp: buildClient_def Let_def run_generateClientID only_entropy_def)
    next
      case conf: True
      show thesis
      proof (cases "entropy E (Suc (entropy_reads w)) 32")
        case None
        with assms True Some conf show thesis
          by (intro no_entropy) (auto simp: buildClient_def Let_def run_generateClientID run_generateClientSecret
              validationErrorFor_def ValidationError_add_def only_entropy_def)
      next
        case (Some s)
        with assms True \<open>entropy E (entropy_reads w) 16 = Some b\<close> conf show thesis
          by (intro confidential [of s "hex_encode b"]) (auto simp: buildClient_def Let_def run_generateClientID
              run_generateClientSecret only_entropy_def)
      qed
    qed
  qed
qed

section \<open>What statements and transactions leave in a table\<close>

context db_model begin

lemma CreateE':
  assumes "run_state (Create E M r) w = (res, w')"
  obtains (unchanged) e where "res = Inl e" and "rows M w' = rows M w"
  | (stored) r' i where "rows M w' = rows M w @ [r']" and "r' = sch_set_id (m_schema M) i (m_created M (clock E (ticks w)) r)"
      and "res = Inr r' \<or> res = Inl (ErrDB ConnectionFailed) \<and> db_fault E (db_calls w) = LostReply"
proof -
  let ?r = "m_created M (clock E (ticks w)) r"
  obtain res' v where ins: "gorm_insert M ?r (counted 1 1 w) = (res', v)" by fastforce
  then have "(\<exists>e. res' = Inl e) \<and> rows M v = rows M w
      \<or> (\<exists>r' i. res' = Inr r' \<and> rows M v = rows M w @ [r'] \<and> r' = sch_set_id (m_schema M) i ?r)"
    by (auto simp: gorm_insert_def table_insert_def get_counted get_put Let_def rows_def split: if_splits)
  moreover have "run_state (Create E M r) w =
      (case db_fault E (db_calls w) of NoFault \<Rightarrow> (res', v)
       | Refused \<Rightarrow> (Inl (ErrDB ConnectionFailed), counted 1 1 w)
       | LostReply \<Rightarrow> (Inl (ErrDB ConnectionFailed), v))"
    using ins by (simp add: Create_def run_Now_counted run_sql split: fault.split)
  ultimately show thesis
    using assms unchanged stored by (auto simp: rows_counted split: fault.splits)
qed

end

lemma TransactionE:
  assumes "run_state (Transaction E body) w = (res, w')"
  obtains (not_begun) "res = Inl (ErrDB ConnectionFailed)" and "w' = counted 0 1 w"
  | (failed) e v where "run_state body (counted 0 1 w) = (Inl e, v)" and "res = Inl e"
      and "w' = rollback (counted 0 1 w) v"
  | (committed) a v where "run_state body (counted 0 1 w) = (Inr a, v)" and "w' = counted 0 1 v"
      and "res = Inr a \<or> res = Inl (ErrDB ConnectionFailed)"
  | (refused) a v where "run_state body (counted 0 1 w) = (Inr a, v)" and "w' = rollback (counted 0 1 w) (counted 0 1 v)"
      and "res = Inl (ErrDB ConnectionFailed)"
proof -
  have count: "v\<lparr>db_calls := Suc (db_calls v)\<rparr> = counted 0 1 v" for v by (simp add: counted_def)
  obtain r v where body: "run_state body (counted 0 1 w) = (r, v)" by fastforce
  show thesis
  proof (cases "db_fault E (db_calls w)")
    case NoFault
    then have run: "run_state (Transaction E body) w =
        (case r of Inl e \<Rightarrow> (Inl e, rollback (counted 0 1 w) v)
         | Inr a \<Rightarrow> (case db_fault E (db_calls v) of
              NoFault \<Rightarrow> (Inr a, counted 0 1 v)
            | Refused \<Rightarrow> (Inl (ErrDB ConnectionFailed), rollback (counted 0 1 w) (counted 0 1 v))
            | LostReply \<Rightarrow> (Inl (ErrDB ConnectionFailed), counted 0 1 v)))"
      using body by (cases r) (simp_all add: Transaction_def sql_def Let_def count split: fault.split)
    show thesis
    proof (cases r)
      case (Inl e)
      with run assms have "res = Inl e" and "w' = rollback (counted 0 1 w) v" by simp_all
      with failed body Inl show thesis by blast
    next
      case (Inr a)
      with run body assms committed refused show thesis by (simp split: fault.splits)
    qed
  qed (use assms not_begun in \<open>simp_all add: Transaction_def sql_def Let_def count\<close>)
qed

section \<open>Registration keeps the clients well registered\<close>

lemma client_fields_trimmed:
  "u \<in> set (CF_RedirectURIs (client_fields_of E input)) \<Longrightarrow> TrimSpace u = u"
  "u \<in> set (CF_PostLogoutURIs (client_fields_of E input)) \<Longrightarrow> TrimSpace u = u"
  using normalizeList_trimmed by (auto simp: client_fields_of_def Let_def)

lemma built_client_ok:
  assumes "run_state (buildClient E input) w = (Inr (c, secret), w')"
  shows "well_registered E c" and "Client_TokenEndpointAuthMethod c \<noteq> []" and "Client_Environment c \<noteq> []"
    and "only_entropy w w'"
    and "if Client_ClientType c = ''confidential'' then Client_ClientSecretHash c = Sum256 secret
         else secret = []"
  using assms
  by (cases rule: buildClientE;
      auto simp: well_registered_def client_errors_Nil_iff new_client_def environments_def client_kinds client_fields_trimmed dest: sym)+

lemma rows_apart [simp]:
  "rows OAuthClients (w\<lparr>applications := t\<rparr>) = rows OAuthClients w"
  "rows Applications (w\<lparr>oauth_clients := t'\<rparr>) = rows Applications w"
  "rows OAuthClients (counted a b w) = rows OAuthClients w"
  "rows Applications (counted a b w) = rows Applications w"
  "rows OAuthClients (rollback w0 w) = rows OAuthClients w0"
  "rows Applications (rollback w0 w) = rows Applications w0"
  by (simp_all add: rows_def OAuthClients_def Applications_def)

lemma stored_application:
  assumes "run_state (Create E Applications a) w = (Inr a', w')"
  shows "App_Name a' = App_Name a" and "App_Description a' = App_Description a"
    and "App_AllowedScopes a' = App_AllowedScopes a" and "App_FirstParty a'"
  using assms
  by (rule Applications.CreateE; simp add: Applications_def applications_schema_def or_default_def)+

lemma stored_client:
  assumes "run_state (Create E OAuthClients c) w = (Inr c', w')"
    and "Client_TokenEndpointAuthMethod c \<noteq> []" and "Client_Environment c \<noteq> []"
  shows "same_registration c c' \<and> Client_ApplicationID c' = Client_ApplicationID c"
  using assms(1)
proof (rule OAuthClients.CreateE)
  assume "c' = sch_set_id (m_schema OAuthClients) (tbl_next (m_table OAuthClients w)) (m_created OAuthClients (clock E (ticks w)) c)"
  then show ?thesis
    using stored_same [OF assms(2,3)] by (simp add: OAuthClients_def oauth_clients_schema_def)
qed

text \<open>An application and its first client are stored together or not at all.\<close>

lemma CreateWithClientE:
  assumes "run_state (gormApplicationRepo_CreateWithClient E a c) w = (res, w')"
    and "Client_TokenEndpointAuthMethod c \<noteq> []" and "Client_Environment c \<noteq> []"
  obtains (neither) e where "res = Inl e" and "rows Applications w' = rows Applications w"
      and "rows OAuthClients w' = rows OAuthClients w"
  | (both) a' c' where "rows Applications w' = rows Applications w @ [a']"
      and "rows OAuthClients w' = rows OAuthClients w @ [c']" and "Client_ApplicationID c' = App_ID a'"
      and "same_registration c c'" and "App_Name a' = App_Name a" and "App_Description a' = App_Description a"
      and "App_AllowedScopes a' = App_AllowedScopes a" and "App_FirstParty a'"
      and "res = Inr (a', c') \<or> res = Inl (ErrDB ConnectionFailed)"
  using assms(1) unfolding gormApplicationRepo_CreateWithClient_def
proof (cases rule: TransactionE)
  case not_begun
  then show thesis using neither by simp
next
  case (failed e v)
  then show thesis using neither by simp
next
  case (refused ac v)
  then show thesis using neither by simp
next
  case (committed ac v)
  obtain r u where a0: "run_state (Create E Applications a) (counted 0 1 w) = (r, u)" by fastforce
  with committed(1) obtain a' where a: "run_state (Create E Applications a) (counted 0 1 w) = (Inr a', u)"
    by (cases r) auto
  obtain r' v' where c0: "run_state (Create E OAuthClients (c\<lparr>Client_ApplicationID := App_ID a'\<rparr>)) u = (r', v')" by fastforce
  with committed(1) a obtain c' where c': "run_state (Create E OAuthClients (c\<lparr>Client_ApplicationID := App_ID a'\<rparr>)) u = (Inr c', v)"
    and ac: "ac = (a', c')"
    by (cases r') auto
  from a obtain t where "rows Applications u = rows Applications w @ [a']" and "u = counted 1 1 (m_put Applications t (counted 0 1 w))"
    by (rule Applications.CreateE) simp
  moreover from c' obtain t where "rows OAuthClients v = rows OAuthClients u @ [c']" and "v = counted 1 1 (m_put OAuthClients t u)"
    by (rule OAuthClients.CreateE)
  moreover have "same_registration (c\<lparr>Client_ApplicationID := App_ID a'\<rparr>) c'" and "Client_ApplicationID c' = App_ID a'"
    using stored_client [OF c'] assms(2,3) by simp_all
  ultimately show thesis
    using committed(2,3) ac stored_application [OF a]
    by (intro both [of a' c']) (auto intro: same_registration_trans [OF same_registration_owner])
qed

lemma buildRegistrationE:
  assumes "run_state (buildRegistration E input) w = (res, w')"
  obtains (invalid) verr where "res = Inl (ErrValidation verr)" and "verr \<noteq> []" and "only_entropy w w'"
  | (valid) a c secret where "run_state (buildClient E (Reg_Client input)) w = (Inr (c, secret), w')"
      and "res = Inr (a, c, secret)" and "App_Name a = TrimSpace (Reg_Name input)" and "App_Name a \<noteq> []"
      and "App_Description a = TrimSpace (Reg_Description input)"
      and "normalizeScopes E (Reg_AllowedScopes input) = Inr (App_AllowedScopes a)"
proof -
  let ?v = "scope_errors (normalizeScopes E (Reg_AllowedScopes input)) (name_errors (TrimSpace (Reg_Name input)) [])"
  obtain built u where b: "run_state (buildClient E (Reg_Client input)) w = (built, u)" by fastforce
  show thesis
  proof (cases built)
    case (Inl clientErr)
    with b have "clientErr \<noteq> []" and "only_entropy w u"
      by (auto elim!: buildClientE)
    then show thesis
      using assms b Inl by (intro invalid [of "add_client_errors clientErr ?v"])
        (simp_all add: buildRegistration_def Let_def add_client_errors_not_Nil)
  next
    case (Inr cs)
    obtain c secret where cs: "cs = (c, secret)" by (cases cs)
    show thesis
    proof (cases "?v = []")
      case True
      then show thesis
        using assms b Inr cs by (intro valid) (auto simp: buildRegistration_def Let_def scope_errors_Nil_iff name_errors_Nil_iff scope_list_def)
    next
      case False
      then show thesis
        using assms b Inr cs built_client_ok(4) by (intro invalid [of ?v]) (auto simp: buildRegistration_def Let_def)
    qed
  qed
qed

section \<open>Outcomes of a registration\<close>

lemma RegisterAppE:
  assumes "run_state (AppService_RegisterApp E input) w = (res, w')"
  obtains (invalid) verr where "res = Inl (ErrValidation verr)" and "verr \<noteq> []" and "only_entropy w w'"
  | (refused) e where "res = Inl (ErrWrapped ''create application with client: '' e)"
      and "rows Applications w' = rows Applications w" and "rows OAuthClients w' = rows OAuthClients w"
  | (stored) a c b secret u where "run_state (buildClient E (Reg_Client input)) w = (Inr (b, secret), u)"
      and "rows Applications w' = rows Applications w @ [a]" and "rows OAuthClients w' = rows OAuthClients w @ [c]"
      and "Client_ApplicationID c = App_ID a" and "same_registration b c" and "App_FirstParty a"
      and "App_Name a = TrimSpace (Reg_Name input)" and "App_Name a \<noteq> []"
      and "App_Description a = TrimSpace (Reg_Description input)"
      and "normalizeScopes E (Reg_AllowedScopes input) = Inr (App_AllowedScopes a)"
      and "res = Inr \<lparr>Out_App = a, Out_Client = c, Out_ClientSecret = secret\<rparr>
           \<or> res = Inl (ErrWrapped ''create application with client: '' (ErrDB ConnectionFailed))"
proof -
  obtain built u where b: "run_state (buildRegistration E input) w = (built, u)" by fastforce
  from b show thesis
  proof (cases rule: buildRegistrationE)
    case (invalid verr)
    with assms b show thesis by (intro that(1)) (simp_all add: AppService_RegisterApp_def)
  next
    case (valid a c secret)
    obtain r v where r: "run_state (gormApplicationRepo_CreateWithClient E a c) u = (r, v)" by fastforce
    have rest: "res = (case r of Inl e \<Rightarrow> Inl (ErrWrapped ''create application with client: '' e)
         | Inr (a', client') \<Rightarrow> Inr \<lparr>Out_App = a', Out_Client = client', Out_ClientSecret = secret\<rparr>)" "w' = v"
      using assms b r valid(2) by (auto simp: AppService_RegisterApp_def)
    note u = only_entropy_rows [OF built_client_ok(4) [OF valid(1)]]
    from r built_client_ok(2,3) [OF valid(1)] show thesis
    proof (cases rule: CreateWithClientE)
      case (neither e)
      with rest u show thesis by (intro that(2)) simp_all
    next
      case (both a' c')
      with rest u valid show thesis by (intro that(3) [of c secret u a' c']) auto
    qed
  qed
qed

lemma CreateClientE:
  assumes "run_state (AppService_CreateClient E i input) w = (res, w')"
  obtains (unchanged) e where "res = Inl e" and "rows OAuthClients w' = rows OAuthClients w"
  | (stored) c b secret u where "run_state (buildClient E input) w = (Inr (b, secret), u)"
      and "rows OAuthClients w' = rows OAuthClients w @ [c]" and "same_registration b c"
      and "Client_ApplicationID c = i"
      and "res = Inr (c, secret) \<or> res = Inl (ErrWrapped ''create client: '' (ErrDB ConnectionFailed))"
proof -
  obtain built u where b: "run_state (buildClient E input) w = (built, u)" by fastforce
  show thesis
  proof (cases built)
    case (Inl verr)
    with b have "only_entropy w u" by (auto elim!: buildClientE)
    then show thesis
      using assms b Inl only_entropy_rows by (intro unchanged) (auto simp: AppService_CreateClient_def)
  next
    case (Inr cs)
    obtain c secret where cs: "cs = (c, secret)" by (cases cs)
    note built = built_client_ok [OF b [unfolded Inr cs]]
    let ?c = "c\<lparr>Client_ApplicationID := i\<rparr>"
    obtain r v where r: "run_state (gormClientRepo_Create E ?c) u = (r, v)" by fastforce
    have rest: "res = (case r of Inl e \<Rightarrow> Inl (ErrWrapped ''create client: '' e) | Inr c' \<Rightarrow> Inr (c', secret))" "w' = v"
      using assms b r Inr cs by (auto simp: AppService_CreateClient_def split: sum.split)
    from r [unfolded gormClientRepo_Create_def] show thesis
    proof (cases rule: OAuthClients.CreateE')
      case (unchanged e)
      with rest only_entropy_rows [OF built(4)] show thesis by (intro that(1)) simp_all
    next
      case (stored c' j)
      have same: "same_registration ?c c'"
        unfolding stored(2) by (rule stored_same) (use built in simp_all)
      moreover have "Client_ApplicationID c' = i"
        by (simp add: stored(2)) (simp add: OAuthClients_def oauth_clients_schema_def)
      ultimately show thesis
        using stored(1,3) rest only_entropy_rows [OF built(4)] b Inr cs
        by (intro that(2) [of c secret u c']) (auto intro: same_registration_trans [OF same_registration_owner same])
    qed
  qed
qed

section \<open>Sound operations\<close>

lemma sound_buildClient [schema_intros]: "sound E (buildClient E' input)"
  unfolding buildClient_def generateClientID_def generateClientSecret_def Let_def by (intro schema_intros)

lemma sound_AppService [schema_intros]:
  "sound E (AppService_RegisterApp E input)"
  "sound E (AppService_UpdateApp E a meta)"
  "sound E (AppService_CreateClient E i cl)"
  unfolding AppService_RegisterApp_def AppService_UpdateApp_def AppService_CreateClient_def buildRegistration_def Let_def
  by (intro schema_intros)+

section \<open>Samples\<close>

definition sample_client_input :: client_input where
  "sample_client_input =
     \<lparr>In_ClientType = ''confidential'', In_RedirectURIs = [''https://app.example/cb''], In_PostLogoutRedirectURIs = [],
      In_AllowedOrigins = [], In_Environment = [], In_TokenEndpointAuthMethod = []\<rparr>"

definition sample_registration :: register_app_input where
  "sample_registration =
     \<lparr>Reg_Name = ''Shop'', Reg_Description = [], Reg_FirstParty = False, Reg_AllowedScopes = [''openid email''],
      Reg_Client = sample_client_input\<rparr>"

lemma sample_client_valid:
  "client_fields_of calm_env sample_client_input =
     \<lparr>CF_ClientType = ''confidential'', CF_Environment = ''local'', CF_RedirectURIs = [''https://app.example/cb''],
      CF_PostLogoutURIs = [], CF_Origins = []\<rparr>"
  "client_errors calm_env (client_fields_of calm_env sample_client_input) = []"
proof -
  have lower: "ToLower calm_env (TrimSpace ''confidential'') = ''confidential''" "TrimSpace [] = []"
      "normalizeList [''https://app.example/cb''] = [''https://app.example/cb'']"
    by code_simp+
  then show 1: "client_fields_of calm_env sample_client_input =
     \<lparr>CF_ClientType = ''confidential'', CF_Environment = ''local'', CF_RedirectURIs = [''https://app.example/cb''],
      CF_PostLogoutURIs = [], CF_Origins = []\<rparr>"
    by (simp add: client_fields_of_def sample_client_input_def normalizeList_def Let_def)
  have "\<forall>c \<in> set ''app.example''. plain_byte c" "\<forall>c \<in> set ''/cb''. plain_path_byte c"
    by (simp_all add: plain_byte_def plain_path_byte_def alphanumeric_def)
  then have "ValidateRedirectURI calm_env ''https://app.example/cb'' = None"
    using plain_uri_verdict [of "''app.example''" "''/cb''" calm_env] by simp
  then show "client_errors calm_env (client_fields_of calm_env sample_client_input) = []"
    unfolding 1 client_errors_Nil_iff by (simp add: clientTypes_def environments_def)
qed

lemma sample_client_auth: "auth_method sample_client_input ''confidential'' = ''client_secret_basic''"
  by code_simp

lemmas sample_client_runs = sample_client_valid(1) sample_client_valid(2) [unfolded sample_client_valid(1)] sample_client_auth

lemma run_sample_registration:
  "\<exists>out w'. run_state (AppService_RegisterApp calm_env sample_registration) empty_world = (Inr out, w')"
proof -
  have pure: "normalizeScopes calm_env [''openid email''] = Inr [''openid'', ''email'']" "TrimSpace ''Shop'' = ''Shop''" "TrimSpace [] = []"
    by code_simp+
  then show ?thesis
    by (simp add: AppService_RegisterApp_def buildRegistration_def buildClient_def sample_client_runs sample_registration_def
        run_generateClientID run_generateClientSecret scope_errors_def name_errors_def scope_list_def Let_def new_client_def
        gormApplicationRepo_CreateWithClient_def Transaction_def sql_def Create_def run_Now gorm_insert_def table_insert_def
        Applications_def OAuthClients_def applications_schema_def oauth_clients_schema_def empty_world_def empty_table_def
        or_default_def has_row_def)
qed

lemma run_sample_client:
  "\<exists>c secret w' w. rows OAuthClients w = [] \<and> run_state (AppService_CreateClient calm_env 1 sample_client_input) w = (Inr (c, secret), w')"
  (is "\<exists>c secret w' w. ?P w \<and> ?Q w c secret w'")
proof -
  define w where "w = empty_world\<lparr>applications := \<lparr>tbl_rows = [\<lparr>App_ID = 1, App_Name = ''Shop'', App_Description = [],
     App_FirstParty = True, App_AllowedScopes = [], App_CreatedAt = 0, App_UpdatedAt = 0\<rparr>], tbl_next = 2\<rparr>\<rparr>"
  have "\<exists>c secret w'. ?Q w c secret w'"
    by (simp add: w_def AppService_CreateClient_def buildClient_def sample_client_runs
        run_generateClientID run_generateClientSecret Let_def new_client_def
        gormClientRepo_Create_def sql_def Create_def run_Now gorm_insert_def table_insert_def
        OAuthClients_def oauth_clients_schema_def empty_world_def empty_table_def
        or_default_def has_row_def)
  moreover have "?P w" by (simp add: w_def empty_world_def empty_table_def rows_def OAuthClients_def)
  ultimately show ?thesis by blast
qed

section \<open>Properties\<close>

lemma add_fields: "fst ` set (ValidationError_add verr field message) = insert field (fst ` set verr)"
  by (auto simp: ValidationError_add_def map_of_eq_None_iff image_iff)

lemma add_distinct: "distinct (map fst verr) \<Longrightarrow> distinct (map fst (ValidationError_add verr field message))"
  by (auto simp: ValidationError_add_def map_of_eq_None_iff)

lemma validateURIs_fields:
  "fst ` set (validateURIs E verr field uris) =
     fst ` set verr \<union> (if \<exists>u \<in> set uris. ValidateRedirectURI E u \<noteq> None then {field} else {})"
  by (induction uris) (auto simp: add_fields split: option.splits)

lemma validateURIs_distinct: "distinct (map fst verr) \<Longrightarrow> distinct (map fst (validateURIs E verr field uris))"
  by (induction uris) (auto simp: add_distinct split: option.splits)

lemma validate_origins_fields:
  "fst ` set (validate_origins E verr origins) =
     fst ` set verr \<union> (if \<exists>u \<in> set origins. validateOrigin E u \<noteq> None then {''allowed_origins''} else {})"
  by (induction origins) (auto simp: add_fields split: option.splits)

lemma validate_origins_distinct: "distinct (map fst verr) \<Longrightarrow> distinct (map fst (validate_origins E verr origins))"
  by (induction origins) (auto simp: add_distinct split: option.splits)

text \<open>
  C22.  The validation of a client reports exactly what is wrong: each field has at most one message, and
  a field has one exactly when it is invalid: an unknown client type or environment, a missing or
  refused redirect URI, a refused post-logout URI, a refused origin.
\<close>

theorem client_errors_exact:
  "distinct (map fst (client_errors E f))
   \<and> fst ` set (client_errors E f) =
       (if CF_ClientType f = ''confidential'' \<or> CF_ClientType f = ''public'' then {} else {''client_type''})
       \<union> (if CF_Environment f \<in> {''local'', ''staging'', ''production''} then {} else {''environment''})
       \<union> (if CF_RedirectURIs f = [] \<or> (\<exists>u \<in> set (CF_RedirectURIs f). ValidateRedirectURI E u \<noteq> None) then {''redirect_uris''} else {})
       \<union> (if \<exists>u \<in> set (CF_PostLogoutURIs f). ValidateRedirectURI E u \<noteq> None then {''post_logout_redirect_uris''} else {})
       \<union> (if \<exists>u \<in> set (CF_Origins f). validateOrigin E u \<noteq> None then {''allowed_origins''} else {})"
proof
  show "distinct (map fst (client_errors E f))"
    unfolding client_errors_def Let_def
    by (intro validate_origins_distinct validateURIs_distinct) (simp add: add_distinct)
qed (simp add: client_errors_def Let_def validateURIs_fields validate_origins_fields add_fields clientTypes_def
    environments_def insert_commute; blast)

text \<open>
  Normalised scopes.  When the scopes of a form are accepted, the stored list has no duplicates and
  only supported scopes, namely those named in the form up to case and white space; normalising the
  stored list again changes nothing.
\<close>

theorem normalizeScopes_exact:
  assumes "normalizeScopes E scopes = Inr out"
  shows "distinct out \<and> set out \<subseteq> set SupportedScopes
    \<and> set out = {s. s \<noteq> [] \<and> (\<exists>raw \<in> set scopes. \<exists>f \<in> set (Fields raw). s = ToLower E (TrimSpace f))}
    \<and> normalizeScopes E out = Inr out"
proof -
  have spec: "distinct out \<and> set out \<subseteq> set SupportedScopes
      \<and> set out = set [] \<union> {s. s \<noteq> [] \<and> s \<in> (\<lambda>raw. ToLower E (TrimSpace raw)) ` set (concat (map Fields scopes))}"
    by (rule normalize_scopes_from_Inr) (use assms in \<open>simp_all add: normalizeScopes_def\<close>)
  then have "Fields s = [s]" if "s \<in> set out" for s
    using that supported_scope_facts(3) by blast
  then have "concat (map Fields out) = out"
    by (induction out) auto
  moreover have "normalize_scopes_from E [] out = Inr ([] @ out)"
  proof (rule normalize_scopes_from_same)
    have sub: "set out \<subseteq> set SupportedScopes" and dist: "distinct out" using spec by blast+
    from sub show "\<forall>s \<in> set out. s \<in> set SupportedScopes \<and> ToLower E (TrimSpace s) = s"
      using supported_scope_facts(2) by blast
    from sub show "[] \<notin> set out" using supported_scope_facts(1) by blast
    from dist show "distinct ([] @ out)" by simp
  qed
  ultimately show ?thesis
    using spec by (auto simp: normalizeScopes_def)
qed

theorem normalizeScopes_exact_witness:
  "\<exists>out. normalizeScopes calm_env [''Email openid'', ''email''] = Inr out \<and> normalizeScopes calm_env out = Inr out"
proof -
  have "normalizeScopes calm_env [''Email openid'', ''email''] = Inr [''email'', ''openid'']"
    by code_simp
  with normalizeScopes_exact [OF this] show ?thesis by blast
qed

text \<open>
  An application and its first client are registered together or not at all, whatever fails in
  between: either both tables keep their rows and an error is reported, or one row is appended to
  each, the client naming the application as its owner.  An error with both rows stored means that
  the connection was lost after the commit.
\<close>

theorem register_app_all_or_nothing:
  assumes "run_state (AppService_RegisterApp E input) w = (res, w')"
  shows "rows Applications w' = rows Applications w \<and> rows OAuthClients w' = rows OAuthClients w \<and> (\<exists>e. res = Inl e)
    \<or> (\<exists>a c. rows Applications w' = rows Applications w @ [a] \<and> rows OAuthClients w' = rows OAuthClients w @ [c]
        \<and> Client_ApplicationID c = App_ID a
        \<and> (case res of Inl e \<Rightarrow> errors_Is e (ErrDB ConnectionFailed) | Inr out \<Rightarrow> Out_App out = a \<and> Out_Client out = c))"
  using assms
proof (cases rule: RegisterAppE)
  case (invalid verr)
  with only_entropy_rows show ?thesis by blast
next
  case (refused e)
  then show ?thesis by blast
next
  case (stored a c b secret u)
  then show ?thesis by auto
qed

theorem register_app_all_or_nothing_witness:
  "\<exists>out w'. run_state (AppService_RegisterApp calm_env sample_registration) empty_world = (Inr out, w')
     \<and> rows OAuthClients w' = [Out_Client out] \<and> Client_ApplicationID (Out_Client out) = App_ID (Out_App out)"
proof -
  obtain out w' where run: "run_state (AppService_RegisterApp calm_env sample_registration) empty_world = (Inr out, w')"
    using run_sample_registration by blast
  have "rows OAuthClients empty_world = []"
    by (simp add: rows_def empty_world_def empty_table_def OAuthClients_def)
  with register_app_all_or_nothing [OF run] run show ?thesis by auto
qed



text \<open>
  No operation of the service ever stores a client that is not well registered: when every
  stored client has validated redirect, post-logout and origin URIs and the credentials of its type,
  so has every stored client after a registration, an update of an application or the creation of a
  client, whatever the outcome.
\<close>

theorem service_keeps_clients_ok:
  assumes "clients_ok E w"
  shows "clients_ok E (snd (run_state (AppService_RegisterApp E reg) w))
    \<and> clients_ok E (snd (run_state (AppService_CreateClient E i cl) w))
    \<and> clients_ok E (snd (run_state (AppService_UpdateApp E a meta) w))"
proof (intro conjI)
  have grow: "clients_ok E w'" if "rows OAuthClients w' = rows OAuthClients w @ [c]" "same_registration b c"
      "run_state (buildClient E inp) v = (Inr (b, secret), u)" for w' c b inp v secret u
    using assms that built_client_ok(1) [OF that(3)] well_registered_same [OF that(2)] by (auto simp: clients_ok_def)
  obtain res w' where run: "run_state (AppService_RegisterApp E reg) w = (res, w')" by fastforce
  then have "clients_ok E w'"
    using assms grow only_entropy_rows by (cases rule: RegisterAppE) (auto simp: clients_ok_def)
  with run show "clients_ok E (snd (run_state (AppService_RegisterApp E reg) w))" by simp
  obtain res w' where run: "run_state (AppService_CreateClient E i cl) w = (res, w')" by fastforce
  then have "clients_ok E w'"
    using assms grow by (cases rule: CreateClientE) (auto simp: clients_ok_def)
  with run show "clients_ok E (snd (run_state (AppService_CreateClient E i cl) w))" by simp
  have "rows OAuthClients (snd (run_state (gormApplicationRepo_Update E a') w)) = rows OAuthClients w" for a'
    by (simp add: gormApplicationRepo_Update_def Updates_def run_Now sql_def gorm_updates_def gorm_update_def Let_def
        rows_def OAuthClients_def Applications_def split: fault.split)
  then show "clients_ok E (snd (run_state (AppService_UpdateApp E a meta) w))"
    using assms by (simp add: AppService_UpdateApp_def clients_ok_def Let_def)
qed

theorem service_keeps_clients_ok_witness:
  "\<exists>out w'. run_state (AppService_RegisterApp calm_env sample_registration) empty_world = (Inr out, w') \<and> clients_ok calm_env w'"
proof -
  have "clients_ok calm_env empty_world"
    by (simp add: clients_ok_def rows_def empty_world_def empty_table_def OAuthClients_def)
  from service_keeps_clients_ok [OF this, of sample_registration] run_sample_registration show ?thesis
    by (metis snd_conv)
qed

end
