(* ===== verification/Provider_Service.thy ===== *)
theory Provider_Service
  imports App_Service Secrets
begin

text \<open>
  Identity providers of an application and the users that sign in through them
  (internal/service/provider\_service.go).
\<close>

section \<open>Configuration\<close>

record provider_input =
  Prov_Provider :: string
  Prov_ClientID :: string
  Prov_ClientSecret :: string
  Prov_Enabled :: bool

definition provider_errors :: "string \<Rightarrow> string \<Rightarrow> validation_fields" where
  "provider_errors provider clientID =
     (let v = (if \<not> IsSupported provider
               then ValidationError_add [] ''provider'' ''Provider must be google or github'' else [])
      in if clientID = [] then ValidationError_add v ''client_id'' ''Client ID is required'' else v)"

text \<open>
  The secret to store: a new one, encrypted, the one on record, or none, which is an error of
  validation.  \<open>Inl\<close> is an early return.
\<close>

definition provider_secret ::
    "env \<Rightarrow> aead \<Rightarrow> provider_input \<Rightarrow> identity_provider option \<Rightarrow> validation_fields
      \<Rightarrow> (world, goerr + validation_fields \<times> string) state" where
  "provider_secret E box input existing verr =
     (if TrimSpace (Prov_ClientSecret input) \<noteq> [] then do {
        r \<leftarrow> Box_Encrypt E box (Prov_ClientSecret input);
        ret (case r of
               Inl e \<Rightarrow> Inl (ErrWrapped ''encrypt provider secret: '' e)
             | Inr encrypted \<Rightarrow> Inr (verr, encrypted))
      }
      else ret (Inr (case existing of
                       Some p \<Rightarrow> (verr, IdP_ClientSecretEncrypted p)
                     | None \<Rightarrow> (ValidationError_add verr ''client_secret'' ''Client secret is required'', []))))"

definition ProviderService_Upsert :: "env \<Rightarrow> aead \<Rightarrow> int \<Rightarrow> provider_input \<Rightarrow> (world, goerr + unit) state" where
  "ProviderService_Upsert E box applicationID input = do {
     let provider = ToLower E (TrimSpace (Prov_Provider input));
     let clientID = TrimSpace (Prov_ClientID input);
     let verr = provider_errors provider clientID;
     found \<leftarrow> gormIdentityProviderRepo_GetByApplicationAndProvider E applicationID provider;
     if (case found of Inl e \<Rightarrow> \<not> errors_Is e ErrNotFound | Inr _ \<Rightarrow> False) then ret (Inl (projl found))
     else do {
       s \<leftarrow> provider_secret E box input (case found of Inl _ \<Rightarrow> None | Inr p \<Rightarrow> Some p) verr;
       case s of
         Inl e \<Rightarrow> ret (Inl e)
       | Inr (verr, encrypted) \<Rightarrow>
           if \<not> ValidationError_empty verr then ret (Inl (ErrValidation verr))
           else do {
             r \<leftarrow> gormIdentityProviderRepo_Upsert E
               \<lparr>IdP_ID = 0, IdP_ApplicationID = applicationID, IdP_Provider = provider, IdP_ClientID = clientID,
                IdP_ClientSecretEncrypted = encrypted, IdP_Enabled = Prov_Enabled input,
                IdP_CreatedAt = zero_time, IdP_UpdatedAt = zero_time\<rparr>;
             ret (case r of Inl e \<Rightarrow> Inl (ErrWrapped ''save identity provider: '' e) | Inr _ \<Rightarrow> Inr ())
           }
     }
   }"

definition ProviderService_Get ::
    "env \<Rightarrow> aead \<Rightarrow> int \<Rightarrow> string \<Rightarrow> (world, goerr + identity_provider \<times> string) state" where
  "ProviderService_Get E box applicationID provider = do {
     r \<leftarrow> gormIdentityProviderRepo_GetByApplicationAndProvider E applicationID provider;
     ret (case r of
            Inl e \<Rightarrow> Inl e
          | Inr record \<Rightarrow>
              (case Box_Decrypt box (IdP_ClientSecretEncrypted record) of
                 Inl e \<Rightarrow> Inl (ErrWrapped ''decrypt provider secret: '' e)
               | Inr secret \<Rightarrow> Inr (record, secret)))
   }"

definition ProviderService_List :: "env \<Rightarrow> int \<Rightarrow> (world, goerr + identity_provider list) state" where
  "ProviderService_List E applicationID = gormIdentityProviderRepo_ListByApplicationID E applicationID"

definition ProviderService_SetEnabled :: "env \<Rightarrow> int \<Rightarrow> string \<Rightarrow> bool \<Rightarrow> (world, goerr + unit) state" where
  "ProviderService_SetEnabled E applicationID provider enabled =
     gormIdentityProviderRepo_SetEnabled E applicationID provider enabled"

definition ProviderService_Delete :: "env \<Rightarrow> int \<Rightarrow> string \<Rightarrow> (world, goerr + unit) state" where
  "ProviderService_Delete E applicationID provider = gormIdentityProviderRepo_Delete E applicationID provider"

section \<open>Users from identities\<close>

definition suffix_byte :: "char \<Rightarrow> bool" where
  "suffix_byte c \<longleftrightarrow> alphanumeric c \<or> c = CHR ''-'' \<or> c = CHR ''_''"

text \<open>\<open>strings.Map\<close> over the characters of the subject: a byte that is not UTF-8 counts as one.\<close>

function map_suffix :: "string \<Rightarrow> string" where
  "map_suffix s =
     (if s = [] then []
      else (if suffix_byte (hd s) then hd s else CHR ''-'') # map_suffix (drop (max 1 (utf8_width s)) s))"
  by pat_completeness auto
termination
  by (relation "measure length") (auto simp: length_greater_0_conv max_def simp del: length_0_conv)

declare map_suffix.simps [simp del]

definition syntheticEmail :: "identity \<Rightarrow> string" where
  "syntheticEmail i =
     Identity_Provider i @ ''-'' @ map_suffix (Identity_Subject i) @ ''@users.centrauth.invalid''"

definition randomSubject :: "env \<Rightarrow> (world, goerr + string) state" where
  "randomSubject E = do {
     b \<leftarrow> RandRead E 16;
     ret (case b of Inl e \<Rightarrow> Inl e | Inr b \<Rightarrow> Inr (RawURLEncode b))
   }"

text \<open>Linking the identity to a user that exists, and creating a user with it.\<close>

definition link_identity :: "env \<Rightarrow> identity \<Rightarrow> string \<Rightarrow> user \<Rightarrow> (world, goerr + user) state" where
  "link_identity E i verifiedEmail existingUser = do {
     r \<leftarrow> gormUserIdentityRepo_Create E
       \<lparr>Ident_ID = 0, Ident_UserID = User_ID existingUser, Ident_Provider = Identity_Provider i,
        Ident_ProviderSubject = Identity_Subject i, Ident_Email = verifiedEmail, Ident_EmailVerified = True,
        Ident_Name = Identity_Name i, Ident_CreatedAt = zero_time, Ident_UpdatedAt = zero_time\<rparr>;
     ret (case r of Inl e \<Rightarrow> Inl (ErrWrapped ''link identity: '' e) | Inr _ \<Rightarrow> Inr existingUser)
   }"

definition create_from_identity :: "env \<Rightarrow> identity \<Rightarrow> string \<Rightarrow> (world, goerr + user) state" where
  "create_from_identity E i verifiedEmail = do {
     let email = (if verifiedEmail = [] then syntheticEmail i else verifiedEmail);
     subject \<leftarrow> randomSubject E;
     case subject of
       Inl e \<Rightarrow> ret (Inl e)
     | Inr subject \<Rightarrow> do {
         r \<leftarrow> gormUserIdentityRepo_CreateWithUser E
           \<lparr>User_ID = 0, User_Subject = subject, User_Email = email, User_CreatedAt = zero_time, User_UpdatedAt = zero_time\<rparr>
           \<lparr>Ident_ID = 0, Ident_UserID = 0, Ident_Provider = Identity_Provider i,
            Ident_ProviderSubject = Identity_Subject i, Ident_Email = Identity_Email i,
            Ident_EmailVerified = Identity_EmailVerified i, Ident_Name = Identity_Name i,
            Ident_CreatedAt = zero_time, Ident_UpdatedAt = zero_time\<rparr>;
         ret (case r of
                Inl e \<Rightarrow> Inl (ErrWrapped ''create user from provider identity: '' e)
              | Inr (user, _) \<Rightarrow> Inr user)
       }
   }"

definition ProviderService_ProvisionUser :: "env \<Rightarrow> identity \<Rightarrow> (world, goerr + user) state" where
  "ProviderService_ProvisionUser E i = do {
     found \<leftarrow> gormUserIdentityRepo_GetByProviderSubject E (Identity_Provider i) (Identity_Subject i);
     case found of
       Inr existing \<Rightarrow> gormUserRepo_GetByID E (Ident_UserID existing)
     | Inl e \<Rightarrow>
         if \<not> errors_Is e ErrNotFound then ret (Inl e)
         else do {
           let verifiedEmail = (if Identity_EmailVerified i then TrimSpace (Identity_Email i) else []);
           if verifiedEmail \<noteq> [] then do {
             known \<leftarrow> gormUserRepo_GetByEmail E verifiedEmail;
             case known of
               Inr existingUser \<Rightarrow> link_identity E i verifiedEmail existingUser
             | Inl e \<Rightarrow>
                 if \<not> errors_Is e ErrNotFound then ret (Inl e) else create_from_identity E i verifiedEmail
           }
           else create_from_identity E i verifiedEmail
         }
   }"

section \<open>Sound operations\<close>

lemma sound_ProviderService [schema_intros]:
  "sound E (ProviderService_Upsert E box aid input)"
  "sound E (ProviderService_Get E box aid pr)"
  "sound E (ProviderService_List E aid)"
  "sound E (ProviderService_SetEnabled E aid pr b)"
  "sound E (ProviderService_Delete E aid pr)"
  "sound E (ProviderService_ProvisionUser E i)"
  unfolding ProviderService_Upsert_def provider_secret_def ProviderService_Get_def ProviderService_List_def
    ProviderService_SetEnabled_def ProviderService_Delete_def ProviderService_ProvisionUser_def
    link_identity_def create_from_identity_def randomSubject_def Let_def
  by (intro schema_intros)+

section \<open>Provisioning\<close>

definition identity_of :: "identity \<Rightarrow> user_identity \<Rightarrow> bool" where
  "identity_of i r \<longleftrightarrow> Ident_Provider r = Identity_Provider i \<and> Ident_ProviderSubject r = Identity_Subject i"

definition verified_email :: "identity \<Rightarrow> string" where
  "verified_email i = (if Identity_EmailVerified i then TrimSpace (Identity_Email i) else [])"

lemma identity_rows_apart [simp]:
  "rows UserIdentities (w\<lparr>users := t\<rparr>) = rows UserIdentities w"
  "rows (Users E) (w\<lparr>user_identities := t'\<rparr>) = rows (Users E) w"
  "rows UserIdentities (counted a b w) = rows UserIdentities w"
  "rows (Users E) (counted a b w) = rows (Users E) w"
  "rows UserIdentities (w\<lparr>entropy_reads := n\<rparr>) = rows UserIdentities w"
  "rows (Users E) (w\<lparr>entropy_reads := n\<rparr>) = rows (Users E) w"
  by (simp_all add: rows_def UserIdentities_def Users_def)

lemma stored_identity:
  assumes "run_state (Create E UserIdentities r) w = (Inr r', w')"
  shows "Ident_UserID r' = Ident_UserID r \<and> Ident_Provider r' = Ident_Provider r
    \<and> Ident_ProviderSubject r' = Ident_ProviderSubject r \<and> rows UserIdentities w' = rows UserIdentities w @ [r']
    \<and> rows (Users E) w' = rows (Users E) w"
  using assms
proof (rule UserIdentities.CreateE)
  assume "r' = sch_set_id (m_schema UserIdentities) (tbl_next (m_table UserIdentities w)) (m_created UserIdentities (clock E (ticks w)) r)"
    and "rows UserIdentities w' = rows UserIdentities w @ [r']"
    and "w' = counted 1 1 (m_put UserIdentities (m_table UserIdentities w
        \<lparr>tbl_rows := rows UserIdentities w @ [r'], tbl_next := tbl_next (m_table UserIdentities w) + 1\<rparr>) w)"
  then show ?thesis
    by (simp add: rows_def) (simp add: UserIdentities_def user_identities_schema_def Users_def)
qed

lemma stored_user:
  assumes "run_state (Create E (Users E) r) w = (Inr r', w')"
  shows "User_Email r' = User_Email r \<and> User_Subject r' = User_Subject r \<and> rows (Users E) w' = rows (Users E) w @ [r']
    \<and> rows UserIdentities w' = rows UserIdentities w \<and> User_ID r' = tbl_next (users w)"
  using assms
proof (rule Users.CreateE)
  assume "r' = sch_set_id (m_schema (Users E)) (tbl_next (m_table (Users E) w)) (m_created (Users E) (clock E (ticks w)) r)"
    and "rows (Users E) w' = rows (Users E) w @ [r']"
    and "w' = counted 1 1 (m_put (Users E) (m_table (Users E) w
        \<lparr>tbl_rows := rows (Users E) w @ [r'], tbl_next := tbl_next (m_table (Users E) w) + 1\<rparr>) w)"
  then show ?thesis
    by (simp add: rows_def) (simp add: UserIdentities_def users_schema_def Users_def)
qed

lemma create_from_identityE:
  assumes "run_state (create_from_identity E i email) w = (Inr u, w')"
  obtains r where "rows (Users E) w' = rows (Users E) w @ [u]" and "rows UserIdentities w' = rows UserIdentities w @ [r]"
    and "identity_of i r" and "Ident_UserID r = User_ID u" and "User_ID u = tbl_next (users w)"
    and "User_Email u = (if email = [] then syntheticEmail i else email)"
proof -
  obtain s v where s: "run_state (randomSubject E) w = (s, v)" and v: "v = w\<lparr>entropy_reads := Suc (entropy_reads w)\<rparr>"
    by (simp add: randomSubject_def run_RandRead split: option.split)
  from assms s obtain subject where subj: "s = Inr subject"
    by (cases s) (simp_all add: create_from_identity_def Let_def)
  let ?u = "\<lparr>User_ID = 0, User_Subject = subject, User_Email = (if email = [] then syntheticEmail i else email),
      User_CreatedAt = zero_time, User_UpdatedAt = zero_time\<rparr>"
  let ?r = "\<lparr>Ident_ID = 0, Ident_UserID = 0, Ident_Provider = Identity_Provider i,
      Ident_ProviderSubject = Identity_Subject i, Ident_Email = Identity_Email i,
      Ident_EmailVerified = Identity_EmailVerified i, Ident_Name = Identity_Name i,
      Ident_CreatedAt = zero_time, Ident_UpdatedAt = zero_time\<rparr>"
  obtain r where tx: "run_state (gormUserIdentityRepo_CreateWithUser E ?u ?r) v = (Inr (u, r), w')"
    using assms s subj by (auto simp: create_from_identity_def Let_def split: prod.splits sum.splits)
  then show thesis
    unfolding gormUserIdentityRepo_CreateWithUser_def
  proof (cases rule: TransactionE)
    case (committed ur x)
    obtain a y where a0: "run_state (Create E (Users E) ?u) (counted 0 1 v) = (a, y)" by fastforce
    with committed(1) obtain u' where a: "run_state (Create E (Users E) ?u) (counted 0 1 v) = (Inr u', y)"
      by (cases a) auto
    obtain b z where b0: "run_state (Create E UserIdentities (?r\<lparr>Ident_UserID := User_ID u'\<rparr>)) y = (b, z)" by fastforce
    with committed(1) a obtain r' where b: "run_state (Create E UserIdentities (?r\<lparr>Ident_UserID := User_ID u'\<rparr>)) y = (Inr r', x)"
      and ur: "ur = (u', r')"
      by (cases b) auto
    have "u' = u" "r' = r" using ur committed(3) by auto
    then show thesis
      using stored_user [OF a] stored_identity [OF b] committed(2) v
      by (intro that [of r]) (auto simp: identity_of_def)
  qed simp_all
qed

text \<open>The ways a sign-in succeeds: a known identity, a verified address of a user, a new user.\<close>

lemma ProvisionUserE:
  assumes "run_state (ProviderService_ProvisionUser E i) w = (Inr u, w')"
  obtains (known) r where "r \<in> set (rows UserIdentities w)" and "identity_of i r" and "Ident_UserID r = User_ID u"
      and "u \<in> set (rows (Users E) w)" and "w' = counted 0 2 w"
  | (linked) r where "\<forall>r \<in> set (rows UserIdentities w). \<not> identity_of i r" and "u \<in> set (rows (Users E) w)"
      and "verified_email i \<noteq> []" and "citext E (User_Email u) = citext E (verified_email i)"
      and "rows UserIdentities w' = rows UserIdentities w @ [r]" and "identity_of i r" and "Ident_UserID r = User_ID u"
      and "rows (Users E) w' = rows (Users E) w"
  | (created) r where "\<forall>r \<in> set (rows UserIdentities w). \<not> identity_of i r"
      and "verified_email i \<noteq> [] \<Longrightarrow> \<forall>v \<in> set (rows (Users E) w). citext E (User_Email v) \<noteq> citext E (verified_email i)"
      and "rows (Users E) w' = rows (Users E) w @ [u]" and "rows UserIdentities w' = rows UserIdentities w @ [r]"
      and "identity_of i r" and "Ident_UserID r = User_ID u" and "User_ID u = tbl_next (users w)"
      and "User_Email u = (if verified_email i = [] then syntheticEmail i else verified_email i)"
proof -
  let ?P = "\<lambda>r. Ident_Provider r = Identity_Provider i \<and> Ident_ProviderSubject r = Identity_Subject i"
  let ?l = "lookup E UserIdentities ?P w"
  show thesis
  proof (cases ?l)
    case (Inr r)
    with assms have "lookup E (Users E) (\<lambda>u. User_ID u = Ident_UserID r) (counted 0 1 w) = Inr u" and "w' = counted 0 2 w"
      by (auto simp: ProviderService_ProvisionUser_def run_lookups numeral_2_eq_2)
    with lookup_InrD [OF Inr] lookup_InrD [OF this(1)] show thesis
      by (intro known [of r]) (auto simp: identity_of_def)
  next
    case (Inl e)
    then have absent: "\<forall>r \<in> set (rows UserIdentities w). \<not> identity_of i r" if "e = ErrNotFound"
      using that by (auto simp: lookup_def identity_of_def find_None_iff split: if_splits option.splits)
    from Inl have e: "e = ErrNotFound \<or> e = ErrDB ConnectionFailed"
      by (auto simp: lookup_def split: if_splits option.splits)
    with assms Inl have enf: "e = ErrNotFound"
      by (auto simp: ProviderService_ProvisionUser_def run_lookups)
    have created': thesis if "run_state (create_from_identity E i (verified_email i)) v = (Inr u, w')"
      "rows (Users E) v = rows (Users E) w" "rows UserIdentities v = rows UserIdentities w" "users v = users w"
      "verified_email i \<noteq> [] \<Longrightarrow> \<forall>v \<in> set (rows (Users E) w). citext E (User_Email v) \<noteq> citext E (verified_email i)" for v
      using that(1) by (rule create_from_identityE) (use that absent [OF enf] created in simp)
    show thesis
    proof (cases "verified_email i = []")
      case True
      then show thesis
        using assms Inl enf by (intro created' [of "counted 0 1 w"])
          (simp_all add: ProviderService_ProvisionUser_def run_lookups verified_email_def [symmetric] Let_def)
    next
      case False
      let ?k = "lookup E (Users E) (\<lambda>u. citext E (User_Email u) = citext E (verified_email i)) (counted 0 1 w)"
      show thesis
      proof (cases ?k)
        case (Inr v)
        then have link: "run_state (link_identity E i (verified_email i) v) (counted 0 2 w) = (Inr u, w')"
          using assms Inl enf False
          by (simp add: ProviderService_ProvisionUser_def run_lookups verified_email_def [symmetric] Let_def numeral_2_eq_2)
        obtain r where "v = u" and r: "run_state (Create E UserIdentities
            \<lparr>Ident_ID = 0, Ident_UserID = User_ID v, Ident_Provider = Identity_Provider i,
             Ident_ProviderSubject = Identity_Subject i, Ident_Email = verified_email i, Ident_EmailVerified = True,
             Ident_Name = Identity_Name i, Ident_CreatedAt = zero_time, Ident_UpdatedAt = zero_time\<rparr>) (counted 0 2 w) = (Inr r, w')"
          using link by (auto simp: link_identity_def gormUserIdentityRepo_Create_def split: prod.splits sum.splits)
        then show thesis
          using stored_identity [OF r] lookup_InrD [OF Inr] False absent [OF enf]
          by (intro linked [of r]) (auto simp: identity_of_def)
      next
        case (Inl e')
        then have "e' = ErrNotFound \<or> e' = ErrDB ConnectionFailed"
          and none: "e' = ErrNotFound \<Longrightarrow> \<forall>v \<in> set (rows (Users E) w). citext E (User_Email v) \<noteq> citext E (verified_email i)"
          by (auto simp: lookup_def find_None_iff split: if_splits option.splits)
        moreover have "run_state (ProviderService_ProvisionUser E i) w =
            (if e' = ErrNotFound then run_state (create_from_identity E i (verified_email i)) (counted 0 2 w) else (Inl e', counted 0 2 w))"
          using Inl \<open>?l = Inl e\<close> enf False calculation(1)
          by (auto simp: ProviderService_ProvisionUser_def run_lookups verified_email_def [symmetric] Let_def numeral_2_eq_2)
        ultimately show thesis
          using assms by (intro created' [of "counted 0 2 w"]) (auto split: if_splits)
      qed
    qed
  qed
qed

section \<open>Properties\<close>

definition sample_identity :: identity where
  "sample_identity = \<lparr>Identity_Provider = ''github'', Identity_Subject = ''42'', Identity_Email = ''a@b'',
     Identity_EmailVerified = False, Identity_Name = ''A''\<rparr>"

lemma empty_world_ok: "world_ok E empty_world"
  by (simp add: world_ok_def model_ok_def rows_def empty_world_def Users_def Sessions_def Operators_def OperatorSessions_def
      Applications_def IdentityProviders_def UserIdentities_def OAuthClients_def Codes_def) (simp add: empty_table_def)

lemma run_sample_identity:
  "\<exists>u w'. run_state (ProviderService_ProvisionUser calm_env sample_identity) empty_world = (Inr u, w')"
  by (simp add: ProviderService_ProvisionUser_def run_lookups lookup_def rows_def UserIdentities_def Users_def sample_identity_def
      create_from_identity_def randomSubject_def run_RandRead gormUserIdentityRepo_CreateWithUser_def Transaction_def sql_def
      Create_def run_Now gorm_insert_def table_insert_def users_schema_def user_identities_schema_def empty_world_def
      empty_table_def has_row_def Let_def)

lemma identity_has_user:
  assumes "world_ok E w" and "r \<in> set (rows UserIdentities w)"
  shows "\<exists>u. find (\<lambda>u. User_ID u = Ident_UserID r) (rows (Users E) w) = Some u"
proof -
  have "has_row User_ID (users w) (Ident_UserID r)"
    using world_ok_models(7) [OF assms(1)] assms(2) by (simp add: model_ok_def UserIdentities_def user_identities_schema_def)
  then show ?thesis
    by (cases "find (\<lambda>u. User_ID u = Ident_UserID r) (rows (Users E) w)") (auto simp: has_row_iff find_None_iff rows_def Users_def)
qed

lemma known_identity_signs_in:
  assumes "world_ok calm_env w" and "r \<in> set (rows UserIdentities w)" and "identity_of i r"
  shows "\<exists>v w'. run_state (ProviderService_ProvisionUser calm_env i) w = (Inr v, w')"
proof -
  let ?P = "\<lambda>r. Ident_Provider r = Identity_Provider i \<and> Ident_ProviderSubject r = Identity_Subject i"
  obtain s where s: "find ?P (rows UserIdentities w) = Some s"
    using assms(2,3) by (cases "find ?P (rows UserIdentities w)") (auto simp: find_None_iff identity_of_def)
  with identity_has_user [OF assms(1)] obtain u where "find (\<lambda>u. User_ID u = Ident_UserID s) (rows (Users calm_env) w) = Some u"
    by (blast dest: find_SomeD)
  with s show ?thesis by (simp add: ProviderService_ProvisionUser_def run_lookups lookup_def)
qed

text \<open>
  C23.  Which account an identity signs in to.  On success the identity is linked to the user returned.
  Either it was linked to that user before; or it was linked to nobody, the provider says its address is
  verified and the user is the one with that address; or the user is new, with the verified address or,
  when there is none, an address made from the provider's subject.  So an address the provider has not
  verified neither signs in to an existing account nor is ever stored as the address of a user.
\<close>

theorem provision_user_accounts:
  assumes "run_state (ProviderService_ProvisionUser E i) w = (Inr u, w')"
  shows "u \<in> set (rows (Users E) w')
    \<and> (\<exists>r \<in> set (rows UserIdentities w'). identity_of i r \<and> Ident_UserID r = User_ID u)
    \<and> ((\<exists>r \<in> set (rows UserIdentities w). identity_of i r \<and> Ident_UserID r = User_ID u) \<and> rows (Users E) w' = rows (Users E) w
       \<or> Identity_EmailVerified i \<and> rows (Users E) w' = rows (Users E) w
         \<and> citext E (User_Email u) = citext E (TrimSpace (Identity_Email i)) \<and> (\<exists>c s. TrimSpace (Identity_Email i) = c # s)
       \<or> rows (Users E) w' = rows (Users E) w @ [u]
         \<and> User_Email u = (if Identity_EmailVerified i \<and> TrimSpace (Identity_Email i) \<noteq> []
                           then TrimSpace (Identity_Email i) else syntheticEmail i))"
  using assms
proof (cases rule: ProvisionUserE)
  case (known r)
  then show ?thesis by auto
next
  case (linked r)
  then show ?thesis
    by (cases "TrimSpace (Identity_Email i)") (auto simp: verified_email_def split: if_splits)
next
  case (created r)
  then show ?thesis by (simp add: verified_email_def)
qed

theorem provision_user_accounts_witness:
  "\<exists>u w'. run_state (ProviderService_ProvisionUser calm_env sample_identity) empty_world = (Inr u, w')
     \<and> User_Email u = ''github-42@users.centrauth.invalid''"
proof -
  obtain u w' where run: "run_state (ProviderService_ProvisionUser calm_env sample_identity) empty_world = (Inr u, w')"
    using run_sample_identity by blast
  have "rows UserIdentities empty_world = []" "\<not> Identity_EmailVerified sample_identity"
    by (simp_all add: rows_def UserIdentities_def empty_world_def empty_table_def sample_identity_def)
  moreover have "syntheticEmail sample_identity = ''github-42@users.centrauth.invalid''"
    by code_simp
  ultimately show ?thesis
    using provision_user_accounts [OF run] run by auto
qed

text \<open>
  C24.  Signing in again.  Once an identity has signed in, the same provider and subject lead to the same
  user for as long as the identity is on record, whatever address and name the provider reports then, and no
  user or identity is added.
\<close>

theorem provision_user_stable:
  assumes "run_state (ProviderService_ProvisionUser E i) w = (Inr u, w1)"
    and "Identity_Provider i' = Identity_Provider i" and "Identity_Subject i' = Identity_Subject i"
    and "world_ok E w2" and "set (rows UserIdentities w1) \<subseteq> set (rows UserIdentities w2)"
    and "run_state (ProviderService_ProvisionUser E i') w2 = (Inr v, w3)"
  shows "User_ID v = User_ID u \<and> rows (Users E) w3 = rows (Users E) w2 \<and> rows UserIdentities w3 = rows UserIdentities w2"
proof -
  from assms(1) obtain r where "r \<in> set (rows UserIdentities w1)" and r: "identity_of i r" "Ident_UserID r = User_ID u"
    by (cases rule: ProvisionUserE) auto
  with assms(5) have r2: "r \<in> set (rows UserIdentities w2)" by blast
  have same: "identity_of i' = identity_of i" using assms(2,3) by (simp add: identity_of_def fun_eq_iff)
  from assms(6) show ?thesis
  proof (cases rule: ProvisionUserE)
    case (known s)
    have "table_ok user_identities_schema (user_identities w2)"
      using world_ok_models(7) [OF assms(4)] by (simp add: model_ok_def UserIdentities_def)
    moreover have "sch_clash user_identities_schema s r"
      using known(2) r(1) same by (simp add: identity_of_def user_identities_schema_def)
    ultimately have "s = r"
      using known(1) r2 by (intro user_identities_tbl.table_ok_clash) (simp_all add: rows_def UserIdentities_def)
    then show ?thesis using known r by simp
  next
    case linked
    then show ?thesis using r2 r same by auto
  next
    case created
    then show ?thesis using r2 r same by auto
  qed
qed

theorem provision_user_stable_witness:
  "\<exists>u w1 v w3. run_state (ProviderService_ProvisionUser calm_env sample_identity) empty_world = (Inr u, w1)
     \<and> run_state (ProviderService_ProvisionUser calm_env (sample_identity\<lparr>Identity_Email := ''c@d'', Identity_EmailVerified := True\<rparr>)) w1 = (Inr v, w3)
     \<and> User_ID v = User_ID u"
proof -
  let ?i = "sample_identity\<lparr>Identity_Email := ''c@d'', Identity_EmailVerified := True\<rparr>"
  obtain u w1 where run: "run_state (ProviderService_ProvisionUser calm_env sample_identity) empty_world = (Inr u, w1)"
    using run_sample_identity by blast
  have ok: "world_ok calm_env w1"
    using sound_world_ok [OF sound_ProviderService(6) empty_world_ok, of calm_env sample_identity] run by simp
  from run have "\<exists>r. r \<in> set (rows UserIdentities w1) \<and> identity_of ?i r \<and> Ident_UserID r = User_ID u \<and> u \<in> set (rows (Users calm_env) w1)"
    by (cases rule: ProvisionUserE) (auto simp: identity_of_def)
  then have "\<exists>v w3. run_state (ProviderService_ProvisionUser calm_env ?i) w1 = (Inr v, w3)"
    using known_identity_signs_in [OF ok] by blast
  then obtain v w3 where run2: "run_state (ProviderService_ProvisionUser calm_env ?i) w1 = (Inr v, w3)" by blast
  from provision_user_stable [OF run _ _ ok subset_refl run2] run run2 show ?thesis by fastforce
qed

section \<open>Stored provider secrets\<close>

lemma idp_upsert_find:
  assumes "idp_upsert r w = (Inr r', w')"
  shows "\<exists>q. find (\<lambda>p. IdP_ApplicationID p = IdP_ApplicationID r \<and> IdP_Provider p = IdP_Provider r) (rows IdentityProviders w') = Some q
    \<and> IdP_ClientID q = IdP_ClientID r \<and> IdP_ClientSecretEncrypted q = IdP_ClientSecretEncrypted r \<and> IdP_Enabled q = IdP_Enabled r"
proof -
  let ?same = "\<lambda>p. IdP_ApplicationID p = IdP_ApplicationID r \<and> IdP_Provider p = IdP_Provider r"
  let ?t = "identity_providers w"
  show ?thesis
  proof (cases "find ?same (tbl_rows ?t)")
    case None
    with assms have ins: "gorm_insert IdentityProviders r w = (Inr r', w')"
      by (simp add: idp_upsert_def Let_def split: if_splits)
    then have "rows IdentityProviders w' = rows IdentityProviders w @ [r']" and "r' = r\<lparr>IdP_ID := tbl_next ?t\<rparr>"
      by (auto simp: gorm_insert_def table_insert_def Let_def rows_def identity_providers_schema_def IdentityProviders_def split: if_splits)
    with None show ?thesis by (simp add: find_append rows_def)
  next
    case (Some p)
    let ?g = "\<lambda>q. q\<lparr>IdP_ClientID := IdP_ClientID r, IdP_ClientSecretEncrypted := IdP_ClientSecretEncrypted r,
                   IdP_Enabled := IdP_Enabled r, IdP_UpdatedAt := IdP_UpdatedAt r\<rparr>"
    from Some assms have "rows IdentityProviders w' = map (\<lambda>q. if ?same q then ?g q else q) (tbl_rows ?t)"
      by (auto simp: idp_upsert_def Let_def rows_def table_update_def split: if_splits)
    moreover have "find ?same (map (\<lambda>q. if ?same q then ?g q else q) (tbl_rows ?t)) = map_option (\<lambda>q. if ?same q then ?g q else q) (find ?same (tbl_rows ?t))"
      by (rule find_map_same) simp
    ultimately show ?thesis using Some find_SomeD [OF Some] by simp
  qed
qed

lemma provider_secretE:
  assumes "run_state (provider_secret E box input existing verr) w = (Inr (verr', enc), w')" and "verr' = []"
    and "entropy_fills E" and "aead_opens box"
  shows "verr = []" and "if TrimSpace (Prov_ClientSecret input) = [] then \<exists>p. existing = Some p \<and> enc = IdP_ClientSecretEncrypted p
      else Box_Decrypt box enc = Inr (Prov_ClientSecret input)"
proof -
  obtain r v where r: "run_state (Box_Encrypt E box (Prov_ClientSecret input)) w = (r, v)" by fastforce
  show "verr = []"
    using assms(1,2) r by (auto simp: provider_secret_def split: if_splits sum.splits option.splits)
  have "r = Inr enc" if "TrimSpace (Prov_ClientSecret input) \<noteq> []"
    using assms(1) r that by (auto simp: provider_secret_def split: sum.splits)
  then have "TrimSpace (Prov_ClientSecret input) \<noteq> [] \<Longrightarrow> Box_Decrypt box enc = Inr (Prov_ClientSecret input)"
    using Decrypt_Encrypt [OF _ assms(3,4)] r by blast
  then show "if TrimSpace (Prov_ClientSecret input) = [] then \<exists>p. existing = Some p \<and> enc = IdP_ClientSecretEncrypted p
      else Box_Decrypt box enc = Inr (Prov_ClientSecret input)"
    using assms(1,2) by (auto simp: provider_secret_def split: option.splits)
qed

lemma UpsertE:
  assumes "run_state (ProviderService_Upsert E box aid input) w = (Inr (), w')" and "entropy_fills E" and "aead_opens box"
  defines "name \<equiv> ToLower E (TrimSpace (Prov_Provider input))"
  obtains q enc where "find (\<lambda>p. IdP_ApplicationID p = aid \<and> IdP_Provider p = name) (rows IdentityProviders w') = Some q"
    and "IdP_ClientID q = TrimSpace (Prov_ClientID input)" and "IdP_Enabled q = Prov_Enabled input"
    and "IsSupported name" and "TrimSpace (Prov_ClientID input) \<noteq> []"
    and "if TrimSpace (Prov_ClientSecret input) = []
         then \<exists>p. lookup E IdentityProviders (\<lambda>p. IdP_ApplicationID p = aid \<and> IdP_Provider p = name) w = Inr p
                \<and> IdP_ClientSecretEncrypted q = IdP_ClientSecretEncrypted p
         else Box_Decrypt box (IdP_ClientSecretEncrypted q) = Inr (Prov_ClientSecret input)"
proof -
  let ?v = "provider_errors name (TrimSpace (Prov_ClientID input))"
  let ?l = "lookup E IdentityProviders (\<lambda>p. IdP_ApplicationID p = aid \<and> IdP_Provider p = name) w"
  let ?ex = "case ?l of Inl _ \<Rightarrow> None | Inr p \<Rightarrow> Some p"
  obtain s u where s: "run_state (provider_secret E box input ?ex ?v) (counted 0 1 w) = (s, u)" by fastforce
  note up = assms(1) [unfolded ProviderService_Upsert_def Let_def, folded name_def]
  from up s obtain enc where enc: "s = Inr ([], enc)"
    by (auto simp: run_lookups split: if_splits sum.splits prod.splits)
  note sec = provider_secretE [OF s [unfolded enc] refl assms(2,3)]
  let ?r = "\<lparr>IdP_ID = 0, IdP_ApplicationID = aid, IdP_Provider = name, IdP_ClientID = TrimSpace (Prov_ClientID input),
                IdP_ClientSecretEncrypted = enc, IdP_Enabled = Prov_Enabled input,
                IdP_CreatedAt = zero_time, IdP_UpdatedAt = zero_time\<rparr>"
  from up s enc obtain r' where "run_state (gormIdentityProviderRepo_Upsert E ?r) u = (Inr r', w')"
    by (auto simp: run_lookups split: if_splits sum.splits prod.splits)
  then obtain x now where "idp_upsert (m_created IdentityProviders now ?r) x = (Inr r', w')"
    by (auto simp: gormIdentityProviderRepo_Upsert_def run_Now sql_def Let_def split: fault.splits)
  from idp_upsert_find [OF this] obtain q where
    "find (\<lambda>p. IdP_ApplicationID p = aid \<and> IdP_Provider p = name) (rows IdentityProviders w') = Some q"
    "IdP_ClientID q = TrimSpace (Prov_ClientID input)" "IdP_ClientSecretEncrypted q = enc" "IdP_Enabled q = Prov_Enabled input"
    by (auto simp: IdentityProviders_def)
  moreover have "IsSupported name" "TrimSpace (Prov_ClientID input) \<noteq> []"
    using sec(1) by (auto simp: provider_errors_def Let_def split: if_splits)
  moreover have "\<exists>p. ?l = Inr p \<and> enc = IdP_ClientSecretEncrypted p" if "?ex = Some p" "enc = IdP_ClientSecretEncrypted p" for p
    using that by (auto split: sum.splits)
  ultimately show thesis
    using sec(2) by (intro that [of q]) (auto split: if_splits)
qed

lemma run_ProviderService_Get [run_simps]:
  "run_state (ProviderService_Get E box aid pr) w =
     (case lookup E IdentityProviders (\<lambda>p. IdP_ApplicationID p = aid \<and> IdP_Provider p = pr) w of
        Inl e \<Rightarrow> Inl e
      | Inr record \<Rightarrow> (case Box_Decrypt box (IdP_ClientSecretEncrypted record) of
            Inl e \<Rightarrow> Inl (ErrWrapped ''decrypt provider secret: '' e) | Inr secret \<Rightarrow> Inr (record, secret)),
      counted 0 1 w)"
  by (simp add: ProviderService_Get_def run_lookups)

text \<open>
  C25.  A provider's client secret survives storage.  After a successful Upsert, Get returns the trimmed
  client identifier, the switch and the secret of the form when the form had one; when it was left blank,
  Get returns the secret, or the decryption error, it returned before.
\<close>

theorem provider_secret_roundtrip:
  assumes "run_state (ProviderService_Upsert E box aid input) w = (Inr (), w')"
    and "entropy_fills E" and "aead_opens box" and "db_fault E (db_calls w') = NoFault"
  shows "let name = ToLower E (TrimSpace (Prov_Provider input));
             got = fst (run_state (ProviderService_Get E box aid name) w');
             before = fst (run_state (ProviderService_Get E box aid name) w)
         in if TrimSpace (Prov_ClientSecret input) = [] then map_sum (\<lambda>e. e) snd got = map_sum (\<lambda>e. e) snd before
            else \<exists>record. got = Inr (record, Prov_ClientSecret input)
              \<and> IdP_ClientID record = TrimSpace (Prov_ClientID input) \<and> IdP_Enabled record = Prov_Enabled input"
  using assms(1-3)
proof (rule UpsertE)
  fix q
  let ?name = "ToLower E (TrimSpace (Prov_Provider input))"
  let ?P = "\<lambda>p. IdP_ApplicationID p = aid \<and> IdP_Provider p = ?name"
  assume q: "find ?P (rows IdentityProviders w') = Some q" "IdP_ClientID q = TrimSpace (Prov_ClientID input)"
      "IdP_Enabled q = Prov_Enabled input"
    and secret: "if TrimSpace (Prov_ClientSecret input) = []
         then \<exists>p. lookup E IdentityProviders ?P w = Inr p \<and> IdP_ClientSecretEncrypted q = IdP_ClientSecretEncrypted p
         else Box_Decrypt box (IdP_ClientSecretEncrypted q) = Inr (Prov_ClientSecret input)"
  have "lookup E IdentityProviders ?P w' = Inr q"
    using q(1) assms(4) by (simp add: lookup_def)
  then show ?thesis
    using secret q(2,3) by (auto simp: run_ProviderService_Get Let_def split: sum.split if_splits)
qed

definition plain_box :: aead where
  "plain_box = \<lparr>NonceSize = 2, Seal = (\<lambda>n p. rev p), Open = (\<lambda>n c. Some (rev c))\<rparr>"

definition sample_provider :: provider_input where
  "sample_provider = \<lparr>Prov_Provider = ''GitHub'', Prov_ClientID = '' gh '', Prov_ClientSecret = ''s3cret'', Prov_Enabled = True\<rparr>"

theorem provider_secret_roundtrip_witness:
  "\<exists>w w' record. run_state (ProviderService_Upsert calm_env plain_box 1 sample_provider) w = (Inr (), w')
     \<and> fst (run_state (ProviderService_Get calm_env plain_box 1 ''github'') w') = Inr (record, ''s3cret'')"
proof -
  define w where "w = empty_world\<lparr>applications := \<lparr>tbl_rows = [\<lparr>App_ID = 1, App_Name = ''Shop'', App_Description = [],
     App_FirstParty = True, App_AllowedScopes = [], App_CreatedAt = 0, App_UpdatedAt = 0\<rparr>], tbl_next = 2\<rparr>\<rparr>"
  have pure: "TrimSpace ''s3cret'' = ''s3cret''" "TrimSpace '' gh '' = ''gh''" "ToLower calm_env (TrimSpace ''GitHub'') = ''github''"
    by code_simp+
  have "\<exists>w'. run_state (ProviderService_Upsert calm_env plain_box 1 sample_provider) w = (Inr (), w')"
    by (simp add: w_def sample_provider_def ProviderService_Upsert_def pure provider_errors_def IsSupported_iff run_lookups lookup_def rows_def
        provider_secret_def Box_Encrypt_def run_RandRead plain_box_def gormIdentityProviderRepo_Upsert_def run_Now sql_def
        idp_upsert_def gorm_insert_def table_insert_def IdentityProviders_def identity_providers_schema_def empty_world_def
        empty_table_def has_row_def Let_def)
  then obtain w' where run: "run_state (ProviderService_Upsert calm_env plain_box 1 sample_provider) w = (Inr (), w')" by blast
  have "aead_opens plain_box" by (simp add: aead_opens_def plain_box_def)
  from provider_secret_roundtrip [OF run entropy_fills_calm this] run show ?thesis
    by (auto simp: sample_provider_def pure Let_def)
qed

end
