(* ===== verification/Authorize.thy ===== *)
theory Authorize
  imports Token Provider_Service
begin

text \<open>
  The authorization endpoint (internal/authorize.go): checks of the request, the prompt for users who
  are not signed in, the pending request in an encrypted cookie, and the issue of codes.
\<close>

section \<open>Pages and error redirects\<close>

definition authorizePromptCookie :: string where
  "authorizePromptCookie = ''centrauth_authz''"

definition authorizeRequestTTL :: duration where
  "authorizeRequestTTL = 10 * Minute"

definition renderAuthorizeError :: "nat \<Rightarrow> string \<Rightarrow> string \<Rightarrow> response" where
  "renderAuthorizeError status code message =
     renderPage status ''authorize_error.html''
       [(''Title'', Txt ''Authorization error''), (''Code'', Txt code), (''Message'', Txt message)]"

definition redirectAuthorizeError :: "env \<Rightarrow> authorize_request \<Rightarrow> authorize_error \<Rightarrow> response" where
  "redirectAuthorizeError E req apErr =
     (case Parse E (Req_RedirectURI req) of
        None \<Rightarrow> renderAuthorizeError StatusBadRequest (Err_Code apErr) (Err_Description apErr)
      | Some redirectURL \<Rightarrow>
          let query = Query (URL_RawQuery redirectURL);
              query = Set_value ''error'' (Err_Code apErr) query;
              query = Set_value ''error_description'' (Err_Description apErr) query;
              query = (if Req_State req \<noteq> [] then Set_value ''state'' (Req_State req) query else query)
          in Redirect (url_String (redirectURL\<lparr>URL_RawQuery := Encode query\<rparr>)) StatusFound)"

section \<open>The prompt\<close>

definition providerLabel :: "string \<Rightarrow> string" where
  "providerLabel provider =
     (if provider = ''google'' then ''Continue with Google''
      else if provider = ''github'' then ''Continue with GitHub''
      else ''Continue with '' @ provider)"

text \<open>Name and label of the button of each enabled provider.\<close>

definition promptsForApp :: "app \<Rightarrow> int \<Rightarrow> (world, goerr + (string \<times> string) list) state" where
  "promptsForApp A applicationID = do {
     records \<leftarrow> ProviderService_List (app_env A) applicationID;
     ret (case records of
            Inl e \<Rightarrow> Inl e
          | Inr records \<Rightarrow>
              Inr (map (\<lambda>record. (IdP_Provider record, providerLabel (IdP_Provider record))) (filter IdP_Enabled records)))
   }"

definition authorize_cookie :: "app \<Rightarrow> string \<Rightarrow> cookie" where
  "authorize_cookie A value =
     \<lparr>cookie_Name = authorizePromptCookie, cookie_Value = value, cookie_Path = ''/'', cookie_HttpOnly = True,
      cookie_Secure = HasPrefix (Issuer (app_discovery A)) ''https://'', cookie_SameSite = SameSiteLaxMode,
      cookie_MaxAge = seconds authorizeRequestTTL\<rparr>"

text \<open>The cookies set: none when the request cannot be protected.\<close>

definition storeAuthorizeRequest :: "app \<Rightarrow> request \<Rightarrow> (world, cookie list) state" where
  "storeAuthorizeRequest A r = do {
     encrypted \<leftarrow> Box_Encrypt (app_env A) (app_secrets A) (RequestURI r);
     ret (case encrypted of
            Inl e \<Rightarrow> []
          | Inr encrypted \<Rightarrow> [authorize_cookie A (RawURLEncode encrypted)])
   }"

definition readAuthorizeRequest :: "app \<Rightarrow> request \<Rightarrow> string option" where
  "readAuthorizeRequest A r =
     (case Request_Cookie r authorizePromptCookie of
        None \<Rightarrow> None
      | Some value \<Rightarrow>
          (case RawURLDecode value of
             None \<Rightarrow> None
           | Some encrypted \<Rightarrow>
               (case Box_Decrypt (app_secrets A) encrypted of
                  Inl e \<Rightarrow> None
                | Inr returnTo \<Rightarrow> if HasPrefix returnTo ''/authorize?'' then Some returnTo else None)))"

section \<open>The handler\<close>

definition authorize_server_error :: "string \<Rightarrow> authorize_error" where
  "authorize_server_error description = \<lparr>Err_Code = ''server_error'', Err_Description = description\<rparr>"

text \<open>Client and redirect URI: until they are known to be good, errors are shown and not redirected.\<close>

definition authorize_client :: "app \<Rightarrow> authorize_request \<Rightarrow> (world, response + oauth_client) state" where
  "authorize_client A req =
     (if Req_ClientID req = [] then
        ret (Inl (renderAuthorizeError StatusBadRequest ''invalid_request'' ''client_id is required''))
      else if Req_RedirectURI req = [] then
        ret (Inl (renderAuthorizeError StatusBadRequest ''invalid_request'' ''redirect_uri is required''))
      else do {
        found \<leftarrow> gormClientRepo_GetByClientID (app_env A) (Req_ClientID req);
        ret (case found of
               Inl e \<Rightarrow>
                 if errors_Is e ErrNotFound then
                   Inl (renderAuthorizeError StatusBadRequest ''invalid_client'' ''Unknown client_id'')
                 else Inl (renderAuthorizeError StatusInternalServerError ''server_error''
                             ''Unable to process the authorization request'')
             | Inr client \<Rightarrow>
                 if \<not> IsRedirectURIAllowed client (Req_RedirectURI req) then
                   Inl (renderAuthorizeError StatusBadRequest ''invalid_request''
                          ''redirect_uri is not registered for this client'')
                 else Inr client)
      })"

text \<open>The checks whose errors go back to the client.\<close>

definition authorize_application ::
    "app \<Rightarrow> authorize_request \<Rightarrow> oauth_client \<Rightarrow> (world, response + application) state" where
  "authorize_application A req client =
     (case Validate req of
        Some apErr \<Rightarrow> ret (Inl (redirectAuthorizeError (app_env A) req apErr))
      | None \<Rightarrow> do {
          found \<leftarrow> gormApplicationRepo_GetByID (app_env A) (Client_ApplicationID client);
          ret (case found of
                 Inl e \<Rightarrow> Inl (redirectAuthorizeError (app_env A) req (authorize_server_error ''Unable to load application''))
               | Inr application \<Rightarrow>
                   if \<not> ValidateRequestedScopes application (Req_Scope req) then
                     Inl (redirectAuthorizeError (app_env A) req
                       \<lparr>Err_Code = ''invalid_scope'',
                        Err_Description = ''One or more requested scopes are not allowed for this application''\<rparr>)
                   else Inr application)
        })"

definition authorize_prompt :: "app \<Rightarrow> request \<Rightarrow> oauth_client \<Rightarrow> application \<Rightarrow> (world, response) state" where
  "authorize_prompt A r client application = do {
     providers \<leftarrow> promptsForApp A (App_ID application);
     case providers of
       Inl e \<Rightarrow> ret (renderAuthorizeError StatusInternalServerError ''server_error'' ''Unable to load sign-in methods'')
     | Inr providers \<Rightarrow> do {
         cookies \<leftarrow> storeAuthorizeRequest A r;
         ret (with_cookies cookies (renderPage StatusOK ''authorize_prompt.html''
           [(''Title'', Txt (''Continue to '' @ App_Name application)), (''AppName'', Txt (App_Name application)),
            (''ClientID'', Txt (Client_ClientID client)), (''Providers'', Pairs providers)]))
       }
   }"

definition new_code :: "authorize_request \<Rightarrow> oauth_client \<Rightarrow> user \<Rightarrow> string \<Rightarrow> instant \<Rightarrow> authorization_code" where
  "new_code req client user rawCode now =
     \<lparr>Code_ID = 0, Code_CodeHash = HashAuthorizationCode rawCode, Code_OAuthClientID = Client_ID client,
      Code_UserID = User_ID user, Code_RedirectURI = Req_RedirectURI req, Code_Scope = Req_Scope req,
      Code_Nonce = (if Req_Nonce req \<noteq> [] then Some (Req_Nonce req) else None),
      Code_CodeChallenge = Req_CodeChallenge req, Code_CodeChallengeMethod = Req_CodeChallengeMethod req,
      Code_ExpiresAt = now + AuthorizationCodeTTL, Code_ConsumedAt = None,
      Code_CreatedAt = zero_time, Code_UpdatedAt = zero_time\<rparr>"

definition authorize_success :: "env \<Rightarrow> authorize_request \<Rightarrow> string \<Rightarrow> response" where
  "authorize_success E req rawCode =
     (case Parse E (Req_RedirectURI req) of
        None \<Rightarrow> renderAuthorizeError StatusBadRequest ''invalid_request'' ''redirect_uri is invalid''
      | Some redirectURL \<Rightarrow>
          let query = Query (URL_RawQuery redirectURL);
              query = Set_value ''code'' rawCode query;
              query = Set_value ''state'' (Req_State req) query
          in Redirect (url_String (redirectURL\<lparr>URL_RawQuery := Encode query\<rparr>)) StatusFound)"

definition authorize_issue ::
    "app \<Rightarrow> authorize_request \<Rightarrow> oauth_client \<Rightarrow> user \<Rightarrow> (world, response) state" where
  "authorize_issue A req client user = do {
     rawCode \<leftarrow> GenerateAuthorizationCode (app_env A);
     case rawCode of
       Inl e \<Rightarrow> ret (redirectAuthorizeError (app_env A) req (authorize_server_error ''Unable to issue authorization code''))
     | Inr rawCode \<Rightarrow> do {
         now \<leftarrow> Now (app_env A);
         stored \<leftarrow> gormCodeRepo_Create (app_env A) (new_code req client user rawCode now);
         ret (case stored of
                Inl e \<Rightarrow> redirectAuthorizeError (app_env A) req (authorize_server_error ''Unable to issue authorization code'')
              | Inr _ \<Rightarrow> authorize_success (app_env A) req rawCode)
       }
   }"

definition authorizeHandler :: "app \<Rightarrow> request \<Rightarrow> (world, response) state" where
  "authorizeHandler A r = do {
     let req = ParseAuthorizeRequest (URL_Query r);
     c \<leftarrow> authorize_client A req;
     case c of
       Inl resp \<Rightarrow> ret resp
     | Inr client \<Rightarrow> do {
         a \<leftarrow> authorize_application A req client;
         case a of
           Inl resp \<Rightarrow> ret resp
         | Inr application \<Rightarrow>
             (case UserFromContext r of
                None \<Rightarrow> authorize_prompt A r client application
              | Some user \<Rightarrow> authorize_issue A req client user)
       }
   }"

section \<open>What the parts do\<close>

lemma errors_Is_simps [simp]: "errors_Is ErrNotFound ErrNotFound" "\<not> errors_Is (ErrDB d) ErrNotFound"
  by simp_all

lemma renderAuthorizeError_simps [simp]:
  "resp_location (renderAuthorizeError n c m) = None" "resp_status (renderAuthorizeError n c m) = n"
  "resp_cookies (renderAuthorizeError n c m) = []"
  by (simp_all add: renderAuthorizeError_def)

lemma authorize_client_InrD:
  assumes "run_state (authorize_client A req) w = (Inr client, w')"
  shows "client \<in> set (rows OAuthClients w)" and "Client_ClientID client = Req_ClientID req"
    and "Req_RedirectURI req \<in> set (Client_RedirectURIs client)" and "w' = counted 0 1 w"
proof -
  have found: "lookup (app_env A) OAuthClients (\<lambda>c. Client_ClientID c = Req_ClientID req) w = Inr client"
    and rest: "IsRedirectURIAllowed client (Req_RedirectURI req)" "w' = counted 0 1 w"
    using assms by (auto simp: authorize_client_def run_lookups split: if_splits sum.splits)
  show "client \<in> set (rows OAuthClients w)" "Client_ClientID client = Req_ClientID req"
    using lookup_InrD [OF found] by blast+
  show "Req_RedirectURI req \<in> set (Client_RedirectURIs client)" "w' = counted 0 1 w"
    using rest by (simp_all add: IsRedirectURIAllowed_def)
qed

lemma authorize_client_InlD:
  assumes "run_state (authorize_client A req) w = (Inl resp, w')"
  shows "resp_location resp = None" and "\<exists>n. w' = counted 0 n w"
  using assms by (auto simp: authorize_client_def run_lookups split: if_splits sum.splits intro: exI [of _ 0])

lemma authorize_application_InrD:
  assumes "run_state (authorize_application A req client) w = (Inr application, w')"
  shows "Validate req = None" and "application \<in> set (rows Applications w)"
    and "App_ID application = Client_ApplicationID client" and "ValidateRequestedScopes application (Req_Scope req)"
    and "w' = counted 0 1 w"
proof -
  have "Validate req = None"
    and found: "lookup (app_env A) Applications (\<lambda>a. App_ID a = Client_ApplicationID client) w = Inr application"
    and rest: "ValidateRequestedScopes application (Req_Scope req)" "w' = counted 0 1 w"
    using assms by (auto simp: authorize_application_def run_lookups split: if_splits sum.splits option.splits)
  then show "Validate req = None" "application \<in> set (rows Applications w)"
    "App_ID application = Client_ApplicationID client" "ValidateRequestedScopes application (Req_Scope req)"
    "w' = counted 0 1 w"
    using lookup_InrD [OF found] by blast+
qed

lemma authorize_application_InlD:
  assumes "run_state (authorize_application A req client) w = (Inl resp, w')"
  shows "\<exists>apErr. resp = redirectAuthorizeError (app_env A) req apErr" and "\<exists>n. w' = counted 0 n w"
  using assms by (auto simp: authorize_application_def run_lookups split: if_splits sum.splits option.splits intro: exI [of _ 0])

lemma only_reads_prompt:
  assumes "run_state (authorize_prompt A r client application) w = (resp, w')"
  shows "resp_location resp = None" and "rows Codes w' = rows Codes w"
proof -
  obtain p u where p: "run_state (promptsForApp A (App_ID application)) w = (p, u)" by fastforce
  have u: "u = counted 0 1 w"
    using p unfolding promptsForApp_def ProviderService_List_def gormIdentityProviderRepo_ListByApplicationID_def sql_def
    by (auto simp: Let_def counted_def split: fault.splits)
  obtain cs v where s: "run_state (storeAuthorizeRequest A r) u = (cs, v)" by fastforce
  then have "rows Codes v = rows Codes u"
    unfolding storeAuthorizeRequest_def Box_Encrypt_def by (auto simp: run_RandRead rows_def Codes_def)
  with assms p s u show "resp_location resp = None" "rows Codes w' = rows Codes w"
    by (auto simp: authorize_prompt_def split: sum.splits)
qed

text \<open>The row of a code: what it was issued for, and for how long.\<close>

definition code_for :: "authorize_request \<Rightarrow> oauth_client \<Rightarrow> user \<Rightarrow> string \<Rightarrow> instant \<Rightarrow> authorization_code \<Rightarrow> bool" where
  "code_for req client user raw now c \<longleftrightarrow>
     Code_CodeHash c = Sum256 raw \<and> Code_OAuthClientID c = Client_ID client \<and> Code_UserID c = User_ID user
     \<and> Code_RedirectURI c = Req_RedirectURI req \<and> Code_Scope c = Req_Scope req
     \<and> Code_Nonce c = (if Req_Nonce req \<noteq> [] then Some (Req_Nonce req) else None)
     \<and> Code_CodeChallenge c = Req_CodeChallenge req \<and> Code_CodeChallengeMethod c = Req_CodeChallengeMethod req
     \<and> Code_ExpiresAt c = now + 60 * Second \<and> Code_ConsumedAt c = None"

lemma stored_code:
  assumes "Req_CodeChallengeMethod req \<noteq> []"
  shows "code_for req client user raw now (sch_set_id (m_schema Codes) i (m_created Codes now' (new_code req client user raw now)))"
  using assms by (simp add: code_for_def new_code_def Codes_def codes_schema_def or_default_def HashAuthorizationCode_def
      AuthorizationCodeTTL_def)

lemma authorize_issueE:
  assumes "run_state (authorize_issue A req client user) w = (resp, w')"
    and "Req_CodeChallengeMethod req \<noteq> []"
  obtains (no_code) apErr where "rows Codes w' = rows Codes w" and "resp = redirectAuthorizeError (app_env A) req apErr"
  | (code) b c where "entropy (app_env A) (entropy_reads w) 32 = Some b"
      and "rows Codes w' = rows Codes w @ [c]"
      and "code_for req client user (RawURLEncode b) (clock (app_env A) (ticks w)) c"
      and "resp = authorize_success (app_env A) req (RawURLEncode b) 
        \<or> (\<exists>apErr. resp = redirectAuthorizeError (app_env A) req apErr) \<and> (\<exists>k. db_fault (app_env A) k = LostReply)"
proof (cases "entropy (app_env A) (entropy_reads w) 32")
  case None
  with assms(1) show thesis
    by (intro no_code) (auto simp: authorize_issue_def run_Generate)
next
  case (Some b)
  let ?now = "clock (app_env A) (ticks w)"
  let ?u = "w\<lparr>entropy_reads := Suc (entropy_reads w), ticks := Suc (ticks w)\<rparr>"
  obtain res v where create: "run_state (Create (app_env A) Codes (new_code req client user (RawURLEncode b) ?now)) ?u = (res, v)"
    by fastforce
  have rest: "w' = v" "resp = (case res of Inl e \<Rightarrow> redirectAuthorizeError (app_env A) req (authorize_server_error ''Unable to issue authorization code'')
      | Inr _ \<Rightarrow> authorize_success (app_env A) req (RawURLEncode b))"
    using assms(1) Some create by (auto simp: authorize_issue_def run_Generate run_Now gormCodeRepo_Create_def split: sum.splits)
  from create show thesis
  proof (cases rule: Codes.CreateE')
    case (unchanged e)
    with rest show thesis by (intro no_code) auto
  next
    case (stored c i)
    then show thesis
      using Some rest stored_code [OF assms(2)] by (intro code [of b c]) (auto split: sum.splits)
  qed
qed

text \<open>The ways an authorization request ends.\<close>

lemma authorizeHandlerE:
  assumes "run_state (authorizeHandler A r) w = (resp, w')"
  defines "req \<equiv> ParseAuthorizeRequest (URL_Query r)"
  obtains (shown) "resp_location resp = None" and "rows Codes w' = rows Codes w"
  | (refused) client apErr where "client \<in> set (rows OAuthClients w)" and "Client_ClientID client = Req_ClientID req"
      and "Req_RedirectURI req \<in> set (Client_RedirectURIs client)"
      and "resp = redirectAuthorizeError (app_env A) req apErr" and "rows Codes w' = rows Codes w"
  | (issued) client application user b c where "client \<in> set (rows OAuthClients w)" and "Client_ClientID client = Req_ClientID req"
      and "Req_RedirectURI req \<in> set (Client_RedirectURIs client)"
      and "Validate req = None" and "application \<in> set (rows Applications w)"
      and "App_ID application = Client_ApplicationID client" and "ValidateRequestedScopes application (Req_Scope req)"
      and "req_user r = Some user" and "entropy (app_env A) (entropy_reads w) 32 = Some b"
      and "rows Codes w' = rows Codes w @ [c]"
      and "code_for req client user (RawURLEncode b) (clock (app_env A) (ticks w)) c"
      and "resp = authorize_success (app_env A) req (RawURLEncode b) 
        \<or> (\<exists>apErr. resp = redirectAuthorizeError (app_env A) req apErr) \<and> (\<exists>k. db_fault (app_env A) k = LostReply)"
proof -
  obtain c u where c: "run_state (authorize_client A req) w = (c, u)" by fastforce
  show thesis
  proof (cases c)
    case (Inl e)
    then have "resp = e" "w' = u" using assms(1) c by (simp_all add: authorizeHandler_def req_def [symmetric])
    with c Inl authorize_client_InlD show thesis by (intro shown) (auto dest!: authorize_client_InlD(2))
  next
    case (Inr client)
    note client = authorize_client_InrD [OF c [unfolded Inr]]
    obtain a v where a: "run_state (authorize_application A req client) u = (a, v)" by fastforce
    show thesis
    proof (cases a)
      case (Inl e)
      then have "resp = e" "w' = v" using assms(1) c Inr a by (simp_all add: authorizeHandler_def req_def [symmetric])
      with authorize_application_InlD [OF a [unfolded Inl]] client show thesis by (auto intro: refused)
    next
      case (Inr application)
      note application = authorize_application_InrD [OF a [unfolded Inr]]
      have run: "run_state (case req_user r of None \<Rightarrow> authorize_prompt A r client application
          | Some user \<Rightarrow> authorize_issue A req client user) v = (resp, w')"
        using assms(1) c \<open>c = Inr client\<close> a Inr by (simp add: authorizeHandler_def UserFromContext_def req_def [symmetric])
      have v: "v = counted 0 2 w" using client(4) application(5) by (simp add: numeral_2_eq_2)
      show thesis
      proof (cases "req_user r")
        case None
        with run v show thesis by (intro shown) (auto dest: only_reads_prompt)
      next
        case (Some user)
        have chal_method: "Req_CodeChallengeMethod req \<noteq> []"
          using application(1) by (auto simp: Validate_def split: if_splits)
        with run Some have "run_state (authorize_issue A req client user) v = (resp, w')" by simp
        from this chal_method show thesis
        proof (cases rule: authorize_issueE)
          case (no_code apErr)
          with client v show thesis by (auto intro: refused)
        next
          case (code b c)
          with client application Some v show thesis by (intro issued [of client application user b c]) auto
        qed
      qed
    qed
  qed
qed

section \<open>Where the browser is sent\<close>

lemma Parse_opaque:
  assumes "Parse E raw = Some u" and "URL_Host u \<noteq> []"
  shows "URL_Opaque u = []"
proof -
  have "URL_Opaque v = [] \<or> URL_Host v = []" if "parse_no_fragment E s = Some v" for s v
    using that by (auto simp: parse_no_fragment_def Let_def empty_url_def set_path_def
        split: if_splits option.splits prod.splits)
  with assms show ?thesis
    by (auto simp: Parse_def set_fragment_def split: if_splits option.splits prod.splits) blast+
qed

lemma url_String_host:
  assumes "URL_Scheme u \<noteq> []" and "URL_Host u \<noteq> []" and "URL_Opaque u = []"
  shows "\<exists>rest. url_String u = URL_Scheme u @ ''://'' @ rest"
  using assms by (simp add: url_String_def authority_string_def Let_def)

lemma hexEscapeNonASCII_append: "hexEscapeNonASCII (s @ t) = hexEscapeNonASCII s @ hexEscapeNonASCII t"
  by (induction s) auto

lemma hexEscape_web:
  "hexEscapeNonASCII (''https://'' @ t) = ''https://'' @ hexEscapeNonASCII t"
  "hexEscapeNonASCII (''http://'' @ t) = ''http://'' @ hexEscapeNonASCII t"
  by (simp_all add: less_char_def)

text \<open>A web address whose URL is an accepted one with another query.\<close>

lemma acceptable_location:
  assumes "Parse E uri = Some u" and "acceptable_url E u"
  shows "\<exists>rest. hexEscapeNonASCII (url_String (u\<lparr>URL_RawQuery := q\<rparr>)) = ''https://'' @ rest
    \<or> hexEscapeNonASCII (url_String (u\<lparr>URL_RawQuery := q\<rparr>)) = ''http://'' @ rest \<and> isLoopbackHost E (Hostname u)"
proof -
  have host: "URL_Host u \<noteq> []" and scheme: "URL_Scheme u = ''https'' \<or> URL_Scheme u = ''http'' \<and> isLoopbackHost E (Hostname u)"
    using assms(2) by (auto simp: acceptable_url_def)
  let ?v = "u\<lparr>URL_RawQuery := q\<rparr>"
  have "\<exists>rest. url_String ?v = URL_Scheme ?v @ ''://'' @ rest"
    using host scheme Parse_opaque [OF assms(1) host] by (intro url_String_host) auto
  then obtain rest where "url_String ?v = URL_Scheme u @ ''://'' @ rest" by auto
  with scheme show ?thesis using hexEscape_web [of rest] by auto
qed

lemma redirect_response:
  assumes "resp = redirectAuthorizeError E req apErr \<or> resp = authorize_success E req raw" and "resp_location resp = Some loc"
  shows "\<exists>u q. Parse E (Req_RedirectURI req) = Some u \<and> loc = hexEscapeNonASCII (url_String (u\<lparr>URL_RawQuery := q\<rparr>))"
  using assms by (auto simp: redirectAuthorizeError_def authorize_success_def Let_def split: option.splits)

lemma registered_acceptable:
  assumes "clients_ok E w" and "client \<in> set (rows OAuthClients w)" and "uri \<in> set (Client_RedirectURIs client)"
    and "Parse E uri = Some u"
  shows "acceptable_url E u"
proof -
  have "ValidateRedirectURI E uri = None" and "TrimSpace uri = uri"
    using assms by (auto simp: clients_ok_def well_registered_def)
  with assms(4) show ?thesis by (auto simp: ValidateRedirectURI_None_iff)
qed

lemma registered_parses:
  assumes "clients_ok E w" and "client \<in> set (rows OAuthClients w)" and "uri \<in> set (Client_RedirectURIs client)"
  shows "\<exists>u. Parse E uri = Some u"
proof -
  have "ValidateRedirectURI E uri = None" and "TrimSpace uri = uri"
    using assms by (auto simp: clients_ok_def well_registered_def)
  then show ?thesis by (auto simp: ValidateRedirectURI_None_iff)
qed

section \<open>Samples\<close>

definition authorize_values :: url_values where
  "authorize_values = [(''client_id'', ''cid''), (''redirect_uri'', ''https://app/cb''), (''response_type'', ''code''),
     (''state'', ''st''), (''scope'', ''openid email''), (''nonce'', ''n''),
     (''code_challenge'', PKCEChallenge sample_verifier), (''code_challenge_method'', ''S256'')]"

definition authorize_sample :: "user option \<Rightarrow> request" where
  "authorize_sample user = sample_request\<lparr>req_path := ''/authorize'', req_escaped_path := ''/authorize'',
     req_raw_query := Encode authorize_values, req_user := user\<rparr>"

definition sample_req :: authorize_request where
  "sample_req = \<lparr>Req_ClientID = ''cid'', Req_RedirectURI = ''https://app/cb'', Req_ResponseType = ''code'',
     Req_State = ''st'', Req_Scope = ''openid email'', Req_Nonce = ''n'', Req_CodeChallenge = PKCEChallenge sample_verifier,
     Req_CodeChallengeMethod = ''S256''\<rparr>"

lemma parse_authorize_sample: "ParseAuthorizeRequest (URL_Query (authorize_sample user)) = sample_req"
  by (simp add: ParseAuthorizeRequest_def URL_Query_def authorize_sample_def Get_Query_Encode)
    (simp add: Get_def authorize_values_def sample_req_def)

lemma authorize_sample_user: "UserFromContext (authorize_sample user) = user"
  by (simp add: authorize_sample_def UserFromContext_def)

lemma PKCEChallenge_length [simp]: "length (PKCEChallenge v) = 43"
  unfolding PKCEChallenge_def by (rule b64_encode_32) simp

lemma sample_req_valid: "Validate sample_req = None"
proof -
  have "PKCEChallenge sample_verifier \<noteq> []" using PKCEChallenge_length [of sample_verifier] by force
  then show ?thesis by (simp add: Validate_def sample_req_def)
qed

lemma sample_scopes: "ValidateRequestedScopes sample_application ''openid email''"
  by code_simp

definition authorize_world :: world where
  "authorize_world = grant_world\<lparr>codes := empty_table\<rparr>"

lemma run_authorize_client_sample:
  "run_state (authorize_client sample_app sample_req) authorize_world = (Inr sample_client, counted 0 1 authorize_world)"
  by (simp add: authorize_client_def sample_req_def run_lookups lookup_def rows_def authorize_world_def grant_world_def
      sample_client_def IsRedirectURIAllowed_def)

lemma run_authorize_application_sample:
  "run_state (authorize_application sample_app sample_req sample_client) (counted 0 (Suc 0) authorize_world)
     = (Inr sample_application, counted 0 2 authorize_world)"
  using sample_scopes
  by (simp add: authorize_application_def sample_req_valid run_lookups lookup_def rows_def authorize_world_def grant_world_def
      sample_client_def sample_application_def numeral_2_eq_2) (simp add: sample_req_def)

lemma run_authorize_issue_sample:
  "\<exists>c w'. run_state (authorize_issue sample_app sample_req sample_client sample_user) (counted 0 2 authorize_world)
      = (authorize_success calm_env sample_req (RawURLEncode (replicate 32 (char_of (entropy_reads authorize_world)))), w')
    \<and> rows Codes w' = [c]"
  by (simp add: authorize_issue_def run_Generate run_Now gormCodeRepo_Create_def Create_def sql_def gorm_insert_def
      table_insert_def Codes_def codes_schema_def rows_def authorize_world_def grant_world_def empty_table_def has_row_def
      signed_in_defs sample_client_def new_code_def sample_req_def or_default_def Let_def)

lemma run_authorize_sample:
  "\<exists>c w'. run_state (authorizeHandler sample_app (authorize_sample (Some sample_user))) authorize_world
      = (authorize_success calm_env sample_req (RawURLEncode (replicate 32 (char_of (entropy_reads authorize_world)))), w')
    \<and> rows Codes w' = [c]"
  using run_authorize_issue_sample
  by (simp add: authorizeHandler_def parse_authorize_sample run_authorize_client_sample run_authorize_application_sample Let_def
      authorize_sample_user)

lemma parse_sample_uri:
  "Parse calm_env ''https://app/cb'' = Some (empty_url\<lparr>URL_Scheme := ''https'', URL_Host := ''app'', URL_Path := ''/cb''\<rparr>)"
  using Parse_plain [of "''https''" "''app''" "''/cb''" calm_env]
  by (simp add: plain_byte_def plain_path_byte_def alphanumeric_def)

lemma sample_clients_ok: "clients_ok calm_env authorize_world"
proof -
  have "TrimSpace ''https://app/cb'' = ''https://app/cb''" by code_simp
  then have "ValidateRedirectURI calm_env ''https://app/cb'' = None"
    by (simp add: ValidateRedirectURI_None_iff parse_sample_uri acceptable_url_def empty_url_def HasPrefix_def)
  with \<open>TrimSpace ''https://app/cb'' = ''https://app/cb''\<close> show ?thesis
    by (simp add: clients_ok_def rows_def authorize_world_def grant_world_def sample_client_def well_registered_def
        clientTypes_def environments_def OAuthClients_def)
qed

section \<open>Properties\<close>

text \<open>
  C10.  The authorization endpoint is no open redirector.  When every stored client is well registered, a
  request is only ever answered with a redirect if its client exists and has registered the request's
  redirect URI; the target is that URI with nothing but its query changed, and it starts with
  https, or with http and a loopback host.
\<close>

theorem authorize_redirects_safely:
  assumes "run_state (authorizeHandler A r) w = (resp, w')" and "clients_ok (app_env A) w" and "resp_location resp = Some loc"
  shows "\<exists>client u q rest. client \<in> set (rows OAuthClients w)
    \<and> Client_ClientID client = Get (URL_Query r) ''client_id''
    \<and> Get (URL_Query r) ''redirect_uri'' \<in> set (Client_RedirectURIs client)
    \<and> Parse (app_env A) (Get (URL_Query r) ''redirect_uri'') = Some u
    \<and> loc = hexEscapeNonASCII (url_String (u\<lparr>URL_RawQuery := q\<rparr>))
    \<and> (loc = ''https://'' @ rest \<or> loc = ''http://'' @ rest \<and> isLoopbackHost (app_env A) (Hostname u))"
proof -
  let ?req = "ParseAuthorizeRequest (URL_Query r)"
  have "\<exists>client raw apErr. client \<in> set (rows OAuthClients w) \<and> Client_ClientID client = Req_ClientID ?req
      \<and> Req_RedirectURI ?req \<in> set (Client_RedirectURIs client)
      \<and> (resp = redirectAuthorizeError (app_env A) ?req apErr \<or> resp = authorize_success (app_env A) ?req raw)"
    using assms(1) by (cases rule: authorizeHandlerE) (use assms(3) in auto)
  then obtain client raw apErr where client: "client \<in> set (rows OAuthClients w)" "Client_ClientID client = Req_ClientID ?req"
      "Req_RedirectURI ?req \<in> set (Client_RedirectURIs client)"
    and resp: "resp = redirectAuthorizeError (app_env A) ?req apErr \<or> resp = authorize_success (app_env A) ?req raw"
    by blast
  from redirect_response [OF resp assms(3)] obtain u q
    where u: "Parse (app_env A) (Req_RedirectURI ?req) = Some u" "loc = hexEscapeNonASCII (url_String (u\<lparr>URL_RawQuery := q\<rparr>))"
    by blast
  from acceptable_location [OF u(1) registered_acceptable [OF assms(2) client(1,3) u(1)], of q] client u show ?thesis
    by (fastforce simp: ParseAuthorizeRequest_def)
qed

theorem authorize_redirects_safely_witness:
  "\<exists>resp w' loc. run_state (authorizeHandler sample_app (authorize_sample (Some sample_user))) authorize_world = (resp, w')
     \<and> resp_location resp = Some loc \<and> (\<exists>rest. loc = ''https://'' @ rest \<or> loc = ''http://'' @ rest)"
proof -
  obtain c w' where run: "run_state (authorizeHandler sample_app (authorize_sample (Some sample_user))) authorize_world
      = (authorize_success calm_env sample_req (RawURLEncode (replicate 32 (char_of (entropy_reads authorize_world)))), w')"
    using run_authorize_sample by blast
  have "\<exists>loc. resp_location (authorize_success calm_env sample_req raw) = Some loc" for raw
    by (simp add: authorize_success_def Let_def) (simp add: sample_req_def parse_sample_uri)
  then obtain loc where loc: "resp_location (authorize_success calm_env sample_req
      (RawURLEncode (replicate 32 (char_of (entropy_reads authorize_world))))) = Some loc"
    by blast
  have "clients_ok (app_env sample_app) authorize_world" using sample_clients_ok by simp
  from authorize_redirects_safely [OF run this loc] run loc show ?thesis by blast
qed

text \<open>
  C11.  What a code is issued for.  A request to the authorization endpoint stores at most one code, and
  only for a signed-in user and a request of a registered client that asks for a code with allowed scopes, has a
  state and, with the scope openid, a nonce; the row
  carries the request's client, redirect URI, scope, nonce and S256 challenge and the user, is not
  consumed and expires 60 seconds after the request.
\<close>

theorem authorize_issues_code:
  assumes "run_state (authorizeHandler A r) w = (resp, w')"
  shows "rows Codes w' = rows Codes w
    \<or> (\<exists>client application user raw c. rows Codes w' = rows Codes w @ [c] \<and> req_user r = Some user
        \<and> client \<in> set (rows OAuthClients w) \<and> Client_ClientID client = Get (URL_Query r) ''client_id''
        \<and> Get (URL_Query r) ''redirect_uri'' \<in> set (Client_RedirectURIs client)
        \<and> application \<in> set (rows Applications w) \<and> App_ID application = Client_ApplicationID client
        \<and> set (Fields (Get (URL_Query r) ''scope'')) \<subseteq> set (App_AllowedScopes application)
        \<and> Get (URL_Query r) ''response_type'' = ''code'' \<and> Get (URL_Query r) ''state'' \<noteq> []
        \<and> (''openid'' \<in> set (Fields (Get (URL_Query r) ''scope'')) \<longrightarrow>
             Get (URL_Query r) ''nonce'' \<noteq> [] \<and> Code_Nonce c = Some (Get (URL_Query r) ''nonce''))
        \<and> Code_CodeChallengeMethod c = ''S256'' \<and> 43 \<le> length (Code_CodeChallenge c) \<and> length (Code_CodeChallenge c) \<le> 128
        \<and> code_for (ParseAuthorizeRequest (URL_Query r)) client user raw (clock (app_env A) (ticks w)) c)"
  using assms
proof (cases rule: authorizeHandlerE)
  case (issued client application user b c)
  then have "Code_CodeChallengeMethod c = ''S256'' \<and> 43 \<le> length (Code_CodeChallenge c) \<and> length (Code_CodeChallenge c) \<le> 128"
    by (auto simp: Validate_def code_for_def split: if_splits)
  moreover have "set (Fields (Get (URL_Query r) ''scope'')) \<subseteq> set (App_AllowedScopes application)"
    using issued(7) by (auto simp: ValidateRequestedScopes_def IsScopeAllowed_def list_all_iff ParseAuthorizeRequest_def)
  moreover have "Client_ClientID client = Get (URL_Query r) ''client_id''"
    "Get (URL_Query r) ''redirect_uri'' \<in> set (Client_RedirectURIs client)"
    using issued(2,3) by (simp_all add: ParseAuthorizeRequest_def)
  moreover have "Get (URL_Query r) ''response_type'' = ''code''" "Get (URL_Query r) ''state'' \<noteq> []"
    "''openid'' \<in> set (Fields (Get (URL_Query r) ''scope'')) \<Longrightarrow>
       Get (URL_Query r) ''nonce'' \<noteq> [] \<and> Code_Nonce c = Some (Get (URL_Query r) ''nonce'')"
    using issued(4,11)
    by (auto simp: Validate_def HasScope_def ParseAuthorizeRequest_def code_for_def Scopes_def list_ex_iff split: if_splits)
  ultimately show ?thesis
    using issued(1,5,6,8,10,11) by blast
qed blast+

theorem authorize_issues_code_witness:
  "\<exists>resp w' c. run_state (authorizeHandler sample_app (authorize_sample (Some sample_user))) authorize_world = (resp, w')
     \<and> rows Codes w' = [c] \<and> Code_CodeChallengeMethod c = ''S256''"
proof -
  obtain c w' where run: "run_state (authorizeHandler sample_app (authorize_sample (Some sample_user))) authorize_world
      = (authorize_success calm_env sample_req (RawURLEncode (replicate 32 (char_of (entropy_reads authorize_world)))), w')"
      and row: "rows Codes w' = [c]"
    using run_authorize_sample by blast
  have "rows Codes authorize_world = []"
    by (simp add: authorize_world_def rows_def empty_table_def)
  with authorize_issues_code [OF run] row have "Code_CodeChallengeMethod c = ''S256''" by auto
  with run row show ?thesis by blast
qed

text \<open>
  Errors go back to the client.  The redirect with an error keeps what the redirect URI's own query
  said under other names, reports the error's code and description, and returns the state of the request.
\<close>

theorem error_redirect_reports:
  assumes "Parse E (Req_RedirectURI req) = Some u"
  shows "\<exists>u'. redirectAuthorizeError E req apErr = Redirect (url_String u') StatusFound
    \<and> u' = u\<lparr>URL_RawQuery := URL_RawQuery u'\<rparr>
    \<and> Get (Query (URL_RawQuery u')) ''error'' = Err_Code apErr
    \<and> Get (Query (URL_RawQuery u')) ''error_description'' = Err_Description apErr
    \<and> Get (Query (URL_RawQuery u')) ''state'' = (if Req_State req = [] then Get (Query (URL_RawQuery u)) ''state'' else Req_State req)
    \<and> Get (Query (URL_RawQuery u')) ''code'' = Get (Query (URL_RawQuery u)) ''code''"
  using assms by (auto simp: redirectAuthorizeError_def Get_Query_Encode Let_def)

theorem error_redirect_reports_witness:
  "\<exists>u'. redirectAuthorizeError calm_env sample_req (authorize_server_error ''x'') = Redirect (url_String u') StatusFound
     \<and> Get (Query (URL_RawQuery u')) ''error'' = ''server_error'' \<and> Get (Query (URL_RawQuery u')) ''state'' = ''st''"
proof -
  have "Parse calm_env (Req_RedirectURI sample_req) = Some (empty_url\<lparr>URL_Scheme := ''https'', URL_Host := ''app'', URL_Path := ''/cb''\<rparr>)"
    by (simp add: sample_req_def parse_sample_uri)
  from error_redirect_reports [OF this, of "authorize_server_error ''x''"] show ?thesis
    by (auto simp: authorize_server_error_def sample_req_def)
qed

text \<open>
  C12.  A pending request survives in its cookie.  When the prompt sets the cookie and the browser sends it
  back, the request read from it is the one that was stored, and the cookie lives for ten minutes, on
  every path, out of reach of scripts.
\<close>

theorem pending_request_roundtrip:
  assumes "run_state (storeAuthorizeRequest A r) w = ([c], w')" and "HasPrefix (RequestURI r) ''/authorize?''"
    and "entropy_fills (app_env A)" and "aead_opens (app_secrets A)"
    and "Request_Cookie back (cookie_Name c) = Some (cookie_Value c)"
  shows "readAuthorizeRequest A back = Some (RequestURI r)
    \<and> cookie_MaxAge c = 600 \<and> cookie_Path c = ''/'' \<and> cookie_HttpOnly c"
proof -
  obtain s v where s: "run_state (Box_Encrypt (app_env A) (app_secrets A) (RequestURI r)) w = (s, v)" by fastforce
  with assms(1) obtain e where e: "s = Inr e" "c = authorize_cookie A (RawURLEncode e)"
    by (auto simp: storeAuthorizeRequest_def split: sum.splits)
  have "Box_Decrypt (app_secrets A) e = Inr (RequestURI r)"
    using Decrypt_Encrypt [OF s [unfolded e(1)] assms(3,4)] .
  moreover have "RawURLDecode (RawURLEncode e) = Some e"
    by (rule b64_decode_encode) simp
  moreover have "seconds authorizeRequestTTL = 600"
    by code_simp
  ultimately show ?thesis
    using assms(2,5) e(2) by (simp add: readAuthorizeRequest_def authorize_cookie_def)
qed

theorem pending_request_roundtrip_witness:
  "\<exists>c w'. run_state (storeAuthorizeRequest sample_app (authorize_sample None)) authorize_world = ([c], w')
     \<and> readAuthorizeRequest sample_app (sample_request\<lparr>req_cookies := [(cookie_Name c, cookie_Value c)]\<rparr>)
         = Some (RequestURI (authorize_sample None))"
proof -
  obtain c w' where run: "run_state (storeAuthorizeRequest sample_app (authorize_sample None)) authorize_world = ([c], w')"
    by (simp add: storeAuthorizeRequest_def Box_Encrypt_def run_RandRead)
  have "Encode authorize_values \<noteq> []"
    using Get_Query_Encode [of authorize_values "''state''"] by (force simp: authorize_values_def Get_def Query_def)
  then have "HasPrefix (RequestURI (authorize_sample None)) ''/authorize?''"
    by (simp add: RequestURI_def authorize_sample_def HasPrefix_def)
  moreover have "entropy_fills (app_env sample_app)" by (simp add: entropy_fills_calm)
  moreover have "aead_opens (app_secrets sample_app)"
    by (simp add: sample_app_def sample_aead_def aead_opens_def)
  moreover have "Request_Cookie (sample_request\<lparr>req_cookies := [(cookie_Name c, cookie_Value c)]\<rparr>) (cookie_Name c) = Some (cookie_Value c)"
    by (simp add: Request_Cookie_def)
  ultimately show ?thesis using pending_request_roundtrip [OF run] run by blast
qed

lemma sound_authorizeHandler [schema_intros]: "sound (app_env A) (authorizeHandler A r)"
  unfolding authorizeHandler_def authorize_client_def authorize_application_def authorize_prompt_def authorize_issue_def
    promptsForApp_def storeAuthorizeRequest_def GenerateAuthorizationCode_def Let_def
  by (intro schema_intros)

section \<open>What the endpoint leaves alone\<close>

text \<open>A property of the state that neither the counters nor the table of codes matter to.\<close>

definition about_others :: "(world \<Rightarrow> bool) \<Rightarrow> bool" where
  "about_others P \<longleftrightarrow> (\<forall>a b w. P (counted a b w) = P w) \<and> (\<forall>n w. P (w\<lparr>entropy_reads := n\<rparr>) = P w)
     \<and> (\<forall>t w. P (w\<lparr>codes := t\<rparr>) = P w)"

lemma about_others_counters:
  assumes "about_others P"
  shows "P (w\<lparr>ticks := k\<rparr>) = P w" and "P (w\<lparr>db_calls := k\<rparr>) = P w"
proof -
  have eq: "P v = P w" if "counted a b v = counted c d w" for v a b c d
    using assms that unfolding about_others_def by metis
  show "P (w\<lparr>ticks := k\<rparr>) = P w"
    by (rule eq [of "ticks w" 0 _ k 0]) (simp add: counted_def)
  show "P (w\<lparr>db_calls := k\<rparr>) = P w"
    by (rule eq [of 0 "db_calls w" _ 0 k]) (simp add: counted_def)
qed

lemma keeps_sql:
  assumes "about_others P" and "\<And>w. P w \<Longrightarrow> P (snd (f w))"
  shows "keeps P (sql E f)"
  using assms about_others_counters(2) [OF assms(1)]
  by (auto simp: keeps_def sql_def Let_def split: fault.splits)

lemma keeps_statements:
  assumes "about_others P"
  shows "keeps P (First E M Q)" and "keeps P (Find E M Q)" and "keeps P (Now E)" and "keeps P (RandRead E n)"
    and "keeps P (Create E Codes c)"
proof -
  show "keeps P (First E M Q)" "keeps P (Find E M Q)"
    using assms by (auto simp: First_def Find_def intro!: keeps_sql)
  show now: "keeps P (Now E)"
    using about_others_counters(1) [OF assms] by (auto simp: keeps_def run_Now)
  show "keeps P (RandRead E n)"
    using assms by (auto simp: keeps_def run_RandRead about_others_def)
  have "P (snd (gorm_insert Codes d w)) = P w" for d w
    using assms by (simp add: gorm_insert_def about_others_def split: prod.split)
  then show "keeps P (Create E Codes c)"
    unfolding Create_def using now by (auto intro!: keeps_bind keeps_sql assms)
qed

lemma authorize_keeps:
  assumes "about_others P"
  shows "keeps P (authorizeHandler A r)"
proof -
  have list: "keeps P (ProviderService_List E i)" for E i
    unfolding ProviderService_List_def gormIdentityProviderRepo_ListByApplicationID_def
    by (rule keeps_sql [OF assms]) simp
  show ?thesis
    unfolding authorizeHandler_def authorize_client_def authorize_application_def authorize_prompt_def authorize_issue_def
      promptsForApp_def storeAuthorizeRequest_def GenerateAuthorizationCode_def gormClientRepo_GetByClientID_def
      gormApplicationRepo_GetByID_def gormCodeRepo_Create_def Box_Encrypt_def Let_def
    by (intro keeps_bind keeps_ret keeps_if keeps_sum keeps_option keeps_statements [OF assms] list)
qed

end
