(* ===== verification/Go_Numbers.thy ===== *)
theory Go_Numbers
  imports Go_Json
begin

text \<open>
  Reading decimal numbers: \<open>strconv.ParseUint\<close> and \<open>ParseInt\<close> for base 10, and \<open>fmt.Sscanf\<close> for formats of
  literal bytes and \<open>%d\<close>.  \<open>None\<close> stands for an error.
\<close>

section \<open>strconv\<close>

definition is_digit :: "char \<Rightarrow> bool" where
  "is_digit c \<longleftrightarrow> byte_in 48 57 c"

definition digits_value :: "nat \<Rightarrow> string \<Rightarrow> nat" where
  "digits_value n s = foldl (\<lambda>n c. 10 * n + (of_char c - 48)) n s"

definition ParseUint :: "nat \<Rightarrow> string \<Rightarrow> nat option" where
  "ParseUint bits s =
     (if s = [] \<or> \<not> list_all is_digit s then None
      else if digits_value 0 s < 2 ^ bits then Some (digits_value 0 s) else None)"

definition ParseInt :: "nat \<Rightarrow> string \<Rightarrow> int option" where
  "ParseInt bits s =
     (let neg = HasPrefix s ''-''; u = (if HasPrefix s ''-'' \<or> HasPrefix s ''+'' then tl s else s) in
      case ParseUint bits u of
        None \<Rightarrow> None
      | Some n \<Rightarrow>
          if \<not> neg \<and> n \<ge> 2 ^ (bits - 1) then None
          else if neg \<and> n > 2 ^ (bits - 1) then None
          else Some (if neg then - int n else int n))"

section \<open>fmt.Sscanf\<close>

datatype verb =
    Literal string
  | Verb_int nat \<comment> \<open>\<open>%d\<close> into a signed variable of so many bits\<close>
  | Verb_uint nat \<comment> \<open>\<open>%d\<close> into an unsigned variable\<close>

text \<open>\<open>SkipSpace\<close>: \<open>None\<close> is the complaint about an unexpected newline.\<close>

function SkipSpace :: "string \<Rightarrow> string option" where
  "SkipSpace s =
     (if s = [] then Some []
      else if hd s = CHR 0x0D \<and> HasPrefix (tl s) [CHR 0x0A] then SkipSpace (tl s)
      else if hd s = CHR 0x0A then None
      else if space_width s = 0 then Some s else SkipSpace (drop (space_width s) s))"
  by pat_completeness auto
termination
  by (relation "measure length") (auto simp: drop_shorter simp del: space_width.simps)

declare SkipSpace.simps [simp del]

definition scan_digits :: "string \<Rightarrow> (string \<times> string) option" where
  "scan_digits s =
     (if takeWhile is_digit s = [] then None else Some (takeWhile is_digit s, dropWhile is_digit s))"

definition scan_int :: "nat \<Rightarrow> string \<Rightarrow> (int \<times> string) option" where
  "scan_int bits s =
     (let sign = (if HasPrefix s ''-'' \<or> HasPrefix s ''+'' then take 1 s else []) in
      case scan_digits (drop (length sign) s) of
        None \<Rightarrow> None
      | Some (ds, rest) \<Rightarrow>
          (case ParseInt 64 (sign @ ds) of
             None \<Rightarrow> None
           | Some i \<Rightarrow> if - (2 ^ (bits - 1)) \<le> i \<and> i < 2 ^ (bits - 1) then Some (i, rest) else None))"

definition scan_uint :: "nat \<Rightarrow> string \<Rightarrow> (int \<times> string) option" where
  "scan_uint bits s =
     (case scan_digits s of
        None \<Rightarrow> None
      | Some (ds, rest) \<Rightarrow>
          (case ParseUint 64 ds of
             None \<Rightarrow> None
           | Some n \<Rightarrow> if n < 2 ^ bits then Some (int n, rest) else None))"

fun Sscanf :: "verb list \<Rightarrow> string \<Rightarrow> int list option" where
  "Sscanf [] s = Some []"
| "Sscanf (Literal l # vs) s = (if HasPrefix s l then Sscanf vs (drop (length l) s) else None)"
| "Sscanf (Verb_int bits # vs) s =
     (case SkipSpace s of
        None \<Rightarrow> None
      | Some t \<Rightarrow>
          (case scan_int bits t of
             None \<Rightarrow> None
           | Some (i, rest) \<Rightarrow> map_option ((#) i) (Sscanf vs rest)))"
| "Sscanf (Verb_uint bits # vs) s =
     (case SkipSpace s of
        None \<Rightarrow> None
      | Some t \<Rightarrow>
          (case scan_uint bits t of
             None \<Rightarrow> None
           | Some (i, rest) \<Rightarrow> map_option ((#) i) (Sscanf vs rest)))"

section \<open>What is printed is read back\<close>

lemma digit_char: "d < 10 \<Longrightarrow> is_digit (char_of (48 + d))" and digit_char_value: "d < 10 \<Longrightarrow> of_char (char_of (48 + d)) = 48 + (d :: nat)"
  by (simp_all add: is_digit_def byte_in_def of_char_of)

lemma decimal_digits: "list_all is_digit (decimal n)"
proof (induction n rule: decimal.induct)
  case (1 n)
  then show ?case
    using digit_char [of n] digit_char [of "n mod 10"] by (subst decimal.simps) simp
qed

lemma decimal_nonempty [simp]: "decimal n \<noteq> []"
  by (subst decimal.simps) simp

lemma digits_value_append: "digits_value n (s @ [c]) = 10 * digits_value n s + (of_char c - 48)"
  by (simp add: digits_value_def)

lemma digits_value_decimal: "digits_value 0 (decimal n) = n"
proof (induction n rule: decimal.induct)
  case (1 n)
  show ?case
  proof (cases "n < 10")
    case True
    then show ?thesis
      using digit_char_value [of n] by (subst decimal.simps) (simp add: digits_value_def)
  next
    case False
    have "(of_char (char_of (48 + n mod 10)) :: nat) - 48 = n mod 10"
      using digit_char_value [of "n mod 10"] by simp
    then show ?thesis
      using 1 [OF False] False by (subst decimal.simps) (simp add: digits_value_append)
  qed
qed

lemma ParseUint_decimal: "ParseUint bits (decimal n) = (if n < 2 ^ bits then Some n else None)"
  using decimal_digits [of n] by (simp add: ParseUint_def digits_value_decimal)

lemma decimal_Cons: obtains c s where "decimal n = c # s" and "is_digit c"
  using decimal_digits [of n] decimal_nonempty [of n] by (cases "decimal n") simp_all

lemma is_digit_calm: "is_digit c \<Longrightarrow> c \<noteq> CHR ''-'' \<and> c \<noteq> CHR ''+'' \<and> c \<noteq> CHR 0x0D \<and> c \<noteq> CHR 0x0A \<and> space_width (c # s) = 0"
  by (auto simp: is_digit_def byte_in_def ascii_space_def less_char_def)

lemma scan_digits_decimal:
  assumes "rest = [] \<or> \<not> is_digit (hd rest)"
  shows "scan_digits (decimal n @ rest) = Some (decimal n, rest)"
proof -
  have "\<forall>c \<in> set (decimal n). is_digit c"
    using decimal_digits [of n] by (simp add: list_all_iff)
  moreover have "takeWhile is_digit rest = []" "dropWhile is_digit rest = rest"
    using assms by (cases rest; simp)+
  ultimately show ?thesis by (simp add: scan_digits_def)
qed

lemma SkipSpace_decimal: "SkipSpace (decimal n @ rest) = Some (decimal n @ rest)"
proof (rule decimal_Cons [of n])
  fix c s assume "decimal n = c # s" and "is_digit c"
  then show ?thesis
    using is_digit_calm [of c "s @ rest"] by (subst SkipSpace.simps) (simp del: space_width.simps)
qed

lemma Sscanf_uint:
  assumes "n < 2 ^ bits" and "n < 2 ^ 64" and "rest = [] \<or> \<not> is_digit (hd rest)"
  shows "Sscanf (Verb_uint bits # vs) (decimal n @ rest) = map_option ((#) (int n)) (Sscanf vs rest)"
  using assms by (simp add: SkipSpace_decimal scan_uint_def scan_digits_decimal ParseUint_decimal)

lemma Sscanf_int:
  assumes "n < 2 ^ (bits - 1)" and "n < 2 ^ 63" and "rest = [] \<or> \<not> is_digit (hd rest)"
  shows "Sscanf (Verb_int bits # vs) (decimal n @ rest) = map_option ((#) (int n)) (Sscanf vs rest)"
proof -
  have no: "\<not> HasPrefix (decimal n @ t) ''-''" "\<not> HasPrefix (decimal n @ t) ''+''" for t
    by (rule decimal_Cons [of n]; use is_digit_calm in \<open>force simp: HasPrefix_def\<close>)+
  have "ParseInt 64 (decimal n) = Some (int n)"
    using no [of "[]"] assms(2) by (simp add: ParseInt_def ParseUint_decimal)
  moreover have "int n < 2 ^ (bits - 1)" "- (2 ^ (bits - 1)) \<le> int n"
    using assms(1) by (simp_all add: of_nat_less_numeral_power_cancel_iff order_trans [of _ 0])
  ultimately show ?thesis
    using assms(3) no [of rest] by (simp add: SkipSpace_decimal scan_int_def scan_digits_decimal)
qed

lemma Sscanf_literal: "Sscanf (Literal l # vs) (l @ rest) = Sscanf vs rest"
  by (simp add: HasPrefix_def)

lemma decimal_no_sign: "\<not> HasPrefix (decimal n) ''-''" "\<not> HasPrefix (decimal n) ''+''"
  by (rule decimal_Cons [of n]; use is_digit_calm in \<open>force simp: HasPrefix_def\<close>)+

lemma ParseInt_Itoa:
  assumes "- (2 ^ 63) \<le> i" and "i < 2 ^ 63"
  shows "ParseInt 64 (Itoa i) = Some i"
proof (cases "i < 0")
  case True
  then have "nat (- i) \<le> 2 ^ 63" "nat (- i) < 2 ^ 64"
    using assms(1) by (simp_all add: nat_le_iff nat_less_iff)
  then show ?thesis
    using True by (simp add: ParseInt_def Itoa_def ParseUint_decimal Let_def HasPrefix_def)
next
  case False
  then have n: "nat i < 2 ^ 63" "nat i < 2 ^ 64"
    using assms(2) by (simp_all add: nat_less_iff)
  with decimal_no_sign [of "nat i"] False show ?thesis
    by (simp add: ParseInt_def Itoa_def ParseUint_decimal Let_def)
qed

lemma ParseInt_too_large:
  assumes "2 ^ 63 \<le> i"
  shows "ParseInt 64 (Itoa i) = None"
proof -
  have i: "\<not> i < 0" using assms order_trans [of 0 "2 ^ 63" i] by simp
  have "2 ^ 63 \<le> nat i"
    using assms by (simp add: le_nat_iff)
  with decimal_no_sign [of "nat i"] i show ?thesis
    by (simp add: ParseInt_def Itoa_def ParseUint_decimal Let_def)
qed

lemma ParseInt_too_small:
  assumes "i < - (2 ^ 63)"
  shows "ParseInt 64 (Itoa i) = None"
proof -
  have i: "i < 0" "2 ^ 63 < nat (- i)" using assms by (simp_all add: zless_nat_eq_int_zless)
  then show ?thesis
    by (simp add: ParseInt_def Itoa_def ParseUint_decimal Let_def HasPrefix_def)
qed

lemma ParseInt_Itoa_exact: "ParseInt 64 (Itoa i) = (if - (2 ^ 63) \<le> i \<and> i < 2 ^ 63 then Some i else None)"
  using ParseInt_Itoa [of i] ParseInt_too_large [of i] ParseInt_too_small [of i] by (simp add: not_le not_less)

end
