(* ===== verification/Go_Json_Parse.thy ===== *)
theory Go_Json_Parse
  imports Go_Json Go_Url Go_Numbers Codec
begin

text \<open>
  What the source uses of encoding/json to read a value: the syntax with its limit on nesting, and the
  decoding of objects into structures whose fields are strings, 64-bit integers and booleans.  \<open>None\<close>
  stands for an error.
\<close>

section \<open>Strings\<close>

definition utf8_of_rune :: "nat \<Rightarrow> string" where
  "utf8_of_rune n =
     (if n < 128 then [char_of n]
      else if n < 2048 then map char_of [192 + n div 64, 128 + n mod 64]
      else if n < 65536 then map char_of [224 + n div 4096, 128 + n div 64 mod 64, 128 + n mod 64]
      else map char_of [240 + n div 262144, 128 + n div 4096 mod 64, 128 + n div 64 mod 64, 128 + n mod 64])"

definition replacement :: string where
  "replacement = utf8_of_rune 65533"

text \<open>Four hexadecimal digits and what follows them.\<close>

definition getu4 :: "string \<Rightarrow> (nat \<times> string) option" where
  "getu4 s =
     (case s of
        a # b # c # d # t \<Rightarrow>
          (case (hex_value a, hex_value b, hex_value c, hex_value d) of
             (Some w, Some x, Some y, Some z) \<Rightarrow> Some (w * 4096 + x * 256 + y * 16 + z, t)
           | _ \<Rightarrow> None)
      | _ \<Rightarrow> None)"

definition low_surrogate :: "string \<Rightarrow> (nat \<times> string) option" where
  "low_surrogate s =
     (if take 2 s = [CHR 0x5C, CHR ''u''] then
        (case getu4 (drop 2 s) of
           None \<Rightarrow> None
         | Some (r, t) \<Rightarrow> if 56320 \<le> r \<and> r < 57344 then Some (r, t) else None)
      else None)"

definition simple_escape :: "char \<Rightarrow> string option" where
  "simple_escape c =
     (if c = CHR 0x22 \<or> c = CHR 0x5C \<or> c = CHR ''/'' then Some [c]
      else if c = CHR ''b'' then Some [CHR 0x08]
      else if c = CHR ''f'' then Some [CHR 0x0C]
      else if c = CHR ''n'' then Some [CHR 0x0A]
      else if c = CHR ''r'' then Some [CHR 0x0D]
      else if c = CHR ''t'' then Some [CHR 0x09]
      else None)"

text \<open>One character of a string, after the opening quote: its value and what follows it.\<close>

definition unquote_char :: "string \<Rightarrow> (string \<times> string) option" where
  "unquote_char s =
     (case s of
        [] \<Rightarrow> None
      | c # t \<Rightarrow>
          if c = CHR 0x5C then
            (case t of
               [] \<Rightarrow> None
             | e # u \<Rightarrow>
                 if e = CHR ''u'' then
                   (case getu4 u of
                      None \<Rightarrow> None
                    | Some (r, v) \<Rightarrow>
                        if 55296 \<le> r \<and> r < 57344 then
                          (case low_surrogate v of
                             None \<Rightarrow> Some (replacement, v)
                           | Some (r2, v2) \<Rightarrow>
                               if r < 56320 then Some (utf8_of_rune (65536 + (r - 55296) * 1024 + (r2 - 56320)), v2)
                               else Some (replacement, v))
                        else Some (utf8_of_rune r, v))
                 else map_option (\<lambda>x. (x, u)) (simple_escape e))
          else if c < CHR 0x20 then None
          else if c < CHR 0x80 then Some ([c], t)
          else if utf8_width s = 0 then Some (replacement, t)
          else Some (take (utf8_width s) s, drop (utf8_width s) s))"

lemma getu4_shorter: "getu4 s = Some (r, t) \<Longrightarrow> length t < length s"
  by (auto simp: getu4_def split: list.splits option.splits)

lemma low_surrogate_shorter: "low_surrogate s = Some (r, t) \<Longrightarrow> length t < length s"
  by (auto simp: low_surrogate_def split: if_splits option.splits dest!: getu4_shorter)

lemma utf8_width_Cons: "utf8_width (c # t) \<noteq> 0 \<Longrightarrow> length (drop (utf8_width (c # t)) (c # t)) < length (c # t)"
  by simp

lemma unquote_char_shorter: "unquote_char s = Some (x, t) \<Longrightarrow> length t < length s"
  by (auto simp: unquote_char_def split: list.splits if_splits option.splits dest!: getu4_shorter low_surrogate_shorter)

function unquote :: "string \<Rightarrow> (string \<times> string) option" where
  "unquote s =
     (if s \<noteq> [] \<and> hd s = CHR 0x22 then Some ([], tl s)
      else case unquote_char s of
             None \<Rightarrow> None
           | Some (x, t) \<Rightarrow> map_option (\<lambda>(y, u). (x @ y, u)) (unquote t))"
  by pat_completeness auto
termination
  by (relation "measure length") (auto dest: unquote_char_shorter)

declare unquote.simps [simp del]

section \<open>Values\<close>

datatype json =
    JNull
  | JBool bool
  | JNumber string
  | JString string
  | JArray "json list"
  | JObject "(string \<times> json) list"

definition json_space :: "char \<Rightarrow> bool" where
  "json_space c \<longleftrightarrow> c \<in> set [CHR 0x20, CHR 0x09, CHR 0x0D, CHR 0x0A]"

definition skip_json_space :: "string \<Rightarrow> string" where
  "skip_json_space s = dropWhile json_space s"

text \<open>An optional sign, digits without leading zeros, an optional fraction and an optional exponent.\<close>

definition digits1 :: "string \<Rightarrow> (string \<times> string) option" where
  "digits1 s = scan_digits s"

definition number_integer :: "string \<Rightarrow> (string \<times> string) option" where
  "number_integer s =
     (if HasPrefix s ''0'' then Some (''0'', tl s) else digits1 s)"

definition number_fraction :: "string \<Rightarrow> (string \<times> string) option" where
  "number_fraction s =
     (if HasPrefix s ''.'' then map_option (\<lambda>(d, t). (CHR ''.'' # d, t)) (digits1 (tl s)) else Some ([], s))"

definition number_exponent :: "string \<Rightarrow> (string \<times> string) option" where
  "number_exponent s =
     (if HasPrefix s ''e'' \<or> HasPrefix s ''E'' then
        let u = tl s; sign = (if HasPrefix u ''+'' \<or> HasPrefix u ''-'' then take 1 u else [])
        in map_option (\<lambda>(d, t). (take 1 s @ sign @ d, t)) (digits1 (drop (length sign) u))
      else Some ([], s))"

definition json_number :: "string \<Rightarrow> (string \<times> string) option" where
  "json_number s =
     (let sign = (if HasPrefix s ''-'' then ''-'' else []) in
      case number_integer (drop (length sign) s) of
        None \<Rightarrow> None
      | Some (i, s1) \<Rightarrow>
          (case number_fraction s1 of
             None \<Rightarrow> None
           | Some (f, s2) \<Rightarrow>
               (case number_exponent s2 of
                  None \<Rightarrow> None
                | Some (e, s3) \<Rightarrow> Some (sign @ i @ f @ e, s3))))"

definition json_literal :: "string \<Rightarrow> (json \<times> string) option" where
  "json_literal s =
     (if HasPrefix s ''null'' then Some (JNull, drop 4 s)
      else if HasPrefix s ''true'' then Some (JBool True, drop 4 s)
      else if HasPrefix s ''false'' then Some (JBool False, drop 5 s)
      else map_option (\<lambda>(n, t). (JNumber n, t)) (json_number s))"

text \<open>
  A value, the elements of an array after its opening bracket, and the members of an object after its
  opening brace.  \<open>d\<close> is how many more levels may be opened; the first argument is fuel.
\<close>

fun json_value :: "nat \<Rightarrow> nat \<Rightarrow> string \<Rightarrow> (json \<times> string) option"
  and json_elements :: "nat \<Rightarrow> nat \<Rightarrow> string \<Rightarrow> (json list \<times> string) option"
  and json_object_members :: "nat \<Rightarrow> nat \<Rightarrow> string \<Rightarrow> ((string \<times> json) list \<times> string) option" where
  "json_value 0 d s = None"
| "json_value (Suc n) d s =
     (let s = skip_json_space s in
      if HasPrefix s ''{'' then
        (if d = 0 then None
         else let t = skip_json_space (tl s) in
           if HasPrefix t ''}'' then Some (JObject [], tl t)
           else map_option (\<lambda>(ms, u). (JObject ms, u)) (json_object_members n (d - 1) t))
      else if HasPrefix s ''['' then
        (if d = 0 then None
         else let t = skip_json_space (tl s) in
           if HasPrefix t '']'' then Some (JArray [], tl t)
           else map_option (\<lambda>(vs, u). (JArray vs, u)) (json_elements n (d - 1) t))
      else if HasPrefix s [CHR 0x22] then map_option (\<lambda>(x, u). (JString x, u)) (unquote (tl s))
      else json_literal s)"
| "json_elements 0 d s = None"
| "json_elements (Suc n) d s =
     (case json_value n d s of
        None \<Rightarrow> None
      | Some (v, t) \<Rightarrow>
          let t = skip_json_space t in
          if HasPrefix t '']'' then Some ([v], tl t)
          else if HasPrefix t '','' then map_option (\<lambda>(vs, u). (v # vs, u)) (json_elements n d (tl t))
          else None)"
| "json_object_members 0 d s = None"
| "json_object_members (Suc n) d s =
     (let s = skip_json_space s in
      if \<not> HasPrefix s [CHR 0x22] then None
      else case unquote (tl s) of
        None \<Rightarrow> None
      | Some (k, t) \<Rightarrow>
          let t = skip_json_space t in
          if \<not> HasPrefix t '':'' then None
          else case json_value n d (tl t) of
            None \<Rightarrow> None
          | Some (v, u) \<Rightarrow>
              let u = skip_json_space u in
              if HasPrefix u ''}'' then Some ([(k, v)], tl u)
              else if HasPrefix u '','' then
                map_option (\<lambda>(ms, x). ((k, v) # ms, x)) (json_object_members n d (tl u))
              else None)"

definition maxNestingDepth :: nat where
  "maxNestingDepth = 10000"

text \<open>\<open>Decoder.Decode\<close> reads the first value; \<open>Unmarshal\<close> wants nothing but white space after it.\<close>

definition Decoder_Decode :: "string \<Rightarrow> json option" where
  "Decoder_Decode s = map_option fst (json_value (2 * length s + 2) maxNestingDepth s)"

definition Unmarshal :: "string \<Rightarrow> json option" where
  "Unmarshal s =
     (case json_value (2 * length s + 2) maxNestingDepth s of
        Some (v, t) \<Rightarrow> if skip_json_space t = [] then Some v else None
      | None \<Rightarrow> None)"

section \<open>Structures\<close>

text \<open>
  Keys are compared up to case; two characters outside ASCII fold to a letter.  A later member overrides
  an earlier one, \<open>null\<close> leaves the field as it is, and a value of another type is an error.
\<close>

fun fold_name :: "string \<Rightarrow> string" where
  "fold_name [] = []"
| "fold_name (c # s) =
     (if take 3 (c # s) = [CHR 0xE2, CHR 0x84, CHR 0xAA] then CHR ''k'' # fold_name (drop 2 s)
      else if take 2 (c # s) = [CHR 0xC5, CHR 0xBF] then CHR ''s'' # fold_name (drop 1 s)
      else (if byte_in 65 90 c then char_of ((of_char c :: nat) + 32) else c) # fold_name s)"

definition members :: "json \<Rightarrow> (string \<times> json) list option" where
  "members v = (case v of JObject ms \<Rightarrow> Some ms | JNull \<Rightarrow> Some [] | _ \<Rightarrow> None)"

definition field_values :: "string \<Rightarrow> (string \<times> json) list \<Rightarrow> json list" where
  "field_values k ms = map snd (filter (\<lambda>(k', v). fold_name k' = fold_name k) ms)"

definition decode_field :: "(json \<Rightarrow> 'a option) \<Rightarrow> 'a \<Rightarrow> string \<Rightarrow> (string \<times> json) list \<Rightarrow> 'a option" where
  "decode_field f z k ms =
     fold (\<lambda>v acc. case acc of None \<Rightarrow> None | Some a \<Rightarrow> if v = JNull then Some a else f v) (field_values k ms) (Some z)"

definition string_field :: "string \<Rightarrow> (string \<times> json) list \<Rightarrow> string option" where
  "string_field = decode_field (\<lambda>v. case v of JString s \<Rightarrow> Some s | _ \<Rightarrow> None) []"

definition bool_field :: "string \<Rightarrow> (string \<times> json) list \<Rightarrow> bool option" where
  "bool_field = decode_field (\<lambda>v. case v of JBool b \<Rightarrow> Some b | _ \<Rightarrow> None) False"

definition int64_field :: "string \<Rightarrow> (string \<times> json) list \<Rightarrow> int option" where
  "int64_field = decode_field (\<lambda>v. case v of JNumber n \<Rightarrow> ParseInt 64 n | _ \<Rightarrow> None) 0"

section \<open>What is written is read back\<close>

lemma lower_hex_value: "n < 16 \<Longrightarrow> hex_value (lower_hex n) = Some n"
proof -
  assume "n < 16"
  then have "n \<in> set [0..<16]" by simp
  moreover have "\<forall>n \<in> set [0..<16]. hex_value (lower_hex n) = Some n"
    by code_simp
  ultimately show ?thesis by blast
qed

lemma getu4_byte: "n < 256 \<Longrightarrow> getu4 (CHR ''0'' # CHR ''0'' # lower_hex (n div 16) # lower_hex (n mod 16) # t) = Some (n, t)"
proof -
  assume n: "n < 256"
  have "hex_value (CHR ''0'') = Some 0" by (simp add: hex_value_def)
  moreover have "n div 16 < 16" "n mod 16 < 16" using n by (simp_all add: less_mult_imp_div_less)
  moreover have "n div 16 * 16 + n mod 16 = n" by simp
  ultimately show ?thesis by (simp add: getu4_def lower_hex_value)
qed

lemma escape_ascii_cases:
  assumes "of_char c < (128 :: nat)"
  shows "c = CHR 0x22 \<or> c = CHR 0x5C \<or> c = CHR 0x08 \<or> c = CHR 0x0C \<or> c = CHR 0x0A \<or> c = CHR 0x0D \<or> c = CHR 0x09
    \<or> escape_ascii c = CHR 0x5C # ''u00'' @ [lower_hex (of_char c div 16), lower_hex (of_char c mod 16)]
    \<or> escape_ascii c = [c] \<and> c \<noteq> CHR 0x22 \<and> c \<noteq> CHR 0x5C \<and> \<not> c < CHR 0x20 \<and> c < CHR 0x80"
proof -
  have eqs: "of_char c = (34::nat) \<longleftrightarrow> c = CHR 0x22" "of_char c = (92::nat) \<longleftrightarrow> c = CHR 0x5C"
    "of_char c = (8::nat) \<longleftrightarrow> c = CHR 0x08" "of_char c = (12::nat) \<longleftrightarrow> c = CHR 0x0C"
    "of_char c = (10::nat) \<longleftrightarrow> c = CHR 0x0A" "of_char c = (13::nat) \<longleftrightarrow> c = CHR 0x0D"
    "of_char c = (9::nat) \<longleftrightarrow> c = CHR 0x09"
    using char_eq_of_char [of c "CHR 0x22"] char_eq_of_char [of c "CHR 0x5C"] char_eq_of_char [of c "CHR 0x08"]
      char_eq_of_char [of c "CHR 0x0C"] char_eq_of_char [of c "CHR 0x0A"] char_eq_of_char [of c "CHR 0x0D"]
      char_eq_of_char [of c "CHR 0x09"] by simp_all
  show ?thesis
    using assms unfolding escape_ascii_def Let_def eqs by (simp add: less_char_def)
qed

lemma escape_ascii_read:
  assumes "of_char c < (128 :: nat)"
  shows "unquote_char (escape_ascii c @ t) = Some ([c], t) \<and> hd (escape_ascii c @ t) \<noteq> CHR 0x22"
proof -
  have u: "unquote_char (CHR 0x5C # CHR ''u'' # CHR ''0'' # CHR ''0'' # lower_hex (of_char c div 16) # lower_hex (of_char c mod 16) # t)
      = Some ([c], t)"
    using getu4_byte [of "of_char c" t] assms by (simp add: unquote_char_def utf8_of_rune_def)
  show ?thesis
    using escape_ascii_cases [OF assms] u
    by (elim disjE) (auto simp: unquote_char_def escape_ascii_def simple_escape_def)
qed

lemma json_chars_read:
  assumes "plain_ascii s"
  shows "unquote (json_chars s @ CHR 0x22 # rest) = Some (s, rest)"
  using assms
proof (induction s)
  case Nil
  show ?case by (subst json_chars.simps, subst unquote.simps) simp
next
  case (Cons c s)
  then have c: "of_char c < (128 :: nat)" and s: "plain_ascii s"
    by (auto simp: plain_ascii_def less_char_def)
  then have eq: "json_chars (c # s) = escape_ascii c @ json_chars s"
    by (subst json_chars.simps) (simp add: byte_in_def)
  have ne: "escape_ascii c @ u \<noteq> []" for u
    by (simp add: escape_ascii_def Let_def)
  show ?case
    unfolding eq append_assoc
    using escape_ascii_read [OF c, of "json_chars s @ CHR 0x22 # rest"] Cons.IH [OF s] ne
    by (subst unquote.simps) simp
qed

text \<open>What may follow a member of an object.\<close>

definition ends_member :: "string \<Rightarrow> bool" where
  "ends_member rest \<longleftrightarrow> rest \<noteq> [] \<and> (hd rest = CHR '','' \<or> hd rest = CHR ''}'')"

definition encodes :: "json \<Rightarrow> string \<Rightarrow> bool" where
  "encodes v enc \<longleftrightarrow> (\<forall>n d rest. ends_member rest \<longrightarrow> json_value (Suc n) d (enc @ rest) = Some (v, rest))"

lemma skip_json_space_same: "s = [] \<or> \<not> json_space (hd s) \<Longrightarrow> skip_json_space s = s"
  by (cases s) (auto simp: skip_json_space_def)

lemma HasPrefix_char [simp]: "HasPrefix (c # s) [d] = (c = d)" "HasPrefix [] [d] = False"
  by (auto simp: HasPrefix_def)

lemma json_value_string:
  assumes "plain_ascii s"
  shows "json_value (Suc n) d (json_string s @ rest) = Some (JString s, rest)"
  using json_chars_read [OF assms, of rest]
  by (simp add: json_string_def skip_json_space_def json_space_def)

lemma encodes_string: "plain_ascii s \<Longrightarrow> encodes (JString s) (json_string s)"
  by (simp add: encodes_def json_value_string del: json_value.simps)

lemma decimal_zero: "decimal n = CHR ''0'' # s \<Longrightarrow> n = 0 \<and> s = []"
proof (induction n arbitrary: s rule: decimal.induct)
  case (1 n)
  show ?case
  proof (cases "n < 10")
    case True
    then have "decimal n = [char_of (48 + n)]" by (subst decimal.simps) simp
    with 1(2) have "char_of (48 + n) = CHR ''0''" "s = []" by simp_all
    from arg_cong [OF this(1), of "of_char :: char \<Rightarrow> nat"] digit_char_value [OF True] \<open>s = []\<close> show ?thesis by simp
  next
    case False
    then have "decimal n = decimal (n div 10) @ [char_of (48 + n mod 10)]"
      by (subst decimal.simps) simp
    then obtain u where "decimal (n div 10) = CHR ''0'' # u"
      using 1(2) by (cases "decimal (n div 10)") auto
    with 1(1) [OF False this] False show ?thesis by auto
  qed
qed

lemma number_integer_decimal:
  assumes "rest = [] \<or> \<not> is_digit (hd rest)"
  shows "number_integer (decimal n @ rest) = Some (decimal n, rest)"
proof (cases "decimal n")
  case (Cons c s)
  show ?thesis
  proof (cases "c = CHR ''0''")
    case True
    with Cons decimal_zero [of n s] show ?thesis by (simp add: number_integer_def)
  next
    case False
    then show ?thesis
      using scan_digits_decimal [OF assms, of n] Cons by (simp add: number_integer_def digits1_def)
  qed
qed simp

lemma ends_member_calm:
  "ends_member rest \<Longrightarrow> rest \<noteq> [] \<and> \<not> is_digit (hd rest) \<and> \<not> HasPrefix rest ''.'' \<and> \<not> HasPrefix rest ''e'' \<and> \<not> HasPrefix rest ''E''
     \<and> \<not> json_space (hd rest)"
  by (cases rest) (auto simp: ends_member_def is_digit_def byte_in_def json_space_def)

lemma json_number_Itoa:
  assumes "ends_member rest"
  shows "json_number (Itoa i @ rest) = Some (Itoa i, rest)"
proof -
  note calm = ends_member_calm [OF assms]
  have dec: "number_integer (decimal n @ rest) = Some (decimal n, rest)" for n
    using calm by (intro number_integer_decimal) simp
  have minus: "\<not> HasPrefix (decimal n @ rest) ''-''" for n
    by (rule decimal_Cons [of n]) (use is_digit_calm in force)
  show ?thesis
    using calm dec minus by (cases "i < 0") (simp_all add: json_number_def Itoa_def number_fraction_def number_exponent_def Let_def)
qed

lemma encodes_Itoa: "encodes (JNumber (Itoa i)) (Itoa i)"
proof -
  have "Itoa i \<noteq> [] \<and> (hd (Itoa i) = CHR ''-'' \<or> is_digit (hd (Itoa i)))"
    by (rule decimal_Cons [of "nat i"]; rule decimal_Cons [of "nat (- i)"]) (auto simp: Itoa_def)
  then obtain c s where c: "Itoa i = c # s" "c = CHR ''-'' \<or> is_digit c"
    by (cases "Itoa i") auto
  then have calm: "\<not> json_space c" "c \<noteq> CHR ''{''" "c \<noteq> CHR ''[''" "c \<noteq> CHR 0x22" "c \<noteq> CHR ''n''" "c \<noteq> CHR ''t''" "c \<noteq> CHR ''f''"
    by (auto simp: json_space_def is_digit_def byte_in_def)
  have "json_value (Suc n) d (Itoa i @ rest) = Some (JNumber (Itoa i), rest)" if "ends_member rest" for n d rest
  proof -
    have skip: "skip_json_space (Itoa i @ rest) = Itoa i @ rest"
      using c(1) calm(1) by (intro skip_json_space_same) simp
    moreover have "json_literal (Itoa i @ rest) = Some (JNumber (Itoa i), rest)"
      using json_number_Itoa [OF that, of i] c(1) calm(5-7) by (simp add: json_literal_def HasPrefix_def)
    ultimately show ?thesis using c(1) calm(2-4) by (simp add: Let_def)
  qed
  then show ?thesis by (simp add: encodes_def)
qed

lemma json_members_read:
  assumes "list_all2 (\<lambda>(k, enc) (k', v). k' = k \<and> plain_ascii k \<and> encodes v enc) ps vs" and "ps \<noteq> []" and "length ps < n"
  shows "json_object_members n d (json_members ps @ CHR ''}'' # rest) = Some (vs, rest)"
  using assms
proof (induction ps arbitrary: vs n rule: json_members.induct)
  case (2 k enc)
  then obtain v m where vs: "vs = [(k, v)]" and k: "plain_ascii k" and v: "encodes v enc" and n: "n = Suc (Suc m)"
    by (cases n; cases "n - 1") (auto simp: list_all2_Cons1)
  have "json_value (Suc m) d (enc @ CHR ''}'' # rest) = Some (v, CHR ''}'' # rest)"
    using v by (simp add: encodes_def ends_member_def)
  moreover have "unquote (json_chars k @ CHR 0x22 # CHR '':'' # enc @ CHR ''}'' # rest) = Some (k, CHR '':'' # enc @ CHR ''}'' # rest)"
    by (rule json_chars_read [OF k])
  ultimately show ?case
    by (simp add: n vs json_string_def skip_json_space_def json_space_def del: json_value.simps)
next
  case (3 k enc p ps)
  then obtain v vs' m where vs: "vs = (k, v) # vs'" and k: "plain_ascii k" and v: "encodes v enc"
    and rest: "list_all2 (\<lambda>(k, enc) (k', v). k' = k \<and> plain_ascii k \<and> encodes v enc) (p # ps) vs'" and n: "n = Suc (Suc m)"
    by (cases n; cases "n - 1") (auto simp: list_all2_Cons1)
  let ?more = "CHR '','' # json_members (p # ps) @ CHR ''}'' # rest"
  have "json_value (Suc m) d (enc @ ?more) = Some (v, ?more)"
    using v by (simp add: encodes_def ends_member_def)
  moreover have "unquote (json_chars k @ CHR 0x22 # CHR '':'' # enc @ ?more) = Some (k, CHR '':'' # enc @ ?more)"
    by (rule json_chars_read [OF k])
  moreover have "json_object_members (Suc m) d (json_members (p # ps) @ CHR ''}'' # rest) = Some (vs', rest)"
    using 3(1) [OF rest, of "Suc m"] 3(4) n by simp
  moreover have "json_members ((k, enc) # p # ps) @ CHR ''}'' # rest = CHR 0x22 # json_chars k @ CHR 0x22 # CHR '':'' # enc @ ?more"
    by (simp add: json_string_def)
  ultimately show ?case
    unfolding n vs
    by (subst json_object_members.simps)
      (simp add: skip_json_space_def json_space_def del: json_value.simps json_object_members.simps json_members.simps(2,3))
qed simp

lemma Unmarshal_object:
  assumes "list_all2 (\<lambda>(k, enc) (k', v). k' = k \<and> plain_ascii k \<and> encodes v enc) ps vs" and "ps \<noteq> []"
  shows "Unmarshal (json_object ps) = Some (JObject vs)"
proof -
  have len: "length ps \<le> length (json_members ps)" for ps
    by (induction ps rule: json_members.induct) (auto simp: json_string_def)
  obtain k enc qs where ps: "ps = (k, enc) # qs" using assms(2) by (cases ps) auto
  then obtain more where m: "json_members ps = CHR 0x22 # more"
    by (cases qs) (auto simp: json_string_def)
  have "json_object_members (2 * length (json_object ps) + 1) 9999 (json_members ps @ CHR ''}'' # []) = Some (vs, [])"
    using json_members_read [OF assms, of "2 * length (json_object ps) + 1" 9999 "[]"] len [of ps] by (simp add: json_object_def)
  then show ?thesis
    using m by (simp add: Unmarshal_def json_object_def skip_json_space_def json_space_def maxNestingDepth_def Let_def)
qed

section \<open>The fuel is enough\<close>

lemma unquote_shorter: "unquote s = Some (x, t) \<Longrightarrow> length t < length s"
proof (induction s arbitrary: x rule: unquote.induct)
  case (1 s)
  show ?case
  proof (cases "s \<noteq> [] \<and> hd s = CHR 0x22")
    case True
    with 1(2) show ?thesis by (subst (asm) unquote.simps) auto
  next
    case False
    with 1(2) obtain y u z where "unquote_char s = Some (y, u)" and "unquote u = Some (z, t)"
      by (subst (asm) unquote.simps) (auto split: option.splits)
    with 1(1) [OF False this(1) refl this(2)] show ?thesis using unquote_char_shorter by fastforce
  qed
qed

lemma skip_json_space_le: "length (skip_json_space s) \<le> length s"
  by (simp add: skip_json_space_def length_dropWhile_le)

lemma tl_shorter: "HasPrefix s [c] \<Longrightarrow> length (tl s) < length s"
  by (cases s) simp_all

lemma scan_digits_shorter: "scan_digits s = Some (d, t) \<Longrightarrow> length t < length s"
proof -
  assume "scan_digits s = Some (d, t)"
  then have "takeWhile is_digit s \<noteq> []" and "t = dropWhile is_digit s"
    by (auto simp: scan_digits_def split: if_splits)
  moreover have "length (takeWhile is_digit s @ dropWhile is_digit s) = length s"
    by simp
  moreover have "0 < length (takeWhile is_digit s)"
    using calculation(1) by blast
  ultimately show ?thesis by (simp del: takeWhile_dropWhile_id length_greater_0_conv)
qed

lemma json_number_shorter:
  assumes "json_number s = Some (x, t)"
  shows "length t < length s"
proof -
  define g where "g = (if HasPrefix s ''-'' then ''-'' else [] :: string)"
  from assms obtain i s1 f s2 e where n: "number_integer (drop (length g) s) = Some (i, s1)" "number_fraction s1 = Some (f, s2)"
    "number_exponent s2 = Some (e, t)"
    by (auto simp: json_number_def g_def Let_def split: option.splits)
  have "length s1 < length s"
    using n(1) scan_digits_shorter [of "drop (length g) s"] tl_shorter [of "drop (length g) s" "CHR ''0''"]
    by (fastforce simp: number_integer_def digits1_def split: if_splits)
  moreover have "length s2 \<le> length s1"
    using n(2) scan_digits_shorter [of "tl s1"] by (fastforce simp: number_fraction_def digits1_def split: if_splits)
  moreover have "length t \<le> length s2"
    using n(3) by (auto simp: number_exponent_def digits1_def Let_def split: if_splits dest!: scan_digits_shorter)
  ultimately show ?thesis by simp
qed

lemma HasPrefix_length: "HasPrefix s p \<Longrightarrow> length p \<le> length s"
  by (auto simp: HasPrefix_iff)

lemma json_literal_shorter: "json_literal s = Some (x, t) \<Longrightarrow> length t < length s"
  by (auto simp: json_literal_def split: if_splits dest!: json_number_shorter HasPrefix_length)

lemma opened_shorter:
  assumes "HasPrefix (skip_json_space s) [c]"
  shows "length (tl (skip_json_space s)) < length s" and "length (skip_json_space (tl (skip_json_space s))) < length s"
  using tl_shorter [OF assms] skip_json_space_le [of s] skip_json_space_le [of "tl (skip_json_space s)"] by simp_all

lemma json_shorter:
  "json_value n d s = Some (v, t) \<Longrightarrow> length t < length s"
  "json_elements n d s = Some (vs, t) \<Longrightarrow> length t < length s"
  "json_object_members n d s = Some (ms, t) \<Longrightarrow> length t < length s"
proof (induction n d s and n d s and n d s arbitrary: v t and vs t and ms t
    rule: json_value_json_elements_json_object_members.induct)
  case (2 n d s)
  let ?s = "skip_json_space s"
  let ?t = "skip_json_space (tl ?s)"
  consider (brace) "HasPrefix ?s ''{''" | (bracket) "HasPrefix ?s ''[''" "\<not> HasPrefix ?s ''{''"
    | (quote) "HasPrefix ?s [CHR 0x22]" "\<not> HasPrefix ?s ''{''" "\<not> HasPrefix ?s ''[''"
    | (other) "\<not> HasPrefix ?s [CHR 0x22]" "\<not> HasPrefix ?s ''{''" "\<not> HasPrefix ?s ''[''"
    by blast
  then show ?case
  proof cases
    case brace
    then have "t = tl ?t \<and> HasPrefix ?t ''}'' \<or> (\<exists>ms. json_object_members n (d - 1) ?t = Some (ms, t)) \<and> d \<noteq> 0 \<and> \<not> HasPrefix ?t ''}''"
      using 2(3) by (auto simp: Let_def split: if_splits)
    then show ?thesis
      using opened_shorter(2) [OF brace] 2(1) [OF refl brace _ refl] by (auto dest: tl_shorter)
  next
    case bracket
    then have "t = tl ?t \<and> HasPrefix ?t '']'' \<or> (\<exists>vs. json_elements n (d - 1) ?t = Some (vs, t)) \<and> d \<noteq> 0 \<and> \<not> HasPrefix ?t '']''"
      using 2(3) by (auto simp: Let_def split: if_splits)
    then show ?thesis
      using opened_shorter(2) [OF bracket(1)] 2(2) [OF refl bracket(2,1) _ refl] by (auto dest: tl_shorter)
  next
    case quote
    then show ?thesis
      using 2(3) opened_shorter(1) [OF quote(1)] by (auto simp: Let_def dest!: unquote_shorter)
  next
    case other
    then have "json_literal ?s = Some (v, t)" using 2(3) by (simp add: Let_def)
    from json_literal_shorter [OF this] show ?thesis using skip_json_space_le [of s] by simp
  qed
next
  case (4 n d s)
  from 4(3) obtain v u where u: "json_value n d s = Some (v, u)"
    and t: "t = tl (skip_json_space u) \<and> HasPrefix (skip_json_space u) '']''
      \<or> \<not> HasPrefix (skip_json_space u) '']'' \<and> HasPrefix (skip_json_space u) '','' \<and> (\<exists>vs. json_elements n d (tl (skip_json_space u)) = Some (vs, t))"
    by (auto simp: Let_def split: option.splits if_splits)
  from t 4(2) [OF u refl refl] have "length t \<le> length (tl (skip_json_space u))" by fastforce
  with 4(1) [OF u] skip_json_space_le [of u] show ?case
    by (metis length_tl diff_le_self le_less_trans order_trans)
next
  case (6 n d s)
  let ?s = "skip_json_space s"
  from 6(3) obtain k u v x where q: "HasPrefix ?s [CHR 0x22]" "unquote (tl ?s) = Some (k, u)"
    and c: "HasPrefix (skip_json_space u) '':''" "json_value n d (tl (skip_json_space u)) = Some (v, x)"
    and t: "t = tl (skip_json_space x) \<and> HasPrefix (skip_json_space x) ''}''
      \<or> \<not> HasPrefix (skip_json_space x) ''}'' \<and> HasPrefix (skip_json_space x) '','' \<and> (\<exists>ms. json_object_members n d (tl (skip_json_space x)) = Some (ms, t))"
    by (auto simp: Let_def split: option.splits if_splits)
  have "length u < length s" using unquote_shorter [OF q(2)] opened_shorter(1) [OF q(1)] by simp
  moreover have "length x < length u"
    using 6(1) [OF refl _ q(2) refl refl _ c(2)] q(1) c(1) opened_shorter(1) [OF c(1)] by simp
  moreover have "length t \<le> length (tl (skip_json_space x))"
    using t 6(2) [OF refl _ q(2) refl refl _ c(2) refl refl] q(1) c(1) by fastforce
  ultimately show ?case using skip_json_space_le [of x] by (metis length_tl diff_le_self le_less_trans less_trans order_trans)
qed simp_all

lemma json_fuel:
  "2 * length s + 2 \<le> n \<Longrightarrow> 2 * length s + 2 \<le> m \<Longrightarrow> json_value n d s = json_value m d s"
  "2 * length s + 3 \<le> n \<Longrightarrow> 2 * length s + 3 \<le> m \<Longrightarrow> json_elements n d s = json_elements m d s"
  "2 * length s + 2 \<le> n \<Longrightarrow> 2 * length s + 2 \<le> m \<Longrightarrow> json_object_members n d s = json_object_members m d s"
proof (induction n d s and n d s and n d s arbitrary: m and m and m
    rule: json_value_json_elements_json_object_members.induct)
  case (2 n d s)
  obtain k where m: "m = Suc k" using 2(4) by (cases m) simp_all
  let ?s = "skip_json_space s"
  let ?t = "skip_json_space (tl ?s)"
  have "json_object_members n (d - 1) ?t = json_object_members k (d - 1) ?t"
    if "HasPrefix ?s ''{''" "d \<noteq> 0" "\<not> HasPrefix ?t ''}''"
    using 2(1) [OF refl that(1,2) refl that(3), of k] opened_shorter(2) [OF that(1)] 2(3,4) m by simp
  moreover have "json_elements n (d - 1) ?t = json_elements k (d - 1) ?t"
    if "\<not> HasPrefix ?s ''{''" "HasPrefix ?s ''[''" "d \<noteq> 0" "\<not> HasPrefix ?t '']''"
    using 2(2) [OF refl that(1-3) refl that(4), of k] opened_shorter(2) [OF that(2)] 2(3,4) m by simp
  ultimately show ?case
    unfolding m json_value.simps(2) Let_def by (simp cong: if_cong)
next
  case (4 n d s)
  obtain k where m: "m = Suc k" using 4(4) by (cases m) simp_all
  have v: "json_value n d s = json_value k d s"
    using 4(1) [of k] 4(3,4) m by simp
  have "json_elements n d (tl (skip_json_space u)) = json_elements k d (tl (skip_json_space u))"
    if "json_value n d s = Some (v, u)" "\<not> HasPrefix (skip_json_space u) '']''" "HasPrefix (skip_json_space u) '',''" for v u
    using 4(2) [OF that(1) refl refl that(2,3), of k] json_shorter(1) [OF that(1)] opened_shorter(1) [OF that(3)] 4(3,4) m by simp
  then show ?case
    unfolding m using v by (auto simp: Let_def split: option.split)
next
  case (6 n d s)
  obtain k where m: "m = Suc k" using 6(4) by (cases m) simp_all
  let ?s = "skip_json_space s"
  show ?case
  proof (cases "HasPrefix ?s [CHR 0x22]")
    case True
    show ?thesis
    proof (cases "unquote (tl ?s)")
      case (Some r)
      then obtain key t where u: "unquote (tl ?s) = Some (key, t)" by (cases r) simp
      then have t: "length t < length s" using unquote_shorter [OF u] opened_shorter(1) [OF True] by simp
      let ?t = "skip_json_space t"
      show ?thesis
      proof (cases "HasPrefix ?t '':''")
        case colon: True
        have v: "json_value n d (tl ?t) = json_value k d (tl ?t)"
          using 6(1) [OF refl _ u refl refl, of k] True colon opened_shorter(1) [OF colon] t 6(3,4) m by simp
        have "json_object_members n d (tl (skip_json_space x)) = json_object_members k d (tl (skip_json_space x))"
          if "json_value n d (tl ?t) = Some (v, x)" "\<not> HasPrefix (skip_json_space x) ''}''" "HasPrefix (skip_json_space x) '',''" for v x
          using 6(2) [OF refl _ u refl refl _ that(1) refl refl that(2,3), of k] True colon opened_shorter(1) [OF colon] t
            json_shorter(1) [OF that(1)] opened_shorter(1) [OF that(3)] 6(3,4) m by simp
        then show ?thesis
          unfolding m using True u colon v by (auto simp: Let_def split: option.split)
      qed (use m True u in \<open>simp add: Let_def\<close>)
    qed (use m True in \<open>simp add: Let_def\<close>)
  qed (use m in \<open>simp add: Let_def\<close>)
qed simp_all

end
