(* ===== verification/Upstream_Exchange.thy ===== *)
theory Upstream_Exchange
  imports Upstream Go_Json_Parse Gorm
begin

text \<open>
  The exchange of an upstream provider's code for an identity (internal/upstream/upstream.go).  Answers of
  the providers and the verdict of the OpenID Connect library come from the outside world.
\<close>

section \<open>Requests\<close>

text \<open>\<open>c.http.Do\<close>: the answer, or an error.\<close>

definition http_Do :: "env \<Rightarrow> upstream_request \<Rightarrow> (world, goerr + nat \<times> string) state" where
  "http_Do E req = State (\<lambda>w.
     (case net_reply E (net_calls w) req of None \<Rightarrow> Inl (ErrText ''request failed'') | Some answer \<Rightarrow> Inr answer,
      w\<lparr>net_calls := Suc (net_calls w)\<rparr>))"

definition decode_answer :: "string \<Rightarrow> goerr + nat \<times> string \<Rightarrow> goerr + json" where
  "decode_answer what answer =
     (case answer of
        Inl e \<Rightarrow> Inl e
      | Inr (status, text) \<Rightarrow>
          if status < 200 \<or> 300 \<le> status then Inl (ErrText (what @ '' returned '' @ decimal status))
          else (case Decoder_Decode text of None \<Rightarrow> Inl (ErrText ''invalid JSON'') | Some v \<Rightarrow> Inr v))"

definition Client_postForm :: "env \<Rightarrow> string \<Rightarrow> url_values \<Rightarrow> (world, goerr + json) state" where
  "Client_postForm E endpoint form = do {
     answer \<leftarrow> http_Do E
       \<lparr>up_method = ''POST'', up_url = endpoint,
        up_headers = [(''Content-Type'', ''application/x-www-form-urlencoded''), (''Accept'', ''application/json''),
                      (''User-Agent'', ''centrauth'')],
        up_body = Encode form\<rparr>;
     ret (decode_answer ''upstream token endpoint'' answer)
   }"

definition Client_getJSON :: "env \<Rightarrow> string \<Rightarrow> string \<Rightarrow> (world, goerr + json) state" where
  "Client_getJSON E endpoint accessToken = do {
     answer \<leftarrow> http_Do E
       \<lparr>up_method = ''GET'', up_url = endpoint,
        up_headers = [(''Authorization'', ''Bearer '' @ accessToken), (''Accept'', ''application/json''),
                      (''User-Agent'', ''centrauth'')],
        up_body = []\<rparr>;
     ret (decode_answer ''upstream endpoint'' answer)
   }"

definition upstream_token_form :: "upstream_config \<Rightarrow> string \<Rightarrow> string \<Rightarrow> url_values" where
  "upstream_token_form c code codeVerifier =
     (let form = [(''grant_type'', ''authorization_code''), (''code'', code), (''client_id'', Conf_ClientID c),
                  (''client_secret'', Conf_ClientSecret c), (''redirect_uri'', Conf_RedirectURL c)]
      in if codeVerifier \<noteq> [] then Set_value ''code_verifier'' codeVerifier form else form)"

text \<open>A field of the decoded structure, or the decoding error.\<close>

definition decoded :: "'a option \<Rightarrow> goerr + 'a" where
  "decoded x = (case x of None \<Rightarrow> Inl (ErrText ''cannot unmarshal'') | Some a \<Rightarrow> Inr a)"

section \<open>OpenID Connect\<close>

definition token_fields :: "json \<Rightarrow> (string \<times> string) option" where
  "token_fields v =
     Option.bind (members v) (\<lambda>ms.
     Option.bind (string_field ''access_token'' ms) (\<lambda>access.
     map_option (\<lambda>idt. (access, idt)) (string_field ''id_token'' ms)))"

definition claims_fields :: "json \<Rightarrow> (string \<times> bool \<times> string) option" where
  "claims_fields v =
     Option.bind (members v) (\<lambda>ms.
     Option.bind (string_field ''email'' ms) (\<lambda>email.
     Option.bind (bool_field ''email_verified'' ms) (\<lambda>verified.
     map_option (\<lambda>name. (email, verified, name)) (string_field ''name'' ms))))"

text \<open>\<open>NewProvider\<close>, \<open>Verifier\<close> and \<open>Verify\<close> of the library: the subject and the claims.\<close>

definition verify_id_token :: "env \<Rightarrow> upstream_config \<Rightarrow> string \<Rightarrow> (world, goerr + string \<times> string) state" where
  "verify_id_token E c idToken = State (\<lambda>w.
     (case oidc_verify E (net_calls w) (Conf_Issuer c) (Conf_ClientID c) idToken of
        None \<Rightarrow> Inl (ErrText ''verify upstream id_token'')
      | Some verified \<Rightarrow> Inr verified,
      w\<lparr>net_calls := Suc (net_calls w)\<rparr>))"

definition Client_exchangeOIDC ::
    "env \<Rightarrow> upstream_config \<Rightarrow> string \<Rightarrow> string \<Rightarrow> (world, goerr + identity) state" where
  "Client_exchangeOIDC E c code codeVerifier = do {
     answer \<leftarrow> Client_postForm E (Conf_TokenURL c) (upstream_token_form c code codeVerifier);
     case (case answer of Inl e \<Rightarrow> Inl e | Inr v \<Rightarrow> decoded (token_fields v)) of
       Inl e \<Rightarrow> ret (Inl (ErrWrapped ''exchange upstream code: '' e))
     | Inr (accessToken, idToken) \<Rightarrow>
         if idToken = [] then ret (Inl (ErrText ''upstream token response did not include an id_token''))
         else do {
           verified \<leftarrow> verify_id_token E c idToken;
           ret (case verified of
                  Inl e \<Rightarrow> Inl e
                | Inr (subject, claims) \<Rightarrow>
                    (case Option.bind (Unmarshal claims) claims_fields of
                       None \<Rightarrow> Inl (ErrText ''decode upstream claims'')
                     | Some (email, emailVerified, name) \<Rightarrow>
                         Inr \<lparr>Identity_Provider = Conf_Name c, Identity_Subject = subject,
                              Identity_Email = TrimSpace email, Identity_EmailVerified = emailVerified,
                              Identity_Name = TrimSpace name\<rparr>))
         }
   }"

section \<open>GitHub\<close>

record github_profile =
  Profile_ID :: int
  Profile_Login :: string
  Profile_Name :: string
  Profile_Email :: string

record github_email =
  Mail_Email :: string
  Mail_Primary :: bool
  Mail_Verified :: bool

definition access_token_field :: "json \<Rightarrow> string option" where
  "access_token_field v = Option.bind (members v) (string_field ''access_token'')"

definition profile_fields :: "json \<Rightarrow> github_profile option" where
  "profile_fields v =
     Option.bind (members v) (\<lambda>ms.
     Option.bind (int64_field ''id'' ms) (\<lambda>i.
     Option.bind (string_field ''login'' ms) (\<lambda>login.
     Option.bind (string_field ''name'' ms) (\<lambda>name.
     map_option (\<lambda>email. \<lparr>Profile_ID = i, Profile_Login = login, Profile_Name = name, Profile_Email = email\<rparr>)
       (string_field ''email'' ms)))))"

definition email_fields :: "json \<Rightarrow> github_email option" where
  "email_fields v =
     Option.bind (members v) (\<lambda>ms.
     Option.bind (string_field ''email'' ms) (\<lambda>email.
     Option.bind (bool_field ''primary'' ms) (\<lambda>primary.
     map_option (\<lambda>verified. \<lparr>Mail_Email = email, Mail_Primary = primary, Mail_Verified = verified\<rparr>)
       (bool_field ''verified'' ms))))"

definition emails_fields :: "json \<Rightarrow> github_email list option" where
  "emails_fields v =
     (case v of
        JArray vs \<Rightarrow> those (map email_fields vs)
      | JNull \<Rightarrow> Some []
      | _ \<Rightarrow> None)"

text \<open>The loop over the addresses: the primary one if it is verified, else the first that is when there was none.\<close>

fun pick_email :: "github_email list \<Rightarrow> string \<Rightarrow> bool \<Rightarrow> string \<times> bool" where
  "pick_email [] email verified = (email, verified)"
| "pick_email (candidate # candidates) email verified =
     (if Mail_Verified candidate \<and> (Mail_Primary candidate \<or> email = []) then
        (if Mail_Primary candidate then (Mail_Email candidate, True)
         else pick_email candidates (Mail_Email candidate) True)
      else pick_email candidates email verified)"

definition github_address :: "env \<Rightarrow> upstream_config \<Rightarrow> string \<Rightarrow> string \<Rightarrow> (world, string \<times> bool) state" where
  "github_address E c accessToken email =
     (if Conf_EmailsURL c = [] then ret (email, False)
      else do {
        answer \<leftarrow> Client_getJSON E (Conf_EmailsURL c) accessToken;
        ret (case (case answer of Inl e \<Rightarrow> None | Inr v \<Rightarrow> emails_fields v) of
               None \<Rightarrow> (email, False)
             | Some emails \<Rightarrow> pick_email emails email False)
      })"

definition Client_exchangeGitHub ::
    "env \<Rightarrow> upstream_config \<Rightarrow> string \<Rightarrow> string \<Rightarrow> (world, goerr + identity) state" where
  "Client_exchangeGitHub E c code codeVerifier = do {
     answer \<leftarrow> Client_postForm E (Conf_TokenURL c) (upstream_token_form c code codeVerifier);
     case (case answer of Inl e \<Rightarrow> Inl e | Inr v \<Rightarrow> decoded (access_token_field v)) of
       Inl e \<Rightarrow> ret (Inl (ErrWrapped ''exchange upstream code: '' e))
     | Inr accessToken \<Rightarrow>
         if accessToken = [] then ret (Inl (ErrText ''upstream token response did not include an access_token''))
         else do {
           profile \<leftarrow> Client_getJSON E (Conf_UserInfoURL c) accessToken;
           case (case profile of Inl e \<Rightarrow> Inl e | Inr v \<Rightarrow> decoded (profile_fields v)) of
             Inl e \<Rightarrow> ret (Inl (ErrWrapped ''fetch upstream profile: '' e))
           | Inr profile \<Rightarrow>
               if Profile_ID profile = 0 then ret (Inl (ErrText ''upstream profile did not include an id''))
               else do {
                 (email, verified) \<leftarrow> github_address E c accessToken (TrimSpace (Profile_Email profile));
                 let name = TrimSpace (Profile_Name profile);
                 ret (Inr \<lparr>Identity_Provider = Conf_Name c, Identity_Subject = Itoa (Profile_ID profile),
                           Identity_Email = email, Identity_EmailVerified = verified,
                           Identity_Name = (if name = [] then Profile_Login profile else name)\<rparr>)
               }
         }
   }"

definition Client_Exchange :: "env \<Rightarrow> upstream_config \<Rightarrow> string \<Rightarrow> string \<Rightarrow> (world, goerr + identity) state" where
  "Client_Exchange E c code codeVerifier =
     (if Conf_OIDC c then Client_exchangeOIDC E c code codeVerifier
      else Client_exchangeGitHub E c code codeVerifier)"

section \<open>The operations keep the schema\<close>

lemma sound_http_Do [schema_intros]: "sound E (http_Do E' req)"
  by (rule soundI, rule world_ok_same) (auto simp: http_Do_def)

lemma sound_verify_id_token [schema_intros]: "sound E (verify_id_token E' c token)"
  by (rule soundI, rule world_ok_same) (auto simp: verify_id_token_def)

lemma sound_exchange [schema_intros]:
  "sound E (Client_postForm E' endpoint form)" "sound E (Client_getJSON E' endpoint token)"
  unfolding Client_postForm_def Client_getJSON_def by (intro schema_intros)+

lemma sound_Client_Exchange [schema_intros]: "sound E (Client_Exchange E' c code codeVerifier)"
  unfolding Client_Exchange_def Client_exchangeOIDC_def Client_exchangeGitHub_def github_address_def Let_def
  by (intro schema_intros)

section \<open>Who vouches for an address\<close>

lemma pick_email_verified:
  "pick_email candidates email b = (email', True) \<Longrightarrow> b \<and> email = email' \<or> (\<exists>m \<in> set candidates. Mail_Verified m \<and> Mail_Email m = email')"
proof (induction candidates email b rule: pick_email.induct)
  case (2 candidate candidates email verified)
  then show ?case by (auto split: if_splits)
qed simp

lemma decode_answerD:
  "decode_answer what answer = Inr v \<Longrightarrow>
     \<exists>status text. answer = Inr (status, text) \<and> 200 \<le> status \<and> status < 300 \<and> Decoder_Decode text = Some v"
  by (auto simp: decode_answer_def split: sum.splits if_splits option.splits)

lemma run_Client_getJSON:
  "run_state (Client_getJSON E endpoint token) w = (Inr v, w') \<Longrightarrow>
     \<exists>req status text. net_reply E (net_calls w) req = Some (status, text) \<and> up_method req = ''GET'' \<and> up_url req = endpoint
       \<and> (''Authorization'', ''Bearer '' @ token) \<in> set (up_headers req)
       \<and> 200 \<le> status \<and> status < 300 \<and> Decoder_Decode text = Some v"
  by (auto simp: Client_getJSON_def http_Do_def split: option.splits dest!: decode_answerD) fastforce

definition vouched_by_github :: "env \<Rightarrow> upstream_config \<Rightarrow> string \<Rightarrow> bool" where
  "vouched_by_github E c email \<longleftrightarrow>
     (\<exists>k req status text v emails m. net_reply E k req = Some (status, text) \<and> up_url req = Conf_EmailsURL c
        \<and> 200 \<le> status \<and> status < 300 \<and> Decoder_Decode text = Some v \<and> emails_fields v = Some emails
        \<and> m \<in> set emails \<and> Mail_Verified m \<and> Mail_Email m = email)"

lemma github_address_verified:
  assumes "run_state (github_address E c token email) w = ((email', True), w')"
  shows "vouched_by_github E c email'"
proof -
  obtain answer u where a: "run_state (Client_getJSON E (Conf_EmailsURL c) token) w = (answer, u)"
    by fastforce
  with assms obtain v emails where v: "answer = Inr v" "emails_fields v = Some emails" "pick_email emails email False = (email', True)"
    by (auto simp: github_address_def split: if_splits sum.splits option.splits)
  from run_Client_getJSON [OF a [unfolded v(1)]] pick_email_verified [OF v(3)] v(2) show ?thesis
    unfolding vouched_by_github_def by blast
qed

lemma exchangeGitHubD:
  assumes "run_state (Client_exchangeGitHub E c code cv) w = (Inr i, w')"
  shows "Identity_Provider i = Conf_Name c" and "Identity_EmailVerified i \<Longrightarrow> vouched_by_github E c (Identity_Email i)"
proof -
  obtain answer u where a: "run_state (Client_postForm E (Conf_TokenURL c) (upstream_token_form c code cv)) w = (answer, u)"
    by fastforce
  with assms obtain token where t: "(case answer of Inl e \<Rightarrow> Inl e | Inr v \<Rightarrow> decoded (access_token_field v)) = Inr token" "token \<noteq> []"
    by (auto simp: Client_exchangeGitHub_def split: sum.splits if_splits)
  obtain answer2 u2 where b: "run_state (Client_getJSON E (Conf_UserInfoURL c) token) u = (answer2, u2)"
    by fastforce
  with assms a t obtain p where p: "(case answer2 of Inl e \<Rightarrow> Inl e | Inr v \<Rightarrow> decoded (profile_fields v)) = Inr p" "Profile_ID p \<noteq> 0"
    by (cases "case answer2 of Inl e \<Rightarrow> Inl e | Inr v \<Rightarrow> decoded (profile_fields v)") (auto simp: Client_exchangeGitHub_def split: if_splits)
  obtain email verified u3 where c: "run_state (github_address E c token (TrimSpace (Profile_Email p))) u2 = ((email, verified), u3)"
    by (metis prod.collapse)
  from assms a t b p c have i: "Identity_Provider i = Conf_Name c" "Identity_Email i = email" "Identity_EmailVerified i = verified"
    by (auto simp: Client_exchangeGitHub_def Let_def)
  then show "Identity_Provider i = Conf_Name c" and "Identity_EmailVerified i \<Longrightarrow> vouched_by_github E c (Identity_Email i)"
    using github_address_verified c by auto
qed

definition vouched_by_token :: "env \<Rightarrow> upstream_config \<Rightarrow> identity \<Rightarrow> bool" where
  "vouched_by_token E c i \<longleftrightarrow>
     (\<exists>k token claims v email name. token \<noteq> [] \<and> oidc_verify E k (Conf_Issuer c) (Conf_ClientID c) token = Some (Identity_Subject i, claims)
        \<and> Unmarshal claims = Some v \<and> claims_fields v = Some (email, Identity_EmailVerified i, name)
        \<and> Identity_Email i = TrimSpace email)"

lemma exchangeOIDCD:
  assumes "run_state (Client_exchangeOIDC E c code cv) w = (Inr i, w')"
  shows "Identity_Provider i = Conf_Name c" and "vouched_by_token E c i"
proof -
  obtain answer u where a: "run_state (Client_postForm E (Conf_TokenURL c) (upstream_token_form c code cv)) w = (answer, u)"
    by fastforce
  with assms obtain access token where t: "(case answer of Inl e \<Rightarrow> Inl e | Inr v \<Rightarrow> decoded (token_fields v)) = Inr (access, token)" "token \<noteq> []"
    by (cases "case answer of Inl e \<Rightarrow> Inl e | Inr v \<Rightarrow> decoded (token_fields v)") (auto simp: Client_exchangeOIDC_def split: if_splits)
  with assms a obtain subject claims where s: "oidc_verify E (net_calls u) (Conf_Issuer c) (Conf_ClientID c) token = Some (subject, claims)"
    and c: "(case Option.bind (Unmarshal claims) claims_fields of
                       None \<Rightarrow> Inl (ErrText ''decode upstream claims'')
                     | Some (email, emailVerified, name) \<Rightarrow>
                         Inr \<lparr>Identity_Provider = Conf_Name c, Identity_Subject = subject,
                              Identity_Email = TrimSpace email, Identity_EmailVerified = emailVerified,
                              Identity_Name = TrimSpace name\<rparr>) = Inr i"
    by (auto simp: Client_exchangeOIDC_def verify_id_token_def split: option.splits)
  from c obtain v email verified name where "Unmarshal claims = Some v" "claims_fields v = Some (email, verified, name)"
    and i: "i = \<lparr>Identity_Provider = Conf_Name c, Identity_Subject = subject,
                              Identity_Email = TrimSpace email, Identity_EmailVerified = verified,
                              Identity_Name = TrimSpace name\<rparr>"
    by (auto simp: bind_eq_Some_conv split: option.splits)
  with s t(2) show "Identity_Provider i = Conf_Name c" and "vouched_by_token E c i"
    unfolding vouched_by_token_def by fastforce+
qed

section \<open>Properties\<close>

text \<open>
  C32.  Who vouches for an identity.  An exchange yields an identity of the configured provider only.  With an
  OpenID Connect provider its subject, address and verification are those of an ID token that the library
  verified for the provider's issuer and this client; with GitHub an address counts as verified only if it is
  one that GitHub listed as verified.
\<close>

theorem upstream_identity_vouched:
  assumes "run_state (Client_Exchange E c code codeVerifier) w = (Inr i, w')"
  shows "Identity_Provider i = Conf_Name c
    \<and> (if Conf_OIDC c then vouched_by_token E c i
       else Identity_EmailVerified i \<longrightarrow> vouched_by_github E c (Identity_Email i))"
  using assms exchangeOIDCD exchangeGitHubD unfolding Client_Exchange_def by (cases "Conf_OIDC c") auto

definition github_reply :: "nat \<Rightarrow> upstream_request \<Rightarrow> (nat \<times> string) option" where
  "github_reply k req =
     (if k = 0 then Some (200, json_object [(''access_token'', json_string ''t'')])
      else if k = 1 then Some (200, json_object [(''id'', ''7''), (''login'', json_string ''octo''), (''email'', ''null'')])
      else Some (200, ''['' @ json_object [(''email'', json_string ''o@x.y''), (''primary'', ''true''), (''verified'', ''true'')] @ '']''))"

definition github_env :: env where
  "github_env = calm_env\<lparr>net_reply := github_reply\<rparr>"

definition github_config :: upstream_config where
  "github_config = projr (ConfigFor calm_env ''github'' ''id'' ''secret'' ''https://idp/cb'')"

lemma github_answers:
  "Decoder_Decode (json_object [(''access_token'', json_string ''t'')]) = Some (JObject [(''access_token'', JString ''t'')])"
  "Decoder_Decode (json_object [(''id'', ''7''), (''login'', json_string ''octo''), (''email'', ''null'')])
    = Some (JObject [(''id'', JNumber ''7''), (''login'', JString ''octo''), (''email'', JNull)])"
  "Decoder_Decode (''['' @ json_object [(''email'', json_string ''o@x.y''), (''primary'', ''true''), (''verified'', ''true'')] @ '']'')
    = Some (JArray [JObject [(''email'', JString ''o@x.y''), (''primary'', JBool True), (''verified'', JBool True)]])"
  by code_simp+

lemma github_fields:
  "access_token_field (JObject [(''access_token'', JString ''t'')]) = Some ''t''"
  "profile_fields (JObject [(''id'', JNumber ''7''), (''login'', JString ''octo''), (''email'', JNull)])
     = Some \<lparr>Profile_ID = 7, Profile_Login = ''octo'', Profile_Name = [], Profile_Email = []\<rparr>"
  "emails_fields (JArray [JObject [(''email'', JString ''o@x.y''), (''primary'', JBool True), (''verified'', JBool True)]])
     = Some [\<lparr>Mail_Email = ''o@x.y'', Mail_Primary = True, Mail_Verified = True\<rparr>]"
  "TrimSpace [] = []"
proof -
  have seven: "ParseInt 64 ''7'' = Some 7"
    by (simp add: ParseInt_def ParseUint_def is_digit_def byte_in_def digits_value_def HasPrefix_def)
  have names: "map fold_name [''access_token'', ''id'', ''login'', ''name'', ''email'', ''primary'', ''verified'']
    = [''access_token'', ''id'', ''login'', ''name'', ''email'', ''primary'', ''verified'']"
    by code_simp
  note fields = members_def string_field_def bool_field_def int64_field_def decode_field_def field_values_def
  show "access_token_field (JObject [(''access_token'', JString ''t'')]) = Some ''t''"
    using names by (simp add: access_token_field_def fields)
  show "profile_fields (JObject [(''id'', JNumber ''7''), (''login'', JString ''octo''), (''email'', JNull)])
     = Some \<lparr>Profile_ID = 7, Profile_Login = ''octo'', Profile_Name = [], Profile_Email = []\<rparr>"
    using names seven by (simp add: profile_fields_def fields del: fold_name.simps)
  show "emails_fields (JArray [JObject [(''email'', JString ''o@x.y''), (''primary'', JBool True), (''verified'', JBool True)]])
     = Some [\<lparr>Mail_Email = ''o@x.y'', Mail_Primary = True, Mail_Verified = True\<rparr>]"
    using names by (simp add: emails_fields_def email_fields_def fields del: fold_name.simps)
  show "TrimSpace [] = []" by code_simp
qed

definition octo :: identity where
  "octo = \<lparr>Identity_Provider = ''github'', Identity_Subject = ''7'', Identity_Email = ''o@x.y'',
     Identity_EmailVerified = True, Identity_Name = ''octo''\<rparr>"

lemma github_post:
  "net_calls w = 0 \<Longrightarrow> run_state (Client_postForm github_env endpoint form) w
     = (Inr (JObject [(''access_token'', JString ''t'')]), w\<lparr>net_calls := 1\<rparr>)"
  using github_answers(1) by (simp add: Client_postForm_def http_Do_def github_env_def github_reply_def decode_answer_def)

lemma github_get:
  "net_calls w = 1 \<Longrightarrow> run_state (Client_getJSON github_env endpoint token) w
     = (Inr (JObject [(''id'', JNumber ''7''), (''login'', JString ''octo''), (''email'', JNull)]), w\<lparr>net_calls := 2\<rparr>)"
  "net_calls w = 2 \<Longrightarrow> run_state (Client_getJSON github_env endpoint token) w
     = (Inr (JArray [JObject [(''email'', JString ''o@x.y''), (''primary'', JBool True), (''verified'', JBool True)]]), w\<lparr>net_calls := 3\<rparr>)"
  using github_answers(2,3)
  by (simp_all add: Client_getJSON_def http_Do_def github_env_def github_reply_def decode_answer_def)

lemma github_exchange:
  assumes "net_calls w = 0" and "\<not> Conf_OIDC c" "Conf_Name c = ''github''" "Conf_EmailsURL c \<noteq> []"
  shows "run_state (Client_Exchange github_env c code codeVerifier) w = (Inr octo, w\<lparr>net_calls := 3\<rparr>)"
proof -
  have itoa: "Itoa 7 = ''7''" by code_simp
  show ?thesis
    using assms itoa
    by (simp add: Client_Exchange_def Client_exchangeGitHub_def github_post github_get github_fields decoded_def
        github_address_def octo_def Let_def)
qed

theorem upstream_identity_vouched_witness: "vouched_by_github github_env github_config ''o@x.y''"
proof -
  have conf: "\<not> Conf_OIDC github_config" "Conf_Name github_config = ''github''" "Conf_EmailsURL github_config \<noteq> []"
    by (simp_all add: github_config_def ConfigFor_def)
  have "net_calls empty_world = 0" by (simp add: empty_world_def)
  from upstream_identity_vouched [OF github_exchange [OF this conf]] conf(1) show ?thesis
    by (simp add: octo_def)
qed

end
