(* ===== verification/Middleware.thy ===== *)
theory Middleware
  imports Authorize Redirect_URIs
begin

text \<open>
  The middleware (internal/middleware): the user's and the operator's session, the guard of the
  operators' pages, the protection against requests forged by other sites, and the log of requests.
  A handler reads the request and steps the state of the server.
\<close>

type_synonym handler = "request \<Rightarrow> (world, response) state"

section \<open>Sessions in the request's context\<close>

definition Session :: "app \<Rightarrow> handler \<Rightarrow> handler" where
  "Session A serve r =
     (case Manager_GetCookie (app_sessions A) r of
        None \<Rightarrow> serve r
      | Some token \<Rightarrow> do {
          validated \<leftarrow> Manager_Validate (app_env A) token;
          case validated of
            Inl e \<Rightarrow> serve r
          | Inr s \<Rightarrow> do {
              found \<leftarrow> gormUserRepo_GetByID (app_env A) (Session_UserID s);
              case found of
                Inl e \<Rightarrow> serve r
              | Inr user \<Rightarrow> serve (r\<lparr>req_user := Some user\<rparr>)
            }
        })"

definition OperatorSession :: "app \<Rightarrow> handler \<Rightarrow> handler" where
  "OperatorSession A serve r =
     (case OperatorManager_GetCookie (app_operatorSessions A) r of
        None \<Rightarrow> serve r
      | Some token \<Rightarrow> do {
          validated \<leftarrow> OperatorManager_Validate (app_env A) token;
          case validated of
            Inl e \<Rightarrow> serve r
          | Inr s \<Rightarrow> do {
              found \<leftarrow> gormOperatorRepo_GetByID (app_env A) (OpSession_OperatorID s);
              case found of
                Inl e \<Rightarrow> serve r
              | Inr operator \<Rightarrow> serve (r\<lparr>req_operator := Some operator\<rparr>)
            }
        })"

definition RequireOperator :: "handler \<Rightarrow> handler" where
  "RequireOperator serve r =
     (case OperatorFromContext r of
        None \<Rightarrow> ret (Redirect ''/admin/login'' StatusSeeOther)
      | Some operator \<Rightarrow> serve r)"

section \<open>Requests from other sites\<close>

text \<open>\<open>CrossOriginProtection.Check\<close> of net/http without trusted origins; \<open>None\<close> is acceptance.\<close>

definition CrossOrigin_Check :: "env \<Rightarrow> request \<Rightarrow> string option" where
  "CrossOrigin_Check E r =
     (if req_method r \<in> set [''GET'', ''HEAD'', ''OPTIONS''] then None
      else let site = Header_Get r ''Sec-Fetch-Site'' in
        if site \<in> set [''same-origin'', ''none''] then None
        else if site \<noteq> [] then Some ''cross-origin request detected from Sec-Fetch-Site header''
        else let origin = Header_Get r ''Origin'' in
          if origin = [] then None
          else if (case Parse E origin of None \<Rightarrow> False | Some o' \<Rightarrow> URL_Host o' = req_host r) then None
          else Some (''cross-origin request detected, and/or browser is out of date: ''
                 @ ''Sec-Fetch-Site is missing, and Origin does not match Host''))"

definition CSRF :: "env \<Rightarrow> handler \<Rightarrow> handler" where
  "CSRF E serve r =
     (case CrossOrigin_Check E r of
        None \<Rightarrow> serve r
      | Some err \<Rightarrow> ret (Error err StatusForbidden))"

definition CSRFExcept :: "env \<Rightarrow> handler \<Rightarrow> string list \<Rightarrow> handler" where
  "CSRFExcept E serve exempt r =
     (if req_path r \<in> set exempt then serve r else CSRF E serve r)"

section \<open>The log of requests\<close>

text \<open>
  \<open>responseRecorder\<close> and the calls it makes on the writer it wraps, in their order.  A status of 0
  stands for none.
\<close>

datatype writer_call = CallWriteHeader nat | CallWrite string

record responseRecorder =
  statusCode :: nat
  wrapped_calls :: "writer_call list"

definition responseRecorder_WriteHeader :: "nat \<Rightarrow> responseRecorder \<Rightarrow> responseRecorder" where
  "responseRecorder_WriteHeader code rec =
     (if statusCode rec \<noteq> 0 then rec
      else rec\<lparr>statusCode := code, wrapped_calls := wrapped_calls rec @ [CallWriteHeader code]\<rparr>)"

definition responseRecorder_Write :: "string \<Rightarrow> responseRecorder \<Rightarrow> responseRecorder" where
  "responseRecorder_Write body rec =
     (let rec = (if statusCode rec = 0 then responseRecorder_WriteHeader StatusOK rec else rec)
      in rec\<lparr>wrapped_calls := wrapped_calls rec @ [CallWrite body]\<rparr>)"

definition recorder_step :: "writer_call \<Rightarrow> responseRecorder \<Rightarrow> responseRecorder" where
  "recorder_step call rec =
     (case call of
        CallWriteHeader code \<Rightarrow> responseRecorder_WriteHeader code rec
      | CallWrite body \<Rightarrow> responseRecorder_Write body rec)"

text \<open>What a handler's calls make of a new recorder.\<close>

definition recorded :: "writer_call list \<Rightarrow> responseRecorder" where
  "recorded calls = fold recorder_step calls \<lparr>statusCode = 0, wrapped_calls = []\<rparr>"

definition logged_status :: "responseRecorder \<Rightarrow> nat" where
  "logged_status rec = (if statusCode rec = 0 then StatusOK else statusCode rec)"

text \<open>One line of the log: method, path, status and duration.\<close>

record log_line =
  log_method :: string
  log_path :: string
  log_status :: nat
  log_duration :: duration

definition Logger_line :: "env \<Rightarrow> handler \<Rightarrow> request \<Rightarrow> (world, response \<times> log_line) state" where
  "Logger_line E serve r = do {
     start \<leftarrow> Now E;
     resp \<leftarrow> serve r;
     now \<leftarrow> Now E;
     ret (resp, \<lparr>log_method = req_method r, log_path = req_path r,
                 log_status = logged_status (recorded [CallWriteHeader (resp_status resp)]),
                 log_duration = now - start\<rparr>)
   }"

definition Logger :: "env \<Rightarrow> handler \<Rightarrow> handler" where
  "Logger E serve r = do {
     (resp, line) \<leftarrow> Logger_line E serve r;
     ret resp
   }"

section \<open>The contract of a session middleware\<close>

text \<open>
  What a cookie says about the stored state: the first session with the token's digest, if it is neither
  revoked nor expired.
\<close>

definition live :: "('s \<Rightarrow> string) \<Rightarrow> ('s \<Rightarrow> instant option) \<Rightarrow> ('s \<Rightarrow> instant) \<Rightarrow> instant \<Rightarrow> string \<Rightarrow> 's list \<Rightarrow> 's option" where
  "live token_hash revoked expires now token xs =
     (case find (\<lambda>s. token_hash s = Sum256 token) xs of
        None \<Rightarrow> None
      | Some s \<Rightarrow> if revoked s = None \<and> now \<le> expires s then Some s else None)"

text \<open>Whose request it is, from the cookie and the stored state alone.\<close>

definition current_of ::
    "(app \<Rightarrow> request \<Rightarrow> string option) \<Rightarrow> (env \<Rightarrow> world \<Rightarrow> string \<Rightarrow> 's option)
     \<Rightarrow> (env \<Rightarrow> world \<Rightarrow> int \<Rightarrow> 'o option) \<Rightarrow> ('s \<Rightarrow> int) \<Rightarrow> app \<Rightarrow> world \<Rightarrow> request \<Rightarrow> 'o option" where
  "current_of cookie_of session_of owner_of owner_id A w r =
     (case cookie_of A r of
        None \<Rightarrow> None
      | Some token \<Rightarrow>
          (case session_of (app_env A) w token of
             None \<Rightarrow> None
           | Some s \<Rightarrow> owner_of (app_env A) w (owner_id s)))"

definition in_context :: "('o \<Rightarrow> request \<Rightarrow> request) \<Rightarrow> 'o option \<Rightarrow> request \<Rightarrow> request" where
  "in_context attach p r = (case p of None \<Rightarrow> r | Some p \<Rightarrow> attach p r)"

lemma in_context_simps [simp]: "in_context f None r = r" "in_context f (Some p) r = f p r"
  by (simp_all add: in_context_def)

locale context_middleware =
  fixes middleware :: "app \<Rightarrow> handler \<Rightarrow> handler"
    and cookie_of :: "app \<Rightarrow> request \<Rightarrow> string option"
    and validate :: "env \<Rightarrow> string \<Rightarrow> (world, goerr + 's) state"
    and get_owner :: "env \<Rightarrow> int \<Rightarrow> (world, goerr + 'o) state"
    and owner_id :: "'s \<Rightarrow> int"
    and attach :: "'o \<Rightarrow> request \<Rightarrow> request"
    and session_of :: "env \<Rightarrow> world \<Rightarrow> string \<Rightarrow> 's option"
    and owner_of :: "env \<Rightarrow> world \<Rightarrow> int \<Rightarrow> 'o option"
  assumes middleware_code: "middleware A serve r =
     (case cookie_of A r of
        None \<Rightarrow> serve r
      | Some token \<Rightarrow> do {
          validated \<leftarrow> validate (app_env A) token;
          case validated of
            Inl e \<Rightarrow> serve r
          | Inr s \<Rightarrow> do {
              found \<leftarrow> get_owner (app_env A) (owner_id s);
              case found of
                Inl e \<Rightarrow> serve r
              | Inr p \<Rightarrow> serve (attach p r)
            }
        })"
    and validate_counts: "\<exists>a. snd (run_state (validate E token) w) = counted a 1 w"
    and validate_session: "fst (run_state (validate E token) w) = Inr s \<Longrightarrow> session_of E w token = Some s"
    and validate_calm: "db_fault E (db_calls w) = NoFault \<Longrightarrow> session_of E w token = Some s \<Longrightarrow>
      fst (run_state (validate E token) w) = Inr s"
    and get_owner_counts: "snd (run_state (get_owner E i) w) = counted 0 1 w"
    and get_owner_row: "fst (run_state (get_owner E i) w) = Inr p \<Longrightarrow> owner_of E w i = Some p"
    and get_owner_calm: "db_fault E (db_calls w) = NoFault \<Longrightarrow> owner_of E w i = Some p \<Longrightarrow>
      fst (run_state (get_owner E i) w) = Inr p"
    and owner_of_counted: "owner_of E (counted a b w) i = owner_of E w i"
begin

abbreviation current :: "app \<Rightarrow> world \<Rightarrow> request \<Rightarrow> 'o option" where
  "current \<equiv> current_of cookie_of session_of owner_of owner_id"

lemmas current_def = current_of_def [of cookie_of session_of owner_of owner_id]

lemma middleware_runs:
  obtains p a b where "run_state (middleware A serve r) w = run_state (serve (in_context attach p r)) (counted a b w)"
    and "p = None \<or> p = current A w r"
    and "db_fault (app_env A) (db_calls w) = NoFault \<Longrightarrow> db_fault (app_env A) (Suc (db_calls w)) = NoFault \<Longrightarrow> p = current A w r"
proof (cases "cookie_of A r")
  case None
  then have "run_state (middleware A serve r) w = run_state (serve (in_context attach None r)) (counted 0 0 w)"
    and "current A w r = None"
    by (simp_all add: middleware_code current_def)
  then show thesis using that by metis
next
  case (Some token)
  let ?E = "app_env A"
  obtain res a where val: "run_state (validate ?E token) w = (res, counted a 1 w)"
    using validate_counts [of ?E token w] by (metis prod.collapse)
  show thesis
  proof (cases res)
    case (Inl e)
    then have run: "run_state (middleware A serve r) w = run_state (serve (in_context attach None r)) (counted a 1 w)"
      using Some val by (simp add: middleware_code)
    have "current A w r = None" if "db_fault ?E (db_calls w) = NoFault"
    proof (cases "session_of ?E w token")
      case (Some s)
      then show ?thesis using validate_calm [OF that Some] val Inl by simp
    qed (use \<open>cookie_of A r = Some token\<close> in \<open>simp add: current_def\<close>)
    then show thesis using that [OF run] by simp
  next
    case (Inr s)
    then have sess: "session_of ?E w token = Some s"
      using validate_session [of ?E token w s] val by simp
    have cur: "current A w r = owner_of ?E (counted a 1 w) (owner_id s)"
      using Some sess by (simp add: current_def owner_of_counted)
    obtain res2 where got: "run_state (get_owner ?E (owner_id s)) (counted a 1 w) = (res2, counted a 2 w)"
      using get_owner_counts [of ?E "owner_id s" "counted a 1 w"]
      by (metis counted_counted prod.collapse add_0 one_add_one)
    show thesis
    proof (cases res2)
      case (Inl e)
      then have run: "run_state (middleware A serve r) w = run_state (serve (in_context attach None r)) (counted a 2 w)"
        using Some val Inr got by (simp add: middleware_code)
      have "current A w r = None" if "db_fault ?E (Suc (db_calls w)) = NoFault"
      proof (rule ccontr)
        assume "current A w r \<noteq> None"
        then obtain p where "owner_of ?E (counted a 1 w) (owner_id s) = Some p"
          using cur by auto
        then have "fst (run_state (get_owner ?E (owner_id s)) (counted a 1 w)) = Inr p"
          using get_owner_calm [of ?E "counted a 1 w" "owner_id s" p] that by simp
        with got Inl show False by simp
      qed
      then show thesis using that [OF run] by simp
    next
      case (Inr p)
      then have "current A w r = Some p"
        using get_owner_row [of ?E "owner_id s" "counted a 1 w" p] got cur by simp
      moreover have "run_state (middleware A serve r) w = run_state (serve (in_context attach (Some p) r)) (counted a 2 w)"
        using Some val \<open>res = Inr s\<close> got Inr by (simp add: middleware_code)
      ultimately show thesis using that by metis
    qed
  qed
qed

lemma currentD:
  assumes "current A w r = Some p"
  obtains token s where "cookie_of A r = Some token" and "session_of (app_env A) w token = Some s"
    and "owner_of (app_env A) w (owner_id s) = Some p"
  using assms by (auto simp: current_def split: option.splits)

end

section \<open>The two sessions\<close>

definition live_session :: "env \<Rightarrow> world \<Rightarrow> string \<Rightarrow> session option" where
  "live_session E w token =
     live Session_TokenHash Session_RevokedAt Session_ExpiresAt (clock E (ticks w)) token (rows Sessions w)"

definition live_operator_session :: "env \<Rightarrow> world \<Rightarrow> string \<Rightarrow> operator_session option" where
  "live_operator_session E w token =
     live OpSession_TokenHash OpSession_RevokedAt OpSession_ExpiresAt (clock E (ticks w)) token (rows OperatorSessions w)"

definition user_of :: "env \<Rightarrow> world \<Rightarrow> int \<Rightarrow> user option" where
  "user_of E w i = find (\<lambda>u. User_ID u = i) (rows (Users E) w)"

definition operator_of :: "env \<Rightarrow> world \<Rightarrow> int \<Rightarrow> operator option" where
  "operator_of E w i = find (\<lambda>p. Operator_ID p = i) (rows (Operators E) w)"

definition current_user :: "app \<Rightarrow> world \<Rightarrow> request \<Rightarrow> user option" where
  "current_user =
     current_of (\<lambda>A. Manager_GetCookie (app_sessions A)) live_session user_of Session_UserID"

definition current_operator :: "app \<Rightarrow> world \<Rightarrow> request \<Rightarrow> operator option" where
  "current_operator =
     current_of (\<lambda>A. OperatorManager_GetCookie (app_operatorSessions A)) live_operator_session operator_of OpSession_OperatorID"

lemma rows_counted_owners [simp]:
  "rows (Users E) (counted a b w) = rows (Users E) w" "rows (Operators E) (counted a b w) = rows (Operators E) w"
  by (simp_all add: rows_def)

lemma lookup_row:
  "lookup E M P w = Inr r \<Longrightarrow> find P (rows M w) = Some r"
  "db_fault E (db_calls w) = NoFault \<Longrightarrow> find P (rows M w) = Some r \<Longrightarrow> lookup E M P w = Inr r"
  by (auto dest: lookup_InrD) (simp add: lookup_def)

lemma Manager_Validate_counts: "\<exists>a. snd (run_state (Manager_Validate E token) w) = counted a (Suc 0) w"
proof -
  have "snd (run_state (Manager_Validate E token) w) \<in> {counted 0 (Suc 0) w, counted 1 (Suc 0) w}"
    by (simp add: Manager_sessions.run_validate run_gormSessionRepo_GetByTokenHash counted_def split: sum.split)
  then show ?thesis by auto
qed

lemma OperatorManager_Validate_counts: "\<exists>a. snd (run_state (OperatorManager_Validate E token) w) = counted a (Suc 0) w"
proof -
  have "snd (run_state (OperatorManager_Validate E token) w) \<in> {counted 0 (Suc 0) w, counted 1 (Suc 0) w}"
    by (simp add: OperatorManager_sessions.run_validate run_gormOperatorSessionRepo_GetByTokenHash counted_def split: sum.split)
  then show ?thesis by auto
qed

interpretation Session_context: context_middleware Session "\<lambda>A. Manager_GetCookie (app_sessions A)"
  Manager_Validate gormUserRepo_GetByID Session_UserID "\<lambda>u. req_user_update (\<lambda>_. Some u)" live_session user_of
proof (unfold_locales, goal_cases)
  case (3 E token w s)
  then have "run_state (Manager_Validate E token) w = (Inr s, snd (run_state (Manager_Validate E token) w))"
    by (metis prod.collapse)
  from Manager_sessions.validate_find [OF this] Manager_sessions.validate_sound [OF this] show ?case
    by (simp add: live_session_def live_def)
next
  case (4 E w token s)
  then show ?case
    by (auto simp: Manager_sessions.validate_result live_session_def live_def split: option.splits if_splits)
next
  case (6 E i w p)
  then show ?case by (simp add: run_simps user_of_def lookup_row(1))
next
  case (7 E w i p)
  then show ?case by (simp add: run_simps user_of_def lookup_row(2))
qed (simp_all add: Session_def Manager_Validate_counts run_simps user_of_def)

interpretation OperatorSession_context: context_middleware OperatorSession "\<lambda>A. OperatorManager_GetCookie (app_operatorSessions A)"
  OperatorManager_Validate gormOperatorRepo_GetByID OpSession_OperatorID "\<lambda>p. req_operator_update (\<lambda>_. Some p)"
  live_operator_session operator_of
proof (unfold_locales, goal_cases)
  case (3 E token w s)
  then have "run_state (OperatorManager_Validate E token) w = (Inr s, snd (run_state (OperatorManager_Validate E token) w))"
    by (metis prod.collapse)
  from OperatorManager_sessions.validate_find [OF this] OperatorManager_sessions.validate_sound [OF this] show ?case
    by (simp add: live_operator_session_def live_def)
next
  case (4 E w token s)
  then show ?case
    by (auto simp: OperatorManager_sessions.validate_result live_operator_session_def live_def split: option.splits if_splits)
next
  case (6 E i w p)
  then show ?case by (simp add: run_simps operator_of_def lookup_row(1))
next
  case (7 E w i p)
  then show ?case by (simp add: run_simps operator_of_def lookup_row(2))
qed (simp_all add: OperatorSession_def OperatorManager_Validate_counts run_simps operator_of_def)

lemmas Session_runs = Session_context.middleware_runs [folded current_user_def]

lemmas OperatorSession_runs = OperatorSession_context.middleware_runs [folded current_operator_def]

lemma current_userD:
  assumes "current_user A w r = Some u"
  obtains token s where "Request_Cookie r (CookieName (app_sessions A)) = Some token" and "s \<in> set (rows Sessions w)"
    and "Session_TokenHash s = Sum256 token" and "Session_RevokedAt s = None" and "clock (app_env A) (ticks w) \<le> Session_ExpiresAt s"
    and "u \<in> set (rows (Users (app_env A)) w)" and "User_ID u = Session_UserID s"
proof -
  from assms obtain token s where c: "Manager_GetCookie (app_sessions A) r = Some token" "live_session (app_env A) w token = Some s"
    "user_of (app_env A) w (Session_UserID s) = Some u"
    unfolding current_user_def by (rule Session_context.currentD)
  then have "find (\<lambda>s. Session_TokenHash s = Sum256 token) (rows Sessions w) = Some s"
    and l: "Session_RevokedAt s = None" "clock (app_env A) (ticks w) \<le> Session_ExpiresAt s"
    by (auto simp: live_session_def live_def split: option.splits if_splits)
  with c show thesis
    using find_SomeD [of _ "rows Sessions w" s] find_SomeD [of _ "rows (Users (app_env A)) w" u]
    by (intro that [of token s]) (auto simp: Manager_GetCookie_def user_of_def)
qed

lemma current_operatorD:
  assumes "current_operator A w r = Some p"
  obtains token s where "Request_Cookie r (CookieName (app_operatorSessions A)) = Some token" and "s \<in> set (rows OperatorSessions w)"
    and "OpSession_TokenHash s = Sum256 token" and "OpSession_RevokedAt s = None" and "clock (app_env A) (ticks w) \<le> OpSession_ExpiresAt s"
    and "p \<in> set (rows (Operators (app_env A)) w)" and "Operator_ID p = OpSession_OperatorID s"
proof -
  from assms obtain token s where c: "OperatorManager_GetCookie (app_operatorSessions A) r = Some token"
    "live_operator_session (app_env A) w token = Some s" "operator_of (app_env A) w (OpSession_OperatorID s) = Some p"
    unfolding current_operator_def by (rule OperatorSession_context.currentD)
  then have "find (\<lambda>s. OpSession_TokenHash s = Sum256 token) (rows OperatorSessions w) = Some s"
    and l: "OpSession_RevokedAt s = None" "clock (app_env A) (ticks w) \<le> OpSession_ExpiresAt s"
    by (auto simp: live_operator_session_def live_def split: option.splits if_splits)
  with c show thesis
    using find_SomeD [of _ "rows OperatorSessions w" s] find_SomeD [of _ "rows (Operators (app_env A)) w" p]
    by (intro that [of token s]) (auto simp: OperatorManager_GetCookie_def operator_of_def)
qed

section \<open>The guard of the operators' pages\<close>

lemma RequireOperator_runs:
  "run_state (RequireOperator serve r) w =
     (case req_operator r of
        None \<Rightarrow> (Redirect ''/admin/login'' StatusSeeOther, w)
      | Some p \<Rightarrow> run_state (serve r) w)"
  by (simp add: RequireOperator_def OperatorFromContext_def split: option.split)

lemma OperatorSession_guarded:
  assumes "req_operator r = None" and "run_state (OperatorSession A (RequireOperator serve) r) w = (resp, w')"
  shows "(\<exists>p a b. current_operator A w r = Some p
            \<and> run_state (serve (r\<lparr>req_operator := Some p\<rparr>)) (counted a b w) = (resp, w'))
    \<or> resp = Redirect ''/admin/login'' StatusSeeOther \<and> (\<exists>a b. w' = counted a b w)"
proof (rule OperatorSession_runs [of A "RequireOperator serve" r w])
  fix p a b
  assume run: "run_state (OperatorSession A (RequireOperator serve) r) w = run_state (RequireOperator serve
      (in_context (\<lambda>p. req_operator_update (\<lambda>_. Some p)) p r)) (counted a b w)"
    and p: "p = None \<or> p = current_operator A w r"
  show ?thesis
  proof (cases p)
    case None
    then show ?thesis using run assms by (auto simp: RequireOperator_runs)
  next
    case (Some q)
    with p have "current_operator A w r = Some q" by simp
    moreover have "run_state (serve (r\<lparr>req_operator := Some q\<rparr>)) (counted a b w) = (resp, w')"
      using Some run assms(2) by (simp add: RequireOperator_runs)
    ultimately show ?thesis by blast
  qed
qed

section \<open>The recorder\<close>

lemma recorder_step_rule:
  assumes "statusCode rec = 0 \<longrightarrow> wrapped_calls rec = []"
    and "statusCode rec \<noteq> 0 \<longrightarrow> (\<exists>bodies. wrapped_calls rec = CallWriteHeader (statusCode rec) # map CallWrite bodies)"
    and "call \<noteq> CallWriteHeader 0"
  shows "statusCode (recorder_step call rec) \<noteq> 0 \<and> (\<exists>bodies. wrapped_calls (recorder_step call rec) =
      CallWriteHeader (statusCode (recorder_step call rec)) # map CallWrite bodies)
    \<and> (statusCode rec \<noteq> 0 \<longrightarrow> statusCode (recorder_step call rec) = statusCode rec)"
proof (cases "statusCode rec = 0")
  case True
  then show ?thesis
    using assms by (cases call)
      (auto simp: recorder_step_def responseRecorder_WriteHeader_def responseRecorder_Write_def Let_def StatusOK_def
        intro: exI [of _ "[]"] exI [of _ "[b]" for b])
next
  case False
  then obtain bodies where b: "wrapped_calls rec = CallWriteHeader (statusCode rec) # map CallWrite bodies"
    using assms(2) by blast
  show ?thesis
  proof (cases call)
    case (CallWrite body)
    with False b show ?thesis
      by (auto simp: recorder_step_def responseRecorder_Write_def intro: exI [of _ "bodies @ [body]"])
  qed (use False b in \<open>auto simp: recorder_step_def responseRecorder_WriteHeader_def\<close>)
qed

definition recorder_ok :: "responseRecorder \<Rightarrow> bool" where
  "recorder_ok rec \<longleftrightarrow> statusCode rec \<noteq> 0
     \<and> (\<exists>bodies. wrapped_calls rec = CallWriteHeader (statusCode rec) # map CallWrite bodies)"

lemma recorder_ok_fold:
  assumes "recorder_ok rec" and "CallWriteHeader 0 \<notin> set calls"
  shows "recorder_ok (fold recorder_step calls rec) \<and> statusCode (fold recorder_step calls rec) = statusCode rec"
  using assms
proof (induction calls arbitrary: rec)
  case (Cons call calls)
  have "recorder_ok (recorder_step call rec) \<and> statusCode (recorder_step call rec) = statusCode rec"
    using recorder_step_rule [of rec call] Cons.prems by (auto simp: recorder_ok_def)
  with Cons.IH [of "recorder_step call rec"] Cons.prems(2) show ?case by simp
qed simp

definition first_status :: "writer_call \<Rightarrow> nat" where
  "first_status call = (case call of CallWriteHeader code \<Rightarrow> code | CallWrite body \<Rightarrow> StatusOK)"

lemma recorded_Cons:
  assumes "CallWriteHeader 0 \<notin> set (call # calls)"
  shows "recorder_ok (recorded (call # calls)) \<and> statusCode (recorded (call # calls)) = first_status call"
proof -
  let ?new = "\<lparr>statusCode = 0, wrapped_calls = []\<rparr>"
  have "recorder_ok (recorder_step call ?new)" and "statusCode (recorder_step call ?new) = first_status call"
    using recorder_step_rule [of ?new call] assms
    by (cases call; simp add: recorder_ok_def recorder_step_def first_status_def responseRecorder_WriteHeader_def
        responseRecorder_Write_def Let_def StatusOK_def)+
  with recorder_ok_fold [of "recorder_step call ?new" calls] assms show ?thesis
    by (simp add: recorded_def)
qed

section \<open>Properties\<close>

text \<open>
  C26.  A handler behind the session middleware always runs, once, and on the stored state.  Whatever
  fails, the user in its request's context is none or the user whose session the cookie names, and that
  session is neither revoked nor expired; when the database answers, the context holds exactly that user.
\<close>

theorem session_context_authentic:
  "\<exists>p a b. run_state (Session A serve r) w =
      run_state (serve (case p of None \<Rightarrow> r | Some u \<Rightarrow> r\<lparr>req_user := Some u\<rparr>)) (counted a b w)
    \<and> (p = None \<or> p = current_user A w r)
    \<and> (db_fault (app_env A) (db_calls w) = NoFault \<and> db_fault (app_env A) (Suc (db_calls w)) = NoFault \<longrightarrow> p = current_user A w r)
    \<and> (\<forall>u. p = Some u \<longrightarrow> u \<in> set (rows (Users (app_env A)) w)
        \<and> (\<exists>token s. Request_Cookie r (CookieName (app_sessions A)) = Some token \<and> s \<in> set (rows Sessions w)
             \<and> Session_TokenHash s = Sum256 token \<and> Session_RevokedAt s = None \<and> clock (app_env A) (ticks w) \<le> Session_ExpiresAt s
             \<and> User_ID u = Session_UserID s))"
proof -
  have signed: "\<forall>u. current_user A w r = Some u \<longrightarrow> u \<in> set (rows (Users (app_env A)) w)
        \<and> (\<exists>token s. Request_Cookie r (CookieName (app_sessions A)) = Some token \<and> s \<in> set (rows Sessions w)
             \<and> Session_TokenHash s = Sum256 token \<and> Session_RevokedAt s = None \<and> clock (app_env A) (ticks w) \<le> Session_ExpiresAt s
             \<and> User_ID u = Session_UserID s)"
    by (intro allI impI, erule current_userD) blast
  show ?thesis
  proof (rule Session_runs [of A serve r w])
    fix p a b
    assume run: "run_state (Session A serve r) w = run_state (serve
        (in_context (\<lambda>u. req_user_update (\<lambda>_. Some u)) p r)) (counted a b w)"
      and p: "p = None \<or> p = current_user A w r"
      "db_fault (app_env A) (db_calls w) = NoFault \<Longrightarrow> db_fault (app_env A) (Suc (db_calls w)) = NoFault \<Longrightarrow> p = current_user A w r"
    have "p = None \<or> p = current_user A w r \<and> (\<exists>u. p = Some u)" using p(1) by (cases p) auto
    then show ?thesis
      using run p signed by (intro exI [of _ p] exI [of _ a] exI [of _ b]) (auto simp: in_context_def)
  qed
qed

definition greeting :: handler where
  "greeting r = ret (Error (case req_user r of None \<Rightarrow> ''anonymous'' | Some u \<Rightarrow> User_Email u) StatusOK)"

definition signed_in_request :: request where
  "signed_in_request = sample_request\<lparr>req_cookies := [(''centrauth_session'', ''tok''), (''centrauth_operator'', ''tok'')]\<rparr>"

lemma current_sample:
  "current_user sample_app signed_in_world signed_in_request = Some sample_user"
  "current_operator sample_app signed_in_world signed_in_request = Some sample_operator"
  by (simp_all add: current_user_def current_operator_def current_of_def Manager_GetCookie_def OperatorManager_GetCookie_def
      Request_Cookie_def signed_in_request_def sample_request_def sample_app_def live_session_def live_operator_session_def
      live_def user_of_def operator_of_def rows_def signed_in_defs)

theorem session_context_authentic_witness:
  "fst (run_state (Session sample_app greeting signed_in_request) signed_in_world) = Error ''a@b.c'' StatusOK"
proof -
  from session_context_authentic [of sample_app greeting signed_in_request signed_in_world]
  obtain p a b where "run_state (Session sample_app greeting signed_in_request) signed_in_world = run_state (greeting
      (case p of None \<Rightarrow> signed_in_request | Some u \<Rightarrow> signed_in_request\<lparr>req_user := Some u\<rparr>)) (counted a b signed_in_world)"
    and "p = current_user sample_app signed_in_world signed_in_request"
    by auto
  then show ?thesis by (simp add: current_sample greeting_def) (simp add: sample_user_def)
qed

text \<open>
  C27.  The operators' pages are guarded.  A page behind \<open>RequireOperator\<close> runs only for a request whose
  cookie names an operator's session that is stored, not revoked and not expired, and then with that
  operator in its context; every other request is sent to the login page and changes no row.
\<close>

theorem operator_pages_guarded:
  assumes "req_operator r = None" and "run_state (OperatorSession A (RequireOperator serve) r) w = (resp, w')"
  shows "(\<exists>p s token a b. Request_Cookie r (CookieName (app_operatorSessions A)) = Some token
            \<and> s \<in> set (rows OperatorSessions w) \<and> OpSession_TokenHash s = Sum256 token \<and> OpSession_RevokedAt s = None
            \<and> clock (app_env A) (ticks w) \<le> OpSession_ExpiresAt s
            \<and> p \<in> set (rows (Operators (app_env A)) w) \<and> Operator_ID p = OpSession_OperatorID s
            \<and> run_state (serve (r\<lparr>req_operator := Some p\<rparr>)) (counted a b w) = (resp, w'))
    \<or> resp = Redirect ''/admin/login'' StatusSeeOther \<and> (\<exists>a b. w' = counted a b w)"
proof -
  from OperatorSession_guarded [OF assms] show ?thesis
  proof (elim disjE exE conjE)
    fix p a b
    assume "current_operator A w r = Some p" and "run_state (serve (r\<lparr>req_operator := Some p\<rparr>)) (counted a b w) = (resp, w')"
    then show ?thesis by (elim current_operatorD) blast
  qed blast
qed

theorem operator_pages_guarded_witness:
  "fst (run_state (OperatorSession sample_app (RequireOperator greeting) sample_request) signed_in_world)
     = Redirect ''/admin/login'' StatusSeeOther"
proof -
  obtain resp w' where run: "run_state (OperatorSession sample_app (RequireOperator greeting) sample_request) signed_in_world = (resp, w')"
    by fastforce
  have "req_operator sample_request = None" and none: "Request_Cookie sample_request (CookieName (app_operatorSessions sample_app)) = None"
    by (simp_all add: sample_request_def Request_Cookie_def)
  from operator_pages_guarded [OF this(1) run] none run show ?thesis by auto
qed


definition forged_request :: request where
  "forged_request = sample_request\<lparr>req_method := ''POST'', req_path := ''/admin/apps'',
     req_headers := [(''Origin'', ''https'' @ ''://'' @ ''evil.example'')]\<rparr>"


text \<open>
  The recorder around the response writer.  Whatever sequence of calls a handler makes (with status
  codes other than 0, which net/http refuses), the writer behind the recorder sees nothing when there was
  no call, and otherwise exactly one status, before any body and equal to the first one the handler gave
  (200 when it wrote first); that status is the one in the log.
\<close>

theorem recorder_one_status:
  assumes "CallWriteHeader 0 \<notin> set calls"
  shows "(calls = [] \<longrightarrow> wrapped_calls (recorded calls) = [] \<and> logged_status (recorded calls) = StatusOK)
    \<and> (calls \<noteq> [] \<longrightarrow> logged_status (recorded calls) = first_status (hd calls)
        \<and> (\<exists>bodies. wrapped_calls (recorded calls) = CallWriteHeader (first_status (hd calls)) # map CallWrite bodies))"
proof (cases calls)
  case Nil
  then show ?thesis by (simp add: recorded_def logged_status_def)
next
  case (Cons call rest)
  with recorded_Cons [of call rest] assms show ?thesis
    by (auto simp: logged_status_def recorder_ok_def)
qed

theorem recorder_one_status_witness:
  "logged_status (recorded [CallWrite ''a'', CallWriteHeader 404, CallWrite ''b'']) = StatusOK"
  using recorder_one_status [of "[CallWrite ''a'', CallWriteHeader 404, CallWrite ''b'']"] by (simp add: first_status_def)

end
