(* ===== verification/Password.thy ===== *)
theory Password
  imports Session_Managers Repositories Go_Numbers "HOL-Library.Word"
begin

text \<open>
  Operators' passwords (internal/service/password.go) and the login service that checks them
  (internal/service/operator\_login.go).
\<close>

section \<open>Hashes of passwords\<close>

record PasswordHashParams =
  Memory :: "32 word"
  Iterations :: "32 word"
  Parallelism :: "8 word"
  KeyLength :: "32 word"
  SaltLength :: "32 word"

definition DefaultPasswordHashParams :: PasswordHashParams where
  "DefaultPasswordHashParams =
     \<lparr>Memory = 64 * 1024, Iterations = 3, Parallelism = 2, KeyLength = 32, SaltLength = 16\<rparr>"

definition argon2_Version :: nat where
  "argon2_Version = 19"

definition ErrInvalidHash :: goerr where
  "ErrInvalidHash = ErrText ''the encoded hash is not in the correct format''"

definition ErrIncompatibleVersion :: goerr where
  "ErrIncompatibleVersion = ErrText ''incompatible version of argon2''"

text \<open>The call of \<open>argon2.IDKey\<close>, with a panic as an error.\<close>

definition derive_key :: "env \<Rightarrow> string \<Rightarrow> string \<Rightarrow> PasswordHashParams \<Rightarrow> goerr + string" where
  "derive_key E password salt params =
     (case argon2_IDKey E password salt (unat (Iterations params)) (unat (Memory params)) (unat (Parallelism params))
             (unat (KeyLength params)) of
        None \<Rightarrow> Inl (ErrPanic ''argon2'')
      | Some key \<Rightarrow> Inr key)"

definition encoded_hash :: "PasswordHashParams \<Rightarrow> string \<Rightarrow> string \<Rightarrow> string" where
  "encoded_hash params salt hash =
     ''$argon2id$v='' @ decimal argon2_Version @ ''$m='' @ decimal (unat (Memory params))
     @ '',t='' @ decimal (unat (Iterations params)) @ '',p='' @ decimal (unat (Parallelism params))
     @ ''$'' @ RawStdEncode salt @ ''$'' @ RawStdEncode hash"

definition HashPassword :: "env \<Rightarrow> string \<Rightarrow> PasswordHashParams \<Rightarrow> (world, goerr + string) state" where
  "HashPassword E password params = do {
     salt \<leftarrow> RandRead E (unat (SaltLength params));
     ret (case salt of
            Inl e \<Rightarrow> Inl e
          | Inr salt \<Rightarrow>
              (case derive_key E password salt params of
                 Inl e \<Rightarrow> Inl e
               | Inr hash \<Rightarrow> Inr (encoded_hash params salt hash)))
   }"

text \<open>The errors of \<open>Sscanf\<close> and of the base64 decoder are only logged; their texts are left out.\<close>

definition VerifyPassword :: "env \<Rightarrow> string \<Rightarrow> string \<Rightarrow> goerr + bool" where
  "VerifyPassword E password hash =
     (let parts = Split hash (CHR ''$'') in
      if length parts \<noteq> 6 then Inl ErrInvalidHash
      else if parts ! 1 \<noteq> ''argon2id'' then Inl (ErrText ''invalid algorithm variant'')
      else case Sscanf [Literal ''v='', Verb_int 64] (parts ! 2) of
        None \<Rightarrow> Inl (ErrText ''version'')
      | Some vs \<Rightarrow>
          if vs ! 0 \<noteq> int argon2_Version then Inl ErrIncompatibleVersion
          else case Sscanf [Literal ''m='', Verb_uint 32, Literal '',t='', Verb_uint 32, Literal '',p='', Verb_uint 8] (parts ! 3) of
            None \<Rightarrow> Inl (ErrText ''parameters'')
          | Some ns \<Rightarrow>
              (case RawStdDecode (parts ! 4) of
                 None \<Rightarrow> Inl (ErrText ''salt'')
               | Some salt \<Rightarrow>
                   (case RawStdDecode (parts ! 5) of
                      None \<Rightarrow> Inl (ErrText ''hash'')
                    | Some existingHash \<Rightarrow>
                        let params = \<lparr>Memory = word_of_int (ns ! 0), Iterations = word_of_int (ns ! 1),
                              Parallelism = word_of_int (ns ! 2), KeyLength = word_of_nat (length existingHash),
                              SaltLength = 0\<rparr>
                        in case derive_key E password salt params of
                             Inl e \<Rightarrow> Inl e
                           | Inr comparisonHash \<Rightarrow> Inr (existingHash = comparisonHash))))"

section \<open>The login service\<close>

text \<open>
  \<open>verifyDummy\<close> hashes the first password it is given, once, so that an unknown address takes the time of
  a verification; the result of the verification is dropped, and only a panic is left of it.
\<close>

definition panic_of :: "goerr + 'a \<Rightarrow> goerr option" where
  "panic_of r = (case r of Inl (ErrPanic m) \<Rightarrow> Some (ErrPanic m) | _ \<Rightarrow> None)"

definition verifyDummy :: "env \<Rightarrow> string \<Rightarrow> (world, goerr option) state" where
  "verifyDummy E password = do {
     w \<leftarrow> State_Monad.get;
     hash \<leftarrow> (case login_dummy w of
                Some dummyHash \<Rightarrow> ret (Inr dummyHash)
              | None \<Rightarrow> HashPassword E password DefaultPasswordHashParams);
     State_Monad.update (login_dummy_update (\<lambda>_. Some (case hash of Inl e \<Rightarrow> [] | Inr h \<Rightarrow> h)));
     ret (case hash of
            Inl e \<Rightarrow> panic_of hash
          | Inr dummyHash \<Rightarrow>
              if dummyHash = [] then None else panic_of (VerifyPassword E password dummyHash))
   }"

definition VerifyOperatorWithEmailAndPassword :: "env \<Rightarrow> string \<Rightarrow> string \<Rightarrow> (world, goerr + operator) state" where
  "VerifyOperatorWithEmailAndPassword E email password = do {
     found \<leftarrow> gormOperatorRepo_GetByEmail E email;
     case found of
       Inl e \<Rightarrow>
         if errors_Is e ErrNotFound then do {
           panic \<leftarrow> verifyDummy E password;
           ret (Inl (case panic of None \<Rightarrow> ErrInvalidCredentials | Some p \<Rightarrow> p))
         }
         else ret (Inl e)
     | Inr operator \<Rightarrow>
         ret (case VerifyPassword E password (Operator_PasswordHash operator) of
                Inl e \<Rightarrow> Inl e
              | Inr ok \<Rightarrow> if ok then Inr operator else Inl ErrInvalidCredentials)
   }"

section \<open>What has been hashed is verified\<close>

lemma Split_none: "d \<notin> set p \<Longrightarrow> Split p d = [p]"
  by (induction p) auto

lemma Split_first: "d \<notin> set p \<Longrightarrow> Split (p @ d # s) d = p # Split s d"
  by (induction p) auto

lemma dollar_decimal: "CHR ''$'' \<notin> set (decimal n)"
  using decimal_digits [of n] by (auto simp: list_all_iff is_digit_def byte_in_def)

lemma dollar_digit: "b64_digit StdEncoding n \<noteq> CHR ''$''"
  using b64_digit_cases [of StdEncoding n] by (auto simp: StdEncoding_def)

lemma dollar_base64: "CHR ''$'' \<notin> set (RawStdEncode s)"
  by (induction StdEncoding s rule: b64_encode.induct) (use dollar_digit in \<open>auto simp: Let_def dest: sym\<close>)

lemma Split_encoded_hash:
  "Split (encoded_hash params salt hash) (CHR ''$'') =
     ['''', ''argon2id'', ''v='' @ decimal argon2_Version,
      ''m='' @ decimal (unat (Memory params)) @ '',t='' @ decimal (unat (Iterations params)) @ '',p=''
        @ decimal (unat (Parallelism params)), RawStdEncode salt, RawStdEncode hash]"
proof -
  let ?v = "''v='' @ decimal argon2_Version"
  let ?p = "''m='' @ decimal (unat (Memory params)) @ '',t='' @ decimal (unat (Iterations params)) @ '',p=''
        @ decimal (unat (Parallelism params))"
  have eq: "encoded_hash params salt hash =
      '''' @ CHR ''$'' # (''argon2id'' @ CHR ''$'' # (?v @ CHR ''$'' # (?p @ CHR ''$'' # (RawStdEncode salt @ CHR ''$'' # RawStdEncode hash))))"
    by (simp add: encoded_hash_def)
  have "CHR ''$'' \<notin> set ?v" "CHR ''$'' \<notin> set ?p" "CHR ''$'' \<notin> set ''argon2id''" "CHR ''$'' \<notin> set ([] :: string)"
    using dollar_decimal by auto
  then show ?thesis
    unfolding eq by (simp only: Split_first Split_none dollar_base64 not_False_eq_True)
qed

lemma scan_version: "Sscanf [Literal ''v='', Verb_int 64] (''v='' @ decimal argon2_Version) = Some [int argon2_Version]"
  using Sscanf_int [of argon2_Version 64 "[]" "[]"] by (simp add: Sscanf_literal argon2_Version_def del: Sscanf.simps(2,3) append.simps)

lemma scan_params:
  "Sscanf [Literal ''m='', Verb_uint 32, Literal '',t='', Verb_uint 32, Literal '',p='', Verb_uint 8]
     (''m='' @ decimal (unat (m :: 32 word)) @ '',t='' @ decimal (unat (t :: 32 word)) @ '',p='' @ decimal (unat (p :: 8 word)))
   = Some [int (unat m), int (unat t), int (unat p)]"
proof -
  have "unat m < 2 ^ 32" "unat t < 2 ^ 32" "unat p < 2 ^ 8"
    using unsigned_less [of m] unsigned_less [of t] unsigned_less [of p] by simp_all
  moreover from this have "unat m < 2 ^ 64" "unat t < 2 ^ 64" "unat p < 2 ^ 64"
    by simp_all
  moreover have "\<not> is_digit (CHR '','')"
    by (simp add: is_digit_def byte_in_def)
  ultimately show ?thesis
    using Sscanf_uint [of "unat p" 8 "[]" "[]"]
    by (simp add: Sscanf_literal Sscanf_uint hd_append del: Sscanf.simps(2,3,4) append.simps)
qed

lemma VerifyPassword_encoded:
  assumes "length hash = unat (KeyLength params)"
  shows "VerifyPassword E password (encoded_hash params salt hash) =
    (case derive_key E password salt params of Inl e \<Rightarrow> Inl e | Inr key \<Rightarrow> Inr (hash = key))"
proof -
  have "derive_key E password salt \<lparr>Memory = Memory params, Iterations = Iterations params, Parallelism = Parallelism params,
      KeyLength = word_of_nat (length hash), SaltLength = 0\<rparr> = derive_key E password salt params"
    by (simp add: derive_key_def assms)
  then show ?thesis
    by (simp add: VerifyPassword_def Split_encoded_hash scan_version scan_params b64_decode_encode Let_def
        del: Sscanf.simps append.simps)
qed

lemma HashPasswordE:
  assumes "run_state (HashPassword E password params) w = (Inr h, w')"
  obtains salt key where "entropy E (entropy_reads w) (unat (SaltLength params)) = Some salt"
    and "derive_key E password salt params = Inr key" and "h = encoded_hash params salt key"
    and "w' = w\<lparr>entropy_reads := Suc (entropy_reads w)\<rparr>"
  using assms that by (auto simp: HashPassword_def run_RandRead split: option.splits sum.splits)

lemma derive_key_length:
  assumes "argon2_derives E" and "0 < Iterations params" and "0 < Parallelism params" and "0 < KeyLength params"
  obtains key where "derive_key E password salt params = Inr key" and "length key = unat (KeyLength params)"
    and "argon2_IDKey E password salt (unat (Iterations params)) (unat (Memory params)) (unat (Parallelism params))
           (unat (KeyLength params)) = Some key"
proof -
  have "0 < unat (Iterations params)" "0 < unat (Parallelism params)" "0 < unat (KeyLength params)"
    using assms(2-4) by (simp_all add: unat_gt_0 word_gt_0)
  with assms(1) obtain key where "argon2_IDKey E password salt (unat (Iterations params)) (unat (Memory params))
      (unat (Parallelism params)) (unat (KeyLength params)) = Some key" and "length key = unat (KeyLength params)"
    unfolding argon2_derives_def by blast
  then show thesis using that by (simp add: derive_key_def)
qed

section \<open>Logging in\<close>

definition dummy_ok :: "env \<Rightarrow> world \<Rightarrow> bool" where
  "dummy_ok E w \<longleftrightarrow> (\<forall>h. login_dummy w = Some h \<longrightarrow> h = [] \<or> (\<forall>password. panic_of (VerifyPassword E password h) = None))"

lemma default_positive [simp]:
  "0 < Iterations DefaultPasswordHashParams" "0 < Parallelism DefaultPasswordHashParams" "0 < KeyLength DefaultPasswordHashParams"
  by (simp_all add: DefaultPasswordHashParams_def word_gt_0)

lemma VerifyPassword_hashed:
  assumes "argon2_derives E" and "run_state (HashPassword E password params) w = (Inr h, w')"
    and "0 < Iterations params" and "0 < Parallelism params" and "0 < KeyLength params"
  obtains salt key where "entropy E (entropy_reads w) (unat (SaltLength params)) = Some salt"
    and "derive_key E password salt params = Inr key"
    and "\<And>p. VerifyPassword E p h = Inr (Inr key = derive_key E p salt params)"
proof (rule HashPasswordE [OF assms(2)])
  fix salt key
  assume s: "entropy E (entropy_reads w) (unat (SaltLength params)) = Some salt"
    and k: "derive_key E password salt params = Inr key" and h: "h = encoded_hash params salt key"
  obtain key' where "derive_key E password salt params = Inr key'" and "length key' = unat (KeyLength params)"
    using derive_key_length [OF assms(1,3-5)] by metis
  with k have len: "length key = unat (KeyLength params)" by simp
  have "VerifyPassword E p h = Inr (Inr key = derive_key E p salt params)" for p
  proof -
    obtain kp where "derive_key E p salt params = Inr kp"
      using derive_key_length [OF assms(1,3-5)] by metis
    then show ?thesis by (simp add: h VerifyPassword_encoded [OF len])
  qed
  with s k show thesis using that by blast
qed

lemma HashPassword_no_panic:
  assumes "argon2_derives E" and "run_state (HashPassword E password DefaultPasswordHashParams) w = (r, w')"
  shows "panic_of r = None" and "w' = w\<lparr>entropy_reads := Suc (entropy_reads w)\<rparr>"
    and "r = Inr h \<Longrightarrow> panic_of (VerifyPassword E p h) = None"
proof -
  have "derive_key E password salt DefaultPasswordHashParams \<noteq> Inl e" for salt e
    using derive_key_length [OF assms(1) default_positive] by (metis sum.distinct(1))
  then show "panic_of r = None" and "w' = w\<lparr>entropy_reads := Suc (entropy_reads w)\<rparr>"
    using assms(2) by (auto simp: HashPassword_def run_RandRead panic_of_def split: option.splits sum.splits)
  assume "r = Inr h"
  with assms(2) have "run_state (HashPassword E password DefaultPasswordHashParams) w = (Inr h, w')" by simp
  from VerifyPassword_hashed [OF assms(1) this default_positive] show "panic_of (VerifyPassword E p h) = None"
    by (metis panic_of_def sum.simps(6))
qed

lemma verifyDummy_runs:
  assumes "argon2_derives E" and "dummy_ok E w" and "run_state (verifyDummy E password) w = (r, w')"
  shows "r = None" and "dummy_ok E w'" and "\<exists>k d. w' = w\<lparr>entropy_reads := k, login_dummy := d\<rparr>"
proof -
  have "r = None \<and> dummy_ok E w' \<and> (\<exists>k d. w' = w\<lparr>entropy_reads := k, login_dummy := d\<rparr>)"
  proof (cases "login_dummy w")
    case (Some h)
    then have "w' = w\<lparr>entropy_reads := entropy_reads w, login_dummy := Some h\<rparr>"
      using assms(3) by (auto simp: verifyDummy_def State_Monad.update_def State_Monad.get_def State_Monad.set_def)
    moreover from this have "r = None" and "dummy_ok E w'"
      using Some assms(2,3) by (auto simp: verifyDummy_def State_Monad.update_def State_Monad.get_def State_Monad.set_def
          dummy_ok_def)
    ultimately show ?thesis by blast
  next
    case None
    obtain res v where h: "run_state (HashPassword E password DefaultPasswordHashParams) w = (res, v)"
      by fastforce
    note calm = HashPassword_no_panic [OF assms(1) h]
    have "w' = v\<lparr>login_dummy := Some (case res of Inl e \<Rightarrow> [] | Inr h \<Rightarrow> h)\<rparr>" and "r = None"
      using None assms(3) h calm by (auto simp: verifyDummy_def State_Monad.update_def State_Monad.get_def
          State_Monad.set_def split: sum.splits)
    moreover have "dummy_ok E (v\<lparr>login_dummy := Some (case res of Inl e \<Rightarrow> [] | Inr h \<Rightarrow> h)\<rparr>)"
      using calm(3) by (auto simp: dummy_ok_def split: sum.splits)
    ultimately show ?thesis using calm(2) by auto
  qed
  then show "r = None" and "dummy_ok E w'" and "\<exists>k d. w' = w\<lparr>entropy_reads := k, login_dummy := d\<rparr>" by simp_all
qed

lemma sound_dummy [schema_intros]: "sound E State_Monad.get" "sound E (State_Monad.update (login_dummy_update f))"
  by (rule soundI, rule world_ok_same; simp add: State_Monad.get_def State_Monad.update_def State_Monad.set_def)+

lemma sound_HashPassword [schema_intros]: "sound E (HashPassword E' password params)"
  unfolding HashPassword_def by (intro schema_intros)

lemma sound_verifyDummy [schema_intros]: "sound E (verifyDummy E' password)"
  unfolding verifyDummy_def by (intro schema_intros)

lemma sound_VerifyOperator [schema_intros]: "sound E (VerifyOperatorWithEmailAndPassword E' email password)"
  unfolding VerifyOperatorWithEmailAndPassword_def by (intro schema_intros)

text \<open>The answer of a login on a database that works.\<close>

lemma run_login:
  assumes "argon2_derives E" and "dummy_ok E w" and "db_fault E (db_calls w) = NoFault"
    and "run_state (VerifyOperatorWithEmailAndPassword E email password) w = (r, w')"
  shows "r = (case find (\<lambda>p. citext E (Operator_Email p) = citext E email) (rows (Operators E) w) of
               None \<Rightarrow> Inl ErrInvalidCredentials
             | Some p \<Rightarrow>
                 (case VerifyPassword E password (Operator_PasswordHash p) of
                    Inl e \<Rightarrow> Inl e
                  | Inr ok \<Rightarrow> if ok then Inr p else Inl ErrInvalidCredentials))"
proof -
  have ok1: "dummy_ok E (counted 0 1 w)"
    using assms(2) by (simp add: dummy_ok_def counted_def)
  show ?thesis
  proof (cases "find (\<lambda>p. citext E (Operator_Email p) = citext E email) (rows (Operators E) w)")
    case None
    obtain r' v where d: "run_state (verifyDummy E password) (counted 0 1 w) = (r', v)"
      by fastforce
    from verifyDummy_runs [OF assms(1) ok1 d] have "r' = None" by simp
    with None d show ?thesis
      using assms(3,4) by (simp add: VerifyOperatorWithEmailAndPassword_def run_simps lookup_def)
  next
    case (Some p)
    then show ?thesis
      using assms(3,4) by (auto simp: VerifyOperatorWithEmailAndPassword_def run_simps lookup_def)
  qed
qed


text \<open>A login changes no row.\<close>

definition at_rest :: "world \<Rightarrow> world \<Rightarrow> bool" where
  "at_rest v w \<longleftrightarrow> users w = users v \<and> sessions w = sessions v \<and> operators w = operators v
     \<and> operator_sessions w = operator_sessions v \<and> applications w = applications v
     \<and> identity_providers w = identity_providers v \<and> user_identities w = user_identities v
     \<and> oauth_clients w = oauth_clients v \<and> codes w = codes v"

lemma at_rest_refl [simp]: "at_rest v v"
  by (simp add: at_rest_def)

lemma at_rest_trans: "at_rest u v \<Longrightarrow> at_rest v w \<Longrightarrow> at_rest u w"
  by (simp add: at_rest_def)

lemma at_rest_steps [simp]:
  "at_rest v (counted a b w) = at_rest v w" "at_rest v (w\<lparr>entropy_reads := k\<rparr>) = at_rest v w"
  "at_rest v (w\<lparr>login_dummy := d\<rparr>) = at_rest v w" "at_rest v (w\<lparr>ticks := a\<rparr>) = at_rest v w"
  "at_rest v (w\<lparr>net_calls := a\<rparr>) = at_rest v w" "at_rest v (login_dummy_update f w) = at_rest v w"
  by (simp_all add: at_rest_def)

lemma keeps_dummy: "keeps (at_rest v) State_Monad.get" "keeps (at_rest v) (State_Monad.update (login_dummy_update f))"
  "keeps (at_rest v) (RandRead E n)"
  by (rule keepsI, auto simp: State_Monad.get_def State_Monad.update_def State_Monad.set_def run_RandRead)+

lemma keeps_login: "keeps (at_rest v) (VerifyOperatorWithEmailAndPassword E email password)"
proof -
  have "keeps (at_rest v) (gormOperatorRepo_GetByEmail E email)"
    by (rule keepsI) (auto simp: run_simps)
  then show ?thesis
    unfolding VerifyOperatorWithEmailAndPassword_def verifyDummy_def HashPassword_def
    by (intro keeps_bind keeps_sum keeps_if keeps_option keeps_ret keeps_dummy)
qed

section \<open>Properties\<close>

text \<open>
  Passwords.  The encoded hash of a password is parsed back into the same parameters, salt and key:
  the password itself is verified, and another one exactly when Argon2id derives the same key from it
  with that salt and those parameters.
\<close>

theorem password_roundtrip:
  assumes "argon2_derives E" and "run_state (HashPassword E password params) w = (Inr h, w')"
    and "0 < Iterations params" and "0 < Parallelism params" and "0 < KeyLength params"
  shows "VerifyPassword E password h = Inr True
    \<and> (\<exists>salt. entropy E (entropy_reads w) (unat (SaltLength params)) = Some salt
        \<and> (\<forall>p. VerifyPassword E p h = Inr (derive_key E password salt params = derive_key E p salt params)))"
proof (rule VerifyPassword_hashed [OF assms])
  fix salt key
  assume "entropy E (entropy_reads w) (unat (SaltLength params)) = Some salt" and "derive_key E password salt params = Inr key"
    and "\<And>p. VerifyPassword E p h = Inr (Inr key = derive_key E p salt params)"
  then show ?thesis by simp
qed

lemma sample_hash:
  obtains h where "run_state (HashPassword calm_env ''correct horse'' DefaultPasswordHashParams) empty_world
    = (Inr h, empty_world\<lparr>entropy_reads := Suc 0\<rparr>)"
proof -
  let ?salt = "replicate (unat (SaltLength DefaultPasswordHashParams)) (char_of (0::nat)) :: string"
  obtain key where "derive_key calm_env ''correct horse'' ?salt DefaultPasswordHashParams = Inr key"
    using derive_key_length [OF argon2_derives_calm default_positive] by metis
  then show thesis
    by (intro that) (simp add: HashPassword_def run_RandRead empty_world_def)
qed

theorem password_roundtrip_witness:
  "\<exists>h. VerifyPassword calm_env ''correct horse'' h = Inr True \<and> VerifyPassword calm_env ''wrong'' h = Inr False"
proof (rule sample_hash)
  fix h
  assume "run_state (HashPassword calm_env ''correct horse'' DefaultPasswordHashParams) empty_world
    = (Inr h, empty_world\<lparr>entropy_reads := Suc 0\<rparr>)"
  from password_roundtrip [OF argon2_derives_calm this default_positive]
  have ok: "VerifyPassword calm_env ''correct horse'' h = Inr True" and "VerifyPassword calm_env ''wrong'' h
      = Inr (derive_key calm_env ''correct horse'' (replicate 16 (char_of (0::nat))) DefaultPasswordHashParams
           = derive_key calm_env ''wrong'' (replicate 16 (char_of (0::nat))) DefaultPasswordHashParams)"
    by (auto simp: empty_world_def DefaultPasswordHashParams_def)
  moreover have "derive_key calm_env ''correct horse'' (replicate 16 (char_of (0::nat))) DefaultPasswordHashParams
      \<noteq> derive_key calm_env ''wrong'' (replicate 16 (char_of (0::nat))) DefaultPasswordHashParams"
    by (simp add: derive_key_def calm_env_def DefaultPasswordHashParams_def)
  ultimately show ?thesis by auto
qed

text \<open>
  C29.  Operators' logins.  On a database that works, an operator whose password was hashed when the
  account was made logs in with that password, and with another one only if it derives the same key; a
  wrong password and an unknown address get the same error.
\<close>

theorem operator_login_password:
  assumes "argon2_derives E" and "dummy_ok E w" and "db_fault E (db_calls w) = NoFault"
    and "run_state (HashPassword E password DefaultPasswordHashParams) w0 = (Inr h, w0')"
    and "find (\<lambda>p. citext E (Operator_Email p) = citext E email) (rows (Operators E) w) = Some operator"
    and "Operator_PasswordHash operator = h"
    and "\<forall>p \<in> set (rows (Operators E) w). citext E (Operator_Email p) \<noteq> citext E unknown"
  shows "fst (run_state (VerifyOperatorWithEmailAndPassword E email password) w) = Inr operator
    \<and> (\<exists>salt. \<forall>attempt. fst (run_state (VerifyOperatorWithEmailAndPassword E email attempt) w)
          = (if derive_key E password salt DefaultPasswordHashParams = derive_key E attempt salt DefaultPasswordHashParams
             then Inr operator else Inl ErrInvalidCredentials))
    \<and> fst (run_state (VerifyOperatorWithEmailAndPassword E unknown attempt) w) = Inl ErrInvalidCredentials"
proof -
  have "find (\<lambda>p. citext E (Operator_Email p) = citext E unknown) (rows (Operators E) w) = None"
    using assms(7) by (auto simp: find_None_iff)
  moreover have login: "fst (run_state (VerifyOperatorWithEmailAndPassword E a b) w)
      = (case find (\<lambda>p. citext E (Operator_Email p) = citext E a) (rows (Operators E) w) of
               None \<Rightarrow> Inl ErrInvalidCredentials
             | Some p \<Rightarrow>
                 (case VerifyPassword E b (Operator_PasswordHash p) of
                    Inl e \<Rightarrow> Inl e
                  | Inr ok \<Rightarrow> if ok then Inr p else Inl ErrInvalidCredentials))" for a b
    by (rule run_login [OF assms(1-3) prod.collapse [symmetric]])
  moreover obtain salt key where "derive_key E password salt DefaultPasswordHashParams = Inr key"
    and "\<And>p. VerifyPassword E p h = Inr (Inr key = derive_key E p salt DefaultPasswordHashParams)"
    using VerifyPassword_hashed [OF assms(1,4) default_positive] by metis
  ultimately show ?thesis using assms(5,6) by (simp add: exI [of _ salt])
qed

theorem operator_login_password_witness:
  "\<exists>w. fst (run_state (VerifyOperatorWithEmailAndPassword calm_env ''op@b.c'' ''correct horse'') w) = Inr (hd (rows (Operators calm_env) w))
     \<and> fst (run_state (VerifyOperatorWithEmailAndPassword calm_env ''x@b.c'' ''correct horse'') w) = Inl ErrInvalidCredentials"
proof (rule sample_hash)
  fix h
  assume h: "run_state (HashPassword calm_env ''correct horse'' DefaultPasswordHashParams) empty_world
    = (Inr h, empty_world\<lparr>entropy_reads := Suc 0\<rparr>)"
  let ?w = "sample_world\<lparr>operators := \<lparr>tbl_rows = [sample_operator\<lparr>Operator_PasswordHash := h\<rparr>], tbl_next = 2\<rparr>\<rparr>"
  have rows: "rows (Operators calm_env) ?w = [sample_operator\<lparr>Operator_PasswordHash := h\<rparr>]"
    by (simp add: rows_def)
  have "dummy_ok calm_env ?w"
    by (simp add: dummy_ok_def sample_defs)
  from operator_login_password [OF argon2_derives_calm this _ h, of "''op@b.c''" "sample_operator\<lparr>Operator_PasswordHash := h\<rparr>"
      "''x@b.c''" "''correct horse''"] rows
  show ?thesis
    by (intro exI [of _ ?w]) (simp add: sample_operator_def)
qed

end
