(* ===== verification/Operator_Login.thy ===== *)
theory Operator_Login
  imports Middleware Password
begin

text \<open>
  The operators' login and logout pages (internal/admin/login.go) and the set-up of the first operator
  (internal/setup.go).
\<close>

section \<open>Login and logout\<close>

definition internal_error :: response where
  "internal_error = Error ''internal server error'' StatusInternalServerError"

definition renderOperatorLogin :: "string \<Rightarrow> response" where
  "renderOperatorLogin err =
     renderPage StatusOK ''operator_login.html'' [(''Title'', Txt ''Operator Sign In''), (''Error'', Txt err)]"

definition operatorLoginPageHandler :: handler where
  "operatorLoginPageHandler r =
     ret (case OperatorFromContext r of
            Some operator \<Rightarrow> Redirect ''/admin'' StatusSeeOther
          | None \<Rightarrow> renderOperatorLogin [])"

text \<open>A new session of the operator, and its cookie, before the redirect to the dashboard.\<close>

definition start_operator_session :: "app \<Rightarrow> int \<Rightarrow> (world, response) state" where
  "start_operator_session A operatorID = do {
     created \<leftarrow> OperatorManager_Create (app_env A) (app_operatorSessions A) operatorID;
     ret (case created of
            Inl e \<Rightarrow> internal_error
          | Inr token \<Rightarrow> with_cookies [OperatorManager_SetCookie (app_operatorSessions A) token] (Redirect ''/admin'' StatusSeeOther))
   }"

definition operatorLoginHandler :: "app \<Rightarrow> handler" where
  "operatorLoginHandler A r =
     (case OperatorFromContext r of
        Some operator \<Rightarrow> ret (Redirect ''/admin'' StatusSeeOther)
      | None \<Rightarrow> do {
          verified \<leftarrow> VerifyOperatorWithEmailAndPassword (app_env A) (FormValue r ''email'') (FormValue r ''password'');
          case verified of
            Inl e \<Rightarrow>
              ret (if panic_of verified \<noteq> None then aborted
                   else if errors_Is e ErrInvalidCredentials then renderOperatorLogin ''Invalid email or password''
                   else internal_error)
          | Inr operator \<Rightarrow> start_operator_session A (Operator_ID operator)
        })"

definition operatorLogoutHandler :: "app \<Rightarrow> handler" where
  "operatorLogoutHandler A r = do {
     _ \<leftarrow> (case OperatorManager_GetCookie (app_operatorSessions A) r of
            None \<Rightarrow> ret ()
          | Some token \<Rightarrow> do {
              validated \<leftarrow> OperatorManager_Validate (app_env A) token;
              case validated of
                Inl e \<Rightarrow> ret ()
              | Inr s \<Rightarrow> do { _ \<leftarrow> OperatorManager_Revoke (app_env A) (OpSession_ID s); ret () }
            });
     ret (with_cookies [OperatorManager_ClearCookie (app_operatorSessions A)] (Redirect ''/admin/login'' StatusSeeOther))
   }"

section \<open>Set-up of the first operator\<close>

definition renderSetup :: "string \<Rightarrow> response" where
  "renderSetup err = renderPage StatusOK ''setup.html'' [(''Title'', Txt ''Setup''), (''Error'', Txt err)]"

text \<open>\<open>setupAvailable\<close>: \<open>Some\<close> is the answer when it is not.\<close>

definition setupAvailable :: "app \<Rightarrow> (world, response option) state" where
  "setupAvailable A = do {
     count \<leftarrow> gormOperatorRepo_Count (app_env A);
     ret (case count of
            Inl e \<Rightarrow> Some internal_error
          | Inr n \<Rightarrow> if n \<ge> 1 then Some (Redirect ''/admin/login'' StatusTemporaryRedirect) else None)
   }"

definition setupPageHandler :: "app \<Rightarrow> handler" where
  "setupPageHandler A r = do {
     unavailable \<leftarrow> setupAvailable A;
     ret (case unavailable of Some resp \<Rightarrow> resp | None \<Rightarrow> renderSetup [])
   }"

definition setup_form_error :: "string \<Rightarrow> string \<Rightarrow> string \<Rightarrow> string option" where
  "setup_form_error email pwd conf =
     (if pwd \<noteq> conf then Some ''Passwords must match''
      else if email = [] \<or> \<not> Contains email ''@'' then Some ''A valid email is required''
      else if length pwd < 8 then Some ''Password must be at least 8 characters''
      else None)"

definition setup_create :: "app \<Rightarrow> string \<Rightarrow> string \<Rightarrow> (world, response) state" where
  "setup_create A email pwd = do {
     hashed \<leftarrow> HashPassword (app_env A) pwd DefaultPasswordHashParams;
     case hashed of
       Inl e \<Rightarrow> ret (if panic_of hashed \<noteq> None then aborted else internal_error)
     | Inr pwdHash \<Rightarrow> do {
         t1 \<leftarrow> Now (app_env A);
         t2 \<leftarrow> Now (app_env A);
         created \<leftarrow> gormOperatorRepo_CreateFirstOperator (app_env A)
           \<lparr>Operator_ID = 0, Operator_Email = email, Operator_PasswordHash = pwdHash,
            Operator_CreatedAt = t1, Operator_UpdatedAt = t2\<rparr>;
         case created of
           Inl e \<Rightarrow>
             ret (if errors_Is e ErrSeatTaken then Redirect ''/admin/login'' StatusTemporaryRedirect else internal_error)
         | Inr operator \<Rightarrow> start_operator_session A (Operator_ID operator)
       }
   }"

definition setupHandler :: "app \<Rightarrow> handler" where
  "setupHandler A r = do {
     unavailable \<leftarrow> setupAvailable A;
     case unavailable of
       Some resp \<Rightarrow> ret resp
     | None \<Rightarrow>
         let email = TrimSpace (FormValue r ''email'');
             pwd = FormValue r ''password''
         in case setup_form_error email pwd (FormValue r ''password_confirm'') of
              Some err \<Rightarrow> ret (renderSetup err)
            | None \<Rightarrow> setup_create A email pwd
   }"

section \<open>Health and the published documents\<close>

definition json_headers :: "(string \<times> string) list" where
  "json_headers = [(''Content-Type'', ''application/json'')]"

definition published_headers :: "(string \<times> string) list" where
  "published_headers = json_headers @ [(''Cache-Control'', ''public, max-age=3600'')]"

text \<open>\<open>Ping\<close> (internal/db/db.go) asks the database for a sign of life.\<close>

definition Ping :: "env \<Rightarrow> (world, goerr + unit) state" where
  "Ping E = sql E (\<lambda>w. (Inr (), w))"

definition healthHandler :: "app \<Rightarrow> handler" where
  "healthHandler A r = do {
     alive \<leftarrow> Ping (app_env A);
     ret (case alive of
            Inl e \<Rightarrow> \<lparr>resp_status = StatusServiceUnavailable, resp_location = None, resp_headers = json_headers,
                      resp_cookies = [], resp_body = JSON (json_object [(''status'', json_string ''unavailable'')])\<rparr>
          | Inr _ \<Rightarrow> \<lparr>resp_status = StatusOK, resp_location = None, resp_headers = json_headers,
                      resp_cookies = [], resp_body = JSON (json_object [(''status'', json_string ''ok'')])\<rparr>)
   }"

definition jwksHandler :: "app \<Rightarrow> handler" where
  "jwksHandler A r =
     ret \<lparr>resp_status = StatusOK, resp_location = None, resp_headers = published_headers, resp_cookies = [],
          resp_body = JSON (app_jwks A)\<rparr>"

definition discoveryHandler :: "app \<Rightarrow> handler" where
  "discoveryHandler A r =
     ret \<lparr>resp_status = StatusOK, resp_location = None, resp_headers = published_headers, resp_cookies = [],
          resp_body = DiscoveryJSON (app_discovery A)\<rparr>"

section \<open>The operations keep the schema\<close>

lemma sound_login_handlers [schema_intros]:
  "sound E (operatorLoginPageHandler r)" "sound E (start_operator_session A i)" "sound E (operatorLogoutHandler A r)"
  "sound E (setupAvailable A)" "sound E (setupPageHandler A r)" "sound E (jwksHandler A r)" "sound E (discoveryHandler A r)"
  unfolding operatorLoginPageHandler_def start_operator_session_def operatorLogoutHandler_def setupAvailable_def
    setupPageHandler_def jwksHandler_def discoveryHandler_def
  by (intro schema_intros)+

lemma sound_operatorLoginHandler [schema_intros]: "sound E (operatorLoginHandler A r)"
  unfolding operatorLoginHandler_def by (intro schema_intros)

lemma sound_setup_create [schema_intros]: "sound (app_env A) (setup_create A email pwd)"
  unfolding setup_create_def by (intro schema_intros)

lemma sound_setupHandler [schema_intros]: "sound (app_env A) (setupHandler A r)"
  unfolding setupHandler_def Let_def by (intro schema_intros)

lemma sound_healthHandler [schema_intros]: "sound E (healthHandler A r)"
proof -
  have "sound E (Ping (app_env A))" unfolding Ping_def by (rule sound_read) simp
  then show ?thesis unfolding healthHandler_def by (intro schema_intros)
qed

section \<open>The first operator\<close>

lemma rows_rollback: "rows (Operators E) (rollback w v) = rows (Operators E) w"
  by (simp add: rows_def)

lemma CreateFirstOperatorE:
  assumes "run_state (gormOperatorRepo_CreateFirstOperator E p) w = (res, w')"
  obtains (none) e where "res = Inl e" and "rows (Operators E) w' = rows (Operators E) w"
  | (made) q i t where "rows (Operators E) w = []" and "rows (Operators E) w' = [q]"
      and "q = sch_set_id (m_schema (Operators E)) i (m_created (Operators E) t p)"
      and "res = Inr q \<or> res = Inl (ErrDB ConnectionFailed)"
  using assms unfolding gormOperatorRepo_CreateFirstOperator_def
proof (cases rule: TransactionE)
  case not_begun
  then show thesis using none by simp
next
  case (failed e v)
  then show thesis using none by (simp add: rows_rollback)
next
  case (refused q v)
  then show thesis using none by (simp add: rows_rollback)
next
  case (committed q v)
  from committed(1) obtain c u where lock: "run_state (advisory_xact_lock E (sint (fnv64a setupSeatKey))) (counted 0 1 w) = (Inr c, u)"
    and cnt: "run_state (Count E (Operators E)) u = (Inr 0, counted 0 1 u)"
    and cr: "run_state (Create E (Operators E) p) (counted 0 1 u) = (Inr q, v)"
    and zero: "rows (Operators E) u = []"
    by (auto simp: advisory_xact_lock_def Count_def Operators.run_sql split: prod.splits sum.splits fault.splits if_splits)
  have u: "rows (Operators E) u = rows (Operators E) w"
    using lock by (auto simp: advisory_xact_lock_def Operators.run_sql split: fault.splits)
  from cr show thesis
  proof (cases rule: Operators.CreateE')
    case (stored q' i)
    then show thesis
      using committed(2,3) zero u made [of q' i "clock E (ticks (counted 0 1 u))"] by simp
  qed simp
qed

lemma Operators_columns [simp]:
  "Operator_Email (sch_set_id (m_schema (Operators E)) i (m_created (Operators E) t p)) = Operator_Email p"
  "Operator_PasswordHash (sch_set_id (m_schema (Operators E)) i (m_created (Operators E) t p)) = Operator_PasswordHash p"
  by (simp_all add: model_defs schema_defs)

lemma OperatorManager_Create_others: "operators (snd (run_state (OperatorManager_Create E c i) w)) = operators w"
proof -
  have "operators (snd (run_state (Create E OperatorSessions s) v)) = operators v" for s v
    using OperatorSessions.Create_touches [of v E s] by (auto simp: touches_def)
  then have cr: "operators (snd (run_state (gormOperatorSessionRepo_Create E s) v)) = operators v" for s v
    unfolding gormOperatorSessionRepo_Create_def .
  have "keeps (\<lambda>v. operators v = operators w) (OperatorManager_Create E c i)"
    unfolding OperatorManager_Create_def
    by (intro keeps_bind keeps_sum keeps_ret; simp add: keeps_def run_RandRead run_Now cr)
  then show ?thesis by (simp add: keeps_def)
qed

lemma start_operator_session_others: "operators (snd (run_state (start_operator_session A i) w)) = operators w"
  using OperatorManager_Create_others [of "app_env A" "app_operatorSessions A" i w]
  by (auto simp: start_operator_session_def split: prod.splits)

lemma start_operator_sessionD:
  assumes "run_state (start_operator_session A i) w = (resp, w')" and "resp_cookies resp \<noteq> []"
  obtains token where "run_state (OperatorManager_Create (app_env A) (app_operatorSessions A) i) w = (Inr token, w')"
    and "resp = with_cookies [OperatorManager_SetCookie (app_operatorSessions A) token] (Redirect ''/admin'' StatusSeeOther)"
proof -
  obtain c v where c: "run_state (OperatorManager_Create (app_env A) (app_operatorSessions A) i) w = (c, v)"
    by fastforce
  show thesis
  proof (cases c)
    case (Inl e)
    then show thesis using assms c by (auto simp: start_operator_session_def internal_error_def)
  next
    case (Inr token)
    then show thesis using assms(1) c by (intro that [of token]) (simp_all add: start_operator_session_def)
  qed
qed

lemma HashPassword_others: "operators (snd (run_state (HashPassword E password params) w)) = operators w"
  by (simp add: HashPassword_def run_RandRead)

definition setup_pwd_ok :: "request \<Rightarrow> bool" where
  "setup_pwd_ok r \<longleftrightarrow> setup_form_error (TrimSpace (FormValue r ''email'')) (FormValue r ''password'')
     (FormValue r ''password_confirm'') = None"

lemma setup_createE:
  assumes "argon2_derives (app_env A)" and "run_state (setup_create A email pwd) w = (resp, w')"
  obtains "rows (Operators (app_env A)) w' = rows (Operators (app_env A)) w"
  | q where "rows (Operators (app_env A)) w = []" and "rows (Operators (app_env A)) w' = [q]"
      and "Operator_Email q = email" and "VerifyPassword (app_env A) pwd (Operator_PasswordHash q) = Inr True"
proof -
  let ?E = "app_env A"
  obtain res v where h: "run_state (HashPassword ?E pwd DefaultPasswordHashParams) w = (res, v)"
    by fastforce
  have v: "rows (Operators ?E) v = rows (Operators ?E) w"
    using HashPassword_others [of ?E pwd DefaultPasswordHashParams w] h by (simp add: rows_def)
  show thesis
  proof (cases res)
    case (Inl e)
    then show thesis using assms(2) h v that(1) by (auto simp: setup_create_def split: if_splits)
  next
    case (Inr pwdHash)
    let ?p = "\<lparr>Operator_ID = 0, Operator_Email = email, Operator_PasswordHash = pwdHash,
      Operator_CreatedAt = clock ?E (ticks v), Operator_UpdatedAt = clock ?E (Suc (ticks v))\<rparr>"
    obtain c u where cr: "run_state (gormOperatorRepo_CreateFirstOperator ?E ?p) (v\<lparr>ticks := Suc (Suc (ticks v))\<rparr>) = (c, u)"
      by fastforce
    have "w' = u \<or> (\<exists>i. w' = snd (run_state (start_operator_session A i) u))"
      using assms(2) h Inr cr by (cases c) (auto simp: setup_create_def run_Now dest: run_state_eqD intro: exI)
    then have w': "rows (Operators ?E) w' = rows (Operators ?E) u"
      using start_operator_session_others by (auto simp: rows_def)
    have ticks: "rows (Operators ?E) (v\<lparr>ticks := Suc (Suc (ticks v))\<rparr>) = rows (Operators ?E) w"
      using v by (simp add: rows_def)
    from cr show thesis
    proof (cases rule: CreateFirstOperatorE)
      case (none e)
      then show thesis using that(1) w' ticks by simp
    next
      case (made q i t)
      from VerifyPassword_hashed [OF assms(1) h [unfolded Inr] default_positive]
      have "VerifyPassword ?E pwd pwdHash = Inr True" by metis
      with made that(2) w' ticks show thesis by simp
    qed
  qed
qed

lemma setupHandlerE:
  assumes "argon2_derives (app_env A)" and "run_state (setupHandler A r) w = (resp, w')"
  obtains "rows (Operators (app_env A)) w' = rows (Operators (app_env A)) w"
  | q where "rows (Operators (app_env A)) w = []" and "rows (Operators (app_env A)) w' = [q]"
      and "Operator_Email q = TrimSpace (FormValue r ''email'')" and "setup_pwd_ok r"
      and "VerifyPassword (app_env A) (FormValue r ''password'') (Operator_PasswordHash q) = Inr True"
proof -
  obtain av v where av: "run_state (setupAvailable A) w = (av, v)" by fastforce
  then have v: "rows (Operators (app_env A)) v = rows (Operators (app_env A)) w"
    by (auto simp: setupAvailable_def gormOperatorRepo_Count_def Count_def Operators.run_sql rows_def split: fault.splits)
  show thesis
  proof (cases "av = None \<and> setup_pwd_ok r")
    case True
    then have "run_state (setup_create A (TrimSpace (FormValue r ''email'')) (FormValue r ''password'')) v = (resp, w')"
      using assms(2) av by (simp add: setupHandler_def setup_pwd_ok_def Let_def)
    from setup_createE [OF assms(1) this] v True that show thesis by metis
  next
    case False
    then show thesis using assms(2) av v that(1)
      by (auto simp: setupHandler_def setup_pwd_ok_def Let_def split: option.splits)
  qed
qed

lemma login_sound:
  assumes "run_state (VerifyOperatorWithEmailAndPassword E email password) w = (res, w')" and "res = Inr p"
  shows "p \<in> set (rows (Operators E) w)" and "citext E (Operator_Email p) = citext E email"
    and "VerifyPassword E password (Operator_PasswordHash p) = Inr True"
proof -
  obtain l where l: "lookup E (Operators E) (\<lambda>p. citext E (Operator_Email p) = citext E email) w = l" by simp
  have "l = Inr p \<and> VerifyPassword E password (Operator_PasswordHash p) = Inr True"
  proof (cases l)
    case (Inl e)
    then show ?thesis using assms l
      by (auto simp: VerifyOperatorWithEmailAndPassword_def run_simps split: if_splits prod.splits)
  next
    case (Inr q)
    then show ?thesis using assms l
      by (auto simp: VerifyOperatorWithEmailAndPassword_def run_simps split: sum.splits if_splits)
  qed
  then show "p \<in> set (rows (Operators E) w)" and "citext E (Operator_Email p) = citext E email"
    and "VerifyPassword E password (Operator_PasswordHash p) = Inr True"
    using l lookup_InrD by fast+
qed

section \<open>Properties\<close>

text \<open>
  C30.  The set-up of the first operator.  Whatever fails on the way, a request to the set-up form leaves the
  operators as they were, or it found none and made exactly one: with the trimmed address of the form, which
  contains an @, and a hash that verifies the password of the form, which has at least eight bytes and equals
  its confirmation.
\<close>

theorem setup_first_operator:
  assumes "argon2_derives (app_env A)" and "run_state (setupHandler A r) w = (resp, w')"
  shows "rows (Operators (app_env A)) w' = rows (Operators (app_env A)) w
    \<or> rows (Operators (app_env A)) w = []
       \<and> (\<exists>q. rows (Operators (app_env A)) w' = [q]
            \<and> Operator_Email q = TrimSpace (FormValue r ''email'') \<and> Contains (Operator_Email q) ''@''
            \<and> 8 \<le> length (FormValue r ''password'') \<and> FormValue r ''password'' = FormValue r ''password_confirm''
            \<and> VerifyPassword (app_env A) (FormValue r ''password'') (Operator_PasswordHash q) = Inr True)"
  using assms
  by (cases rule: setupHandlerE) (auto simp: setup_pwd_ok_def setup_form_error_def split: if_splits)

definition setup_request :: request where
  "setup_request = sample_request\<lparr>req_method := ''POST'', req_path := ''/setup'',
     req_post_form := [(''email'', ''op@b.c''), (''password'', ''correct horse''), (''password_confirm'', ''correct horse'')]\<rparr>"

text \<open>The first operator is made from the form; afterwards the same form changes nothing.\<close>

lemma setup_form_ok: "setup_form_error ''op@b.c'' ''correct horse'' ''correct horse'' = None" "TrimSpace ''op@b.c'' = ''op@b.c''"
  by code_simp+

lemma setup_sample_form: "FormValue setup_request ''email'' = ''op@b.c''" "FormValue setup_request ''password'' = ''correct horse''"
  "FormValue setup_request ''password_confirm'' = ''correct horse''"
  by (simp_all add: FormValue_def ParseForm_def setup_request_def Get_def)

lemma first_operator_made:
  assumes "operators w = empty_table"
  shows "\<exists>q v. run_state (gormOperatorRepo_CreateFirstOperator calm_env p) w = (Inr q, v) \<and> tbl_rows (operators v) = [q]"
  using assms
  by (simp add: gormOperatorRepo_CreateFirstOperator_def Transaction_def advisory_xact_lock_def Count_def Create_def run_Now sql_def
      gorm_insert_def table_insert_def model_defs schema_defs empty_table_def rows_def Let_def)

lemma setup_creates: "rows (Operators calm_env) (snd (run_state (setupHandler sample_app setup_request) empty_world)) \<noteq> []"
proof -
  let ?salt = "replicate (unat (SaltLength DefaultPasswordHashParams)) (char_of (0::nat)) :: string"
  obtain key where "derive_key calm_env ''correct horse'' ?salt DefaultPasswordHashParams = Inr key"
    using derive_key_length [OF argon2_derives_calm default_positive] by metis
  then obtain h where h: "run_state (HashPassword calm_env ''correct horse'' DefaultPasswordHashParams) (counted 0 1 empty_world)
      = (Inr h, (counted 0 1 empty_world)\<lparr>entropy_reads := 1\<rparr>)"
    by (simp add: HashPassword_def run_RandRead empty_world_def counted_def)
  let ?w = "(counted 0 1 empty_world)\<lparr>entropy_reads := 1, ticks := Suc (Suc (ticks (counted 0 1 empty_world)))\<rparr>"
  let ?p = "\<lparr>Operator_ID = 0, Operator_Email = ''op@b.c'', Operator_PasswordHash = h,
      Operator_CreatedAt = clock calm_env (ticks empty_world), Operator_UpdatedAt = clock calm_env (Suc (ticks empty_world))\<rparr>"
  have "operators ?w = empty_table" by (simp add: empty_world_def)
  from first_operator_made [OF this] obtain q v
    where made: "run_state (gormOperatorRepo_CreateFirstOperator calm_env ?p) ?w = (Inr q, v)" and v: "tbl_rows (operators v) = [q]"
    by blast
  have none: "run_state (setupAvailable sample_app) empty_world = (None, counted 0 1 empty_world)"
    by (simp add: setupAvailable_def gormOperatorRepo_Count_def Count_def Operators.run_sql rows_def empty_world_def empty_table_def)
  have "run_state (setupHandler sample_app setup_request) empty_world = run_state (start_operator_session sample_app (Operator_ID q)) v"
    using made h none by (simp add: setupHandler_def setup_create_def run_Now setup_sample_form setup_form_ok Let_def)
  with v show ?thesis
    using start_operator_session_others [of sample_app "Operator_ID q" v] by (simp add: rows_def)
qed

theorem setup_first_operator_witness:
  "\<exists>q. rows (Operators calm_env) (snd (run_state (setupHandler sample_app setup_request) empty_world)) = [q]
     \<and> Operator_Email q = ''op@b.c'' \<and> VerifyPassword calm_env ''correct horse'' (Operator_PasswordHash q) = Inr True"
proof -
  have "argon2_derives (app_env sample_app)" by (simp add: argon2_derives_calm)
  moreover have "rows (Operators calm_env) empty_world = []"
    by (simp add: rows_def empty_world_def empty_table_def)
  ultimately show ?thesis
    using setup_first_operator [OF _ prod.collapse [symmetric], of sample_app setup_request empty_world] setup_creates
    by (auto simp: setup_sample_form setup_form_ok)
qed

text \<open>
  C31.  Logging in.  The login form sets a cookie only for a stored operator whose address it names and whose
  stored hash verifies the password of the form; then it is the cookie of a new session of that operator,
  stored under the token's digest, which lasts for the configured time from the moment of its making.
\<close>

theorem operator_login_session:
  assumes "run_state (operatorLoginHandler A r) w = (resp, w')"
  shows "resp_cookies resp = []
    \<or> (\<exists>p token s v. p \<in> set (rows (Operators (app_env A)) w)
         \<and> citext (app_env A) (Operator_Email p) = citext (app_env A) (FormValue r ''email'')
         \<and> VerifyPassword (app_env A) (FormValue r ''password'') (Operator_PasswordHash p) = Inr True
         \<and> resp = with_cookies [OperatorManager_SetCookie (app_operatorSessions A) token] (Redirect ''/admin'' StatusSeeOther)
         \<and> at_rest w v \<and> rows OperatorSessions w' = rows OperatorSessions w @ [s]
         \<and> OpSession_TokenHash s = Sum256 token \<and> OpSession_OperatorID s = Operator_ID p \<and> OpSession_RevokedAt s = None
         \<and> OpSession_ExpiresAt s = clock (app_env A) (ticks v) + TTL (app_operatorSessions A))"
proof (cases "req_operator r = None \<and> resp_cookies resp \<noteq> []")
  case False
  then show ?thesis using assms by (auto simp: operatorLoginHandler_def OperatorFromContext_def split: option.splits)
next
  case True
  let ?E = "app_env A" and ?email = "FormValue r ''email''" and ?pwd = "FormValue r ''password''"
  obtain res v where login: "run_state (VerifyOperatorWithEmailAndPassword ?E ?email ?pwd) w = (res, v)"
    by fastforce
  then have rest: "at_rest w v"
    by (rule keepsD [OF keeps_login]) simp
  show ?thesis
  proof (cases res)
    case (Inl e)
    then show ?thesis
      using True assms login by (auto simp: operatorLoginHandler_def OperatorFromContext_def renderOperatorLogin_def
          aborted_def internal_error_def split: if_splits)
  next
    case (Inr p)
    with login have p: "p \<in> set (rows (Operators ?E) w)" "citext ?E (Operator_Email p) = citext ?E ?email"
      "VerifyPassword ?E ?pwd (Operator_PasswordHash p) = Inr True"
      by (rule login_sound)+
    from True assms login Inr have "run_state (start_operator_session A (Operator_ID p)) v = (resp, w')"
      by (simp add: operatorLoginHandler_def OperatorFromContext_def)
    then obtain token where cr: "run_state (OperatorManager_Create ?E (app_operatorSessions A) (Operator_ID p)) v = (Inr token, w')"
      and resp: "resp = with_cookies [OperatorManager_SetCookie (app_operatorSessions A) token] (Redirect ''/admin'' StatusSeeOther)"
      using start_operator_sessionD True by metis
    from OperatorManager_sessions.create_fresh [OF cr] obtain s where
      "rows OperatorSessions w' = rows OperatorSessions v @ [s]" and s: "OpSession_TokenHash s = Sum256 token"
      "OpSession_OperatorID s = Operator_ID p" "OpSession_ExpiresAt s = clock ?E (ticks v) + TTL (app_operatorSessions A)"
      "OpSession_RevokedAt s = None" .
    moreover have "rows OperatorSessions v = rows OperatorSessions w"
      using rest by (simp add: at_rest_def rows_def)
    ultimately show ?thesis using p resp rest by (intro disjI2 exI conjI) auto
  qed
qed

lemma session_starts:
  assumes "tbl_rows (operator_sessions w) = []" and "has_row Operator_ID (operators w) i"
  shows "resp_cookies (fst (run_state (start_operator_session sample_app i) w)) \<noteq> []"
  using assms
  by (simp add: start_operator_session_def OperatorManager_Create_def run_RandRead run_Now gormOperatorSessionRepo_Create_def Create_def
      sql_def gorm_insert_def table_insert_def model_defs schema_defs Let_def)

text \<open>An operator logs in: the cookie is that of the one session there is afterwards.\<close>

theorem operator_login_session_witness:
  "\<exists>w p token s. rows (Operators calm_env) w = [p]
     \<and> fst (run_state (operatorLoginHandler sample_app setup_request) w)
        = with_cookies [OperatorManager_SetCookie (app_operatorSessions sample_app) token] (Redirect ''/admin'' StatusSeeOther)
     \<and> rows OperatorSessions (snd (run_state (operatorLoginHandler sample_app setup_request) w)) = [s]
     \<and> OpSession_TokenHash s = Sum256 token \<and> OpSession_OperatorID s = Operator_ID p"
proof (rule sample_hash)
  fix h
  assume h: "run_state (HashPassword calm_env ''correct horse'' DefaultPasswordHashParams) empty_world
    = (Inr h, empty_world\<lparr>entropy_reads := Suc 0\<rparr>)"
  let ?p = "sample_operator\<lparr>Operator_PasswordHash := h\<rparr>"
  let ?w = "empty_world\<lparr>operators := \<lparr>tbl_rows = [?p], tbl_next = 2\<rparr>\<rparr>"
  have rows: "rows (Operators calm_env) ?w = [?p]" "rows OperatorSessions ?w = []"
    by (simp_all add: rows_def empty_world_def empty_table_def)
  have dummy: "dummy_ok calm_env ?w" by (simp add: dummy_ok_def empty_world_def)
  obtain res v where login: "run_state (VerifyOperatorWithEmailAndPassword calm_env ''op@b.c'' ''correct horse'') ?w = (res, v)"
    by fastforce
  have "VerifyPassword calm_env ''correct horse'' h = Inr True"
    using password_roundtrip [OF argon2_derives_calm h default_positive] by simp
  with run_login [OF argon2_derives_calm dummy _ login] rows have res: "res = Inr ?p"
    by (simp add: sample_operator_def)
  have "at_rest ?w v" using keepsD [OF keeps_login login, of ?w] by simp
  then have "tbl_rows (operator_sessions v) = []" "has_row Operator_ID (operators v) (Operator_ID ?p)"
    by (simp_all add: at_rest_def has_row_def empty_world_def empty_table_def)
  moreover have anyone: "req_operator setup_request = None" by (simp add: setup_request_def sample_request_def)
  ultimately have "resp_cookies (fst (run_state (operatorLoginHandler sample_app setup_request) ?w)) \<noteq> []"
    using login res session_starts [of v "Operator_ID ?p"] by (simp add: operatorLoginHandler_def OperatorFromContext_def setup_sample_form)
  with operator_login_session [OF prod.collapse [symmetric], of sample_app setup_request ?w] rows show ?thesis
    by (intro exI [of _ ?w]) auto
qed

end
