(* ===== verification/Upstream_Flow.thy ===== *)
theory Upstream_Flow
  imports Authorize Upstream_Exchange Operator_Login
begin

text \<open>
  Signing in with an upstream provider (internal/upstream\_flow.go): the redirect to the provider, with the
  pending sign-in in an encrypted cookie, and the provider's answer.
\<close>

section \<open>The pending sign-in\<close>

definition upstreamStateCookie :: string where
  "upstreamStateCookie = ''centrauth_upstream''"

record upstreamState =
  Ups_Provider :: string
  Ups_State :: string
  Ups_ApplicationID :: int
  Ups_ReturnTo :: string
  Ups_Verifier :: string
  Ups_ExpiresAt :: int

definition upstreamState_members :: "upstreamState \<Rightarrow> (string \<times> string) list" where
  "upstreamState_members p =
     [(''provider'', json_string (Ups_Provider p)), (''state'', json_string (Ups_State p)),
      (''application_id'', Itoa (Ups_ApplicationID p)), (''return_to'', json_string (Ups_ReturnTo p))]
     @ omitempty ''verifier'' (Ups_Verifier p) @ [(''expires_at'', Itoa (Ups_ExpiresAt p))]"

definition upstreamState_fields :: "json \<Rightarrow> upstreamState option" where
  "upstreamState_fields v =
     Option.bind (members v) (\<lambda>ms.
     Option.bind (string_field ''provider'' ms) (\<lambda>provider.
     Option.bind (string_field ''state'' ms) (\<lambda>state.
     Option.bind (int64_field ''application_id'' ms) (\<lambda>applicationID.
     Option.bind (string_field ''return_to'' ms) (\<lambda>returnTo.
     Option.bind (string_field ''verifier'' ms) (\<lambda>verifier.
     map_option (\<lambda>expiresAt.
       \<lparr>Ups_Provider = provider, Ups_State = state, Ups_ApplicationID = applicationID, Ups_ReturnTo = returnTo,
        Ups_Verifier = verifier, Ups_ExpiresAt = expiresAt\<rparr>)
       (int64_field ''expires_at'' ms)))))))"

definition upstream_cookie :: "app \<Rightarrow> string \<Rightarrow> string \<Rightarrow> int \<Rightarrow> cookie" where
  "upstream_cookie A name value maxAge =
     \<lparr>cookie_Name = name, cookie_Value = value, cookie_Path = ''/'', cookie_HttpOnly = True,
      cookie_Secure = HasPrefix (Issuer (app_discovery A)) ''https://'', cookie_SameSite = SameSiteLaxMode,
      cookie_MaxAge = maxAge\<rparr>"

definition setUpstreamStateCookie :: "app \<Rightarrow> upstreamState \<Rightarrow> (world, goerr + cookie) state" where
  "setUpstreamStateCookie A payload = do {
     encrypted \<leftarrow> Box_Encrypt (app_env A) (app_secrets A) (json_object (upstreamState_members payload));
     ret (case encrypted of
            Inl e \<Rightarrow> Inl e
          | Inr encrypted \<Rightarrow> Inr (upstream_cookie A upstreamStateCookie (RawURLEncode encrypted) (seconds authorizeRequestTTL)))
   }"

definition readUpstreamStateCookie :: "app \<Rightarrow> request \<Rightarrow> upstreamState option" where
  "readUpstreamStateCookie A r =
     Option.bind (Request_Cookie r upstreamStateCookie) (\<lambda>value.
     Option.bind (RawURLDecode value) (\<lambda>encrypted.
       case Box_Decrypt (app_secrets A) encrypted of
         Inl e \<Rightarrow> None
       | Inr data \<Rightarrow>
           Option.bind (Option.bind (Unmarshal data) upstreamState_fields) (\<lambda>payload.
             if Ups_ReturnTo payload = [] \<or> \<not> HasPrefix (Ups_ReturnTo payload) ''/authorize?'' then None
             else Some payload)))"

definition clearUpstreamCookies :: "app \<Rightarrow> cookie list" where
  "clearUpstreamCookies A = map (\<lambda>name. upstream_cookie A name [] (-1)) [upstreamStateCookie, authorizePromptCookie]"

section \<open>The redirect to the provider\<close>

definition upstream_redirectURL :: "app \<Rightarrow> string \<Rightarrow> string" where
  "upstream_redirectURL A providerName =
     TrimRight (Issuer (app_discovery A)) (CHR ''/'') @ ''/auth/upstream/'' @ providerName @ ''/callback''"

text \<open>The application the pending authorization request is for.\<close>

definition upstream_application :: "app \<Rightarrow> string \<Rightarrow> (world, response + application) state" where
  "upstream_application A returnTo =
     (case Parse (app_env A) returnTo of
        None \<Rightarrow> ret (Inl (renderAuthorizeError StatusBadRequest ''invalid_request'' ''Invalid authorization request''))
      | Some parsed \<Rightarrow> do {
          client \<leftarrow> gormClientRepo_GetByClientID (app_env A) (Get (Query (URL_RawQuery parsed)) ''client_id'');
          case client of
            Inl e \<Rightarrow> ret (Inl (renderAuthorizeError StatusBadRequest ''invalid_client'' ''Unknown client_id''))
          | Inr client \<Rightarrow> do {
              app \<leftarrow> gormApplicationRepo_GetByID (app_env A) (Client_ApplicationID client);
              ret (case app of
                     Inl e \<Rightarrow> Inl (renderAuthorizeError StatusInternalServerError ''server_error'' ''Unable to load application'')
                   | Inr app \<Rightarrow> Inr app)
            }
        })"

text \<open>The enabled provider of the application, as a client of the provider.\<close>

definition upstream_provider :: "app \<Rightarrow> int \<Rightarrow> string \<Rightarrow> (world, response + upstream_config) state" where
  "upstream_provider A applicationID providerName = do {
     found \<leftarrow> ProviderService_Get (app_env A) (app_secrets A) applicationID providerName;
     ret (case found of
            Inl e \<Rightarrow>
              if errors_Is e ErrNotFound then
                Inl (renderAuthorizeError StatusBadRequest ''invalid_request'' ''This sign-in method is not configured for the app'')
              else Inl (renderAuthorizeError StatusInternalServerError ''server_error'' ''Unable to load sign-in method'')
          | Inr (record, secret) \<Rightarrow>
              if \<not> IdP_Enabled record then
                Inl (renderAuthorizeError StatusBadRequest ''invalid_request'' ''This sign-in method is disabled for the app'')
              else
                (case ConfigFor (app_env A) providerName (IdP_ClientID record) secret (upstream_redirectURL A providerName) of
                   Inl e \<Rightarrow> Inl (renderAuthorizeError StatusInternalServerError ''server_error'' ''Unable to start sign-in'')
                 | Inr config \<Rightarrow> Inr config))
   }"

definition upstream_start_failed :: response where
  "upstream_start_failed = renderAuthorizeError StatusInternalServerError ''server_error'' ''Unable to start sign-in''"

text \<open>The random state and, with PKCE, the verifier.\<close>

definition upstream_secrets :: "app \<Rightarrow> upstream_config \<Rightarrow> (world, goerr + string \<times> string) state" where
  "upstream_secrets A config = do {
     state \<leftarrow> GenerateAuthorizationCode (app_env A);
     case state of
       Inl e \<Rightarrow> ret (Inl e)
     | Inr state \<Rightarrow>
         if Conf_UsePKCE config then do {
           verifier \<leftarrow> GenerateAuthorizationCode (app_env A);
           ret (case verifier of Inl e \<Rightarrow> Inl e | Inr verifier \<Rightarrow> Inr (state, verifier))
         }
         else ret (Inr (state, []))
   }"

definition upstream_redirect ::
    "app \<Rightarrow> string \<Rightarrow> string \<Rightarrow> application \<Rightarrow> upstream_config \<Rightarrow> (world, response) state" where
  "upstream_redirect A providerName returnTo app config = do {
     generated \<leftarrow> upstream_secrets A config;
     case generated of
       Inl e \<Rightarrow> ret upstream_start_failed
     | Inr (state, verifier) \<Rightarrow> do {
         let challenge = (if Conf_UsePKCE config then PKCEChallenge verifier else []);
         now \<leftarrow> Now (app_env A);
         cookie \<leftarrow> setUpstreamStateCookie A
           \<lparr>Ups_Provider = providerName, Ups_State = state, Ups_ApplicationID = App_ID app, Ups_ReturnTo = returnTo,
            Ups_Verifier = verifier, Ups_ExpiresAt = Unix (now + authorizeRequestTTL)\<rparr>;
         ret (case cookie of
                Inl e \<Rightarrow> upstream_start_failed
              | Inr cookie \<Rightarrow> with_cookies [cookie] (Redirect (Client_AuthCodeURL config state challenge) StatusFound))
       }
   }"

definition upstreamStartHandler :: "app \<Rightarrow> handler" where
  "upstreamStartHandler A r =
     (let providerName = ToLower (app_env A) (PathValue r ''provider'') in
      if \<not> IsSupported providerName then
        ret (renderAuthorizeError StatusBadRequest ''invalid_request'' ''Unsupported identity provider'')
      else case readAuthorizeRequest A r of
        None \<Rightarrow> ret (renderAuthorizeError StatusBadRequest ''invalid_request''
                       ''The authorization request has expired. Start again from the application.'')
      | Some returnTo \<Rightarrow> do {
          app \<leftarrow> upstream_application A returnTo;
          case app of
            Inl resp \<Rightarrow> ret resp
          | Inr app \<Rightarrow> do {
              config \<leftarrow> upstream_provider A (App_ID app) providerName;
              case config of
                Inl resp \<Rightarrow> ret resp
              | Inr config \<Rightarrow> upstream_redirect A providerName returnTo app config
            }
        })"

section \<open>The provider's answer\<close>

definition upstream_state_invalid :: response where
  "upstream_state_invalid = renderAuthorizeError StatusBadRequest ''invalid_request''
     ''Sign-in state is invalid or expired. Start again from the application.''"

text \<open>The state cookie, when it belongs to this answer; the clock is read only if the rest agrees.\<close>

definition upstream_pending :: "app \<Rightarrow> request \<Rightarrow> string \<Rightarrow> string \<Rightarrow> (world, upstreamState option) state" where
  "upstream_pending A r providerName state =
     (case readUpstreamStateCookie A r of
        None \<Rightarrow> ret None
      | Some payload \<Rightarrow>
          if Ups_Provider payload \<noteq> providerName \<or> ConstantTimeCompare (Ups_State payload) state \<noteq> 1 then ret None
          else do {
            now \<leftarrow> Now (app_env A);
            ret (if Unix now > Ups_ExpiresAt payload then None else Some payload)
          })"

definition upstream_finish :: "app \<Rightarrow> string \<Rightarrow> identity \<Rightarrow> (world, response) state" where
  "upstream_finish A returnTo i = do {
     user \<leftarrow> ProviderService_ProvisionUser (app_env A) i;
     case user of
       Inl e \<Rightarrow> ret (renderAuthorizeError StatusInternalServerError ''server_error'' ''Unable to create or load the user'')
     | Inr user \<Rightarrow> do {
         token \<leftarrow> Manager_Create (app_env A) (app_sessions A) (User_ID user);
         ret (case token of
                Inl e \<Rightarrow> renderAuthorizeError StatusInternalServerError ''server_error'' ''Unable to create a session''
              | Inr token \<Rightarrow>
                  with_cookies (Manager_SetCookie (app_sessions A) token # clearUpstreamCookies A)
                    (Redirect returnTo StatusSeeOther))
       }
   }"

definition upstream_complete :: "app \<Rightarrow> string \<Rightarrow> string \<Rightarrow> upstreamState \<Rightarrow> (world, response) state" where
  "upstream_complete A providerName code payload = do {
     found \<leftarrow> ProviderService_Get (app_env A) (app_secrets A) (Ups_ApplicationID payload) providerName;
     case (case found of Inl e \<Rightarrow> None | Inr (record, secret) \<Rightarrow> if IdP_Enabled record then Some (record, secret) else None) of
       None \<Rightarrow> ret (renderAuthorizeError StatusBadRequest ''invalid_request'' ''This sign-in method is no longer available'')
     | Some (record, secret) \<Rightarrow>
         (case ConfigFor (app_env A) providerName (IdP_ClientID record) secret (upstream_redirectURL A providerName) of
            Inl e \<Rightarrow> ret (renderAuthorizeError StatusInternalServerError ''server_error'' ''Unable to complete sign-in'')
          | Inr config \<Rightarrow> do {
              exchanged \<leftarrow> Client_Exchange (app_env A) config code (Ups_Verifier payload);
              case exchanged of
                Inl e \<Rightarrow> ret (renderAuthorizeError StatusBadRequest ''access_denied'' ''The provider could not verify your identity'')
              | Inr i \<Rightarrow> upstream_finish A (Ups_ReturnTo payload) i
            })
   }"

definition upstreamCallbackHandler :: "app \<Rightarrow> handler" where
  "upstreamCallbackHandler A r =
     (let providerName = ToLower (app_env A) (PathValue r ''provider'');
          query = URL_Query r;
          code = Get query ''code'';
          state = Get query ''state''
      in if \<not> IsSupported providerName then
           ret (renderAuthorizeError StatusBadRequest ''invalid_request'' ''Unsupported identity provider'')
         else if Get query ''error'' \<noteq> [] then
           ret (renderAuthorizeError StatusBadRequest ''access_denied'' (Get query ''error_description''))
         else if code = [] \<or> state = [] then
           ret (renderAuthorizeError StatusBadRequest ''invalid_request'' ''Missing code or state from the provider'')
         else do {
           pending \<leftarrow> upstream_pending A r providerName state;
           case pending of
             None \<Rightarrow> ret upstream_state_invalid
           | Some payload \<Rightarrow> upstream_complete A providerName code payload
         })"

section \<open>The operations keep the schema\<close>

lemma sound_setUpstreamStateCookie [schema_intros]: "sound E (setUpstreamStateCookie A p)"
  unfolding setUpstreamStateCookie_def by (intro schema_intros)

lemma sound_upstreamStartHandler [schema_intros]: "sound (app_env A) (upstreamStartHandler A r)"
  unfolding upstreamStartHandler_def upstream_application_def upstream_provider_def upstream_redirect_def
    upstream_secrets_def ProviderService_Get_def GenerateAuthorizationCode_def Let_def
  by (intro schema_intros)

lemma sound_upstreamCallbackHandler [schema_intros]: "sound (app_env A) (upstreamCallbackHandler A r)"
  unfolding upstreamCallbackHandler_def upstream_pending_def upstream_complete_def upstream_finish_def Let_def
  by (intro schema_intros)

section \<open>The pending sign-in comes back\<close>

definition storable :: "upstreamState \<Rightarrow> bool" where
  "storable p \<longleftrightarrow> plain_ascii (Ups_Provider p) \<and> plain_ascii (Ups_State p) \<and> plain_ascii (Ups_ReturnTo p)
     \<and> plain_ascii (Ups_Verifier p) \<and> - (2 ^ 63) \<le> Ups_ApplicationID p \<and> Ups_ApplicationID p < 2 ^ 63
     \<and> - (2 ^ 63) \<le> Ups_ExpiresAt p \<and> Ups_ExpiresAt p < 2 ^ 63"

lemma keys_plain:
  "plain_ascii ''provider''" "plain_ascii ''state''" "plain_ascii ''application_id''" "plain_ascii ''return_to''"
  "plain_ascii ''verifier''" "plain_ascii ''expires_at''"
  by (simp_all add: plain_ascii_def less_char_def)

lemma keys_folded:
  "map fold_name [''provider'', ''state'', ''application_id'', ''return_to'', ''verifier'', ''expires_at'']
    = [''provider'', ''state'', ''application_id'', ''return_to'', ''verifier'', ''expires_at'']"
  by code_simp

lemma upstreamState_read:
  assumes "storable p"
  shows "Option.bind (Unmarshal (json_object (upstreamState_members p))) upstreamState_fields = Some p"
proof -
  let ?ms = "[(''provider'', JString (Ups_Provider p)), (''state'', JString (Ups_State p)),
      (''application_id'', JNumber (Itoa (Ups_ApplicationID p))), (''return_to'', JString (Ups_ReturnTo p))]
     @ (if Ups_Verifier p = [] then [] else [(''verifier'', JString (Ups_Verifier p))])
     @ [(''expires_at'', JNumber (Itoa (Ups_ExpiresAt p)))]"
  have "Unmarshal (json_object (upstreamState_members p)) = Some (JObject ?ms)"
    using assms by (intro Unmarshal_object)
      (auto simp: upstreamState_members_def omitempty_def storable_def keys_plain encodes_string encodes_Itoa)
  moreover have "upstreamState_fields (JObject ?ms) = Some p"
    using assms keys_folded
    by (simp add: upstreamState_fields_def members_def string_field_def int64_field_def decode_field_def field_values_def
        storable_def ParseInt_Itoa del: fold_name.simps)
  ultimately show ?thesis by simp
qed

section \<open>Properties\<close>


definition sample_pending :: upstreamState where
  "sample_pending = \<lparr>Ups_Provider = ''github'', Ups_State = ''s-1'', Ups_ApplicationID = 1,
     Ups_ReturnTo = ''/authorize?client_id=cid&state=<x>'', Ups_Verifier = [], Ups_ExpiresAt = 1790000600\<rparr>"


section \<open>Who is signed in\<close>

lemma renderAuthorizeError_cookies [simp]: "resp_cookies (renderAuthorizeError n c m) = []"
  by (simp add: renderAuthorizeError_def)

lemma readUpstreamStateCookie_target:
  "readUpstreamStateCookie A r = Some p \<Longrightarrow> HasPrefix (Ups_ReturnTo p) ''/authorize?''"
  by (auto simp: readUpstreamStateCookie_def split: Option.bind_split_asm sum.split_asm if_split_asm)

lemma upstream_pendingD:
  assumes "run_state (upstream_pending A r providerName state) w = (Some p, v)"
  shows "readUpstreamStateCookie A r = Some p" and "Ups_Provider p = providerName" and "Ups_State p = state"
    and "Unix (clock (app_env A) (ticks w)) \<le> Ups_ExpiresAt p" and "at_rest w v"
  using assms by (auto simp: upstream_pending_def run_Now ConstantTimeCompare_iff split: option.splits if_splits)

lemma upstream_finishD:
  assumes "run_state (upstream_finish A returnTo i) w = (resp, w')" and "resp_cookies resp \<noteq> []"
  obtains user token v where "run_state (ProviderService_ProvisionUser (app_env A) i) w = (Inr user, v)"
    and "run_state (Manager_Create (app_env A) (app_sessions A) (User_ID user)) v = (Inr token, w')"
    and "resp = with_cookies (Manager_SetCookie (app_sessions A) token # clearUpstreamCookies A) (Redirect returnTo StatusSeeOther)"
proof -
  obtain u v where u: "run_state (ProviderService_ProvisionUser (app_env A) i) w = (u, v)" by fastforce
  with assms obtain user where user: "u = Inr user"
    by (cases u) (auto simp: upstream_finish_def)
  obtain t x where t: "run_state (Manager_Create (app_env A) (app_sessions A) (User_ID user)) v = (t, x)" by fastforce
  with assms u user obtain token where "t = Inr token"
    by (cases t) (auto simp: upstream_finish_def)
  with assms(1) u user t that show thesis by (simp add: upstream_finish_def)
qed

lemma upstream_completeD:
  assumes "run_state (upstream_complete A providerName code p) w = (resp, w')" and "resp_cookies resp \<noteq> []"
  obtains idp secret config i v x where "run_state (ProviderService_Get (app_env A) (app_secrets A) (Ups_ApplicationID p) providerName) w
      = (Inr (idp, secret), v)" and "IdP_Enabled idp"
    and "ConfigFor (app_env A) providerName (IdP_ClientID idp) secret (upstream_redirectURL A providerName) = Inr config"
    and "run_state (Client_Exchange (app_env A) config code (Ups_Verifier p)) v = (Inr i, x)"
    and "run_state (upstream_finish A (Ups_ReturnTo p) i) x = (resp, w')"
proof -
  obtain f v where f: "run_state (ProviderService_Get (app_env A) (app_secrets A) (Ups_ApplicationID p) providerName) w = (f, v)"
    by fastforce
  with assms obtain idp secret where r: "f = Inr (idp, secret)" "IdP_Enabled idp"
    by (cases f) (auto simp: upstream_complete_def split: if_splits)
  obtain c where c: "ConfigFor (app_env A) providerName (IdP_ClientID idp) secret (upstream_redirectURL A providerName) = c"
    by simp
  with assms f r obtain config where config: "c = Inr config"
    by (cases c) (auto simp: upstream_complete_def)
  obtain e x where e: "run_state (Client_Exchange (app_env A) config code (Ups_Verifier p)) v = (e, x)" by fastforce
  with assms f r c config obtain i where "e = Inr i"
    by (cases e) (auto simp: upstream_complete_def)
  with assms(1) f r c config e that show thesis by (simp add: upstream_complete_def)
qed

text \<open>The steps of a callback that sets cookies.\<close>

lemma upstream_callbackE:
  assumes "run_state (upstreamCallbackHandler A r) w = (resp, w')" and "resp_cookies resp \<noteq> []"
  defines "E \<equiv> app_env A" and "name \<equiv> ToLower (app_env A) (PathValue r ''provider'')"
  obtains p v idp secret config i v0 v1 user token v2
  where "run_state (upstream_pending A r name (Get (URL_Query r) ''state'')) w = (Some p, v)"
    and "run_state (ProviderService_Get E (app_secrets A) (Ups_ApplicationID p) name) v = (Inr (idp, secret), v0)" and "IdP_Enabled idp"
    and "ConfigFor E name (IdP_ClientID idp) secret (upstream_redirectURL A name) = Inr config"
    and "run_state (Client_Exchange E config (Get (URL_Query r) ''code'') (Ups_Verifier p)) v0 = (Inr i, v1)"
    and "run_state (ProviderService_ProvisionUser E i) v1 = (Inr user, v2)"
    and "run_state (Manager_Create E (app_sessions A) (User_ID user)) v2 = (Inr token, w')"
    and "resp = with_cookies (Manager_SetCookie (app_sessions A) token # clearUpstreamCookies A) (Redirect (Ups_ReturnTo p) StatusSeeOther)"
proof -
  obtain pend v where v: "run_state (upstream_pending A r name (Get (URL_Query r) ''state'')) w = (pend, v)" by fastforce
  with assms obtain p where p: "pend = Some p"
    and completed: "run_state (upstream_complete A name (Get (URL_Query r) ''code'') p) v = (resp, w')"
    by (cases pend) (auto simp: upstreamCallbackHandler_def Let_def upstream_state_invalid_def split: if_splits)
  from upstream_completeD [OF completed assms(2)] obtain idp secret config i v0 v1 where
    got: "run_state (ProviderService_Get E (app_secrets A) (Ups_ApplicationID p) name) v = (Inr (idp, secret), v0)" "IdP_Enabled idp"
    and ex: "ConfigFor E name (IdP_ClientID idp) secret (upstream_redirectURL A name) = Inr config"
      "run_state (Client_Exchange E config (Get (URL_Query r) ''code'') (Ups_Verifier p)) v0 = (Inr i, v1)"
    and fin: "run_state (upstream_finish A (Ups_ReturnTo p) i) v1 = (resp, w')"
    unfolding E_def .
  from upstream_finishD [OF fin assms(2)] obtain user token v2 where
    "run_state (ProviderService_ProvisionUser E i) v1 = (Inr user, v2)"
    "run_state (Manager_Create E (app_sessions A) (User_ID user)) v2 = (Inr token, w')"
    "resp = with_cookies (Manager_SetCookie (app_sessions A) token # clearUpstreamCookies A) (Redirect (Ups_ReturnTo p) StatusSeeOther)"
    unfolding E_def .
  with v p got ex show thesis by (intro that) simp_all
qed

text \<open>
  C33.  Who an upstream provider's answer signs in.  The callback sets cookies only if the browser returned the
  cookie of a pending sign-in with the same provider, the state of the answer and an end that has not passed, and
  the application still has the provider enabled.  Then the code, sent with that sign-in's verifier, was exchanged for an
  identity, the session made is one of the user the identity signs in to, and the browser is sent back to the
  authorization request it came from, an URL of this server.
\<close>

theorem callback_signs_in:
  assumes "run_state (upstreamCallbackHandler A r) w = (resp, w')" and "resp_cookies resp \<noteq> []"
  shows "\<exists>p idp secret config i user token v0 v1 v2.
    readUpstreamStateCookie A r = Some p
    \<and> Ups_Provider p = ToLower (app_env A) (PathValue r ''provider'') \<and> Ups_State p = Get (URL_Query r) ''state''
    \<and> Unix (clock (app_env A) (ticks w)) \<le> Ups_ExpiresAt p
    \<and> idp \<in> set (rows IdentityProviders w) \<and> IdP_ApplicationID idp = Ups_ApplicationID p
    \<and> IdP_Provider idp = Ups_Provider p \<and> IdP_Enabled idp
    \<and> Box_Decrypt (app_secrets A) (IdP_ClientSecretEncrypted idp) = Inr secret
    \<and> ConfigFor (app_env A) (Ups_Provider p) (IdP_ClientID idp) secret (upstream_redirectURL A (Ups_Provider p)) = Inr config
    \<and> run_state (Client_Exchange (app_env A) config (Get (URL_Query r) ''code'') (Ups_Verifier p)) v0 = (Inr i, v1)
    \<and> run_state (ProviderService_ProvisionUser (app_env A) i) v1 = (Inr user, v2)
    \<and> run_state (Manager_Create (app_env A) (app_sessions A) (User_ID user)) v2 = (Inr token, w')
    \<and> hd (resp_cookies resp) = Manager_SetCookie (app_sessions A) token
    \<and> resp_location resp = Some (hexEscapeNonASCII (Ups_ReturnTo p)) \<and> HasPrefix (Ups_ReturnTo p) ''/authorize?''"
proof -
  let ?E = "app_env A" and ?name = "ToLower (app_env A) (PathValue r ''provider'')"
  from upstream_callbackE [OF assms] obtain p v idp secret config i v0 v1 user token v2 where
    v: "run_state (upstream_pending A r ?name (Get (URL_Query r) ''state'')) w = (Some p, v)"
    and got: "run_state (ProviderService_Get ?E (app_secrets A) (Ups_ApplicationID p) ?name) v = (Inr (idp, secret), v0)" "IdP_Enabled idp"
    and ex: "ConfigFor ?E ?name (IdP_ClientID idp) secret (upstream_redirectURL A ?name) = Inr config"
      "run_state (Client_Exchange ?E config (Get (URL_Query r) ''code'') (Ups_Verifier p)) v0 = (Inr i, v1)"
    and u: "run_state (ProviderService_ProvisionUser ?E i) v1 = (Inr user, v2)"
      "run_state (Manager_Create ?E (app_sessions A) (User_ID user)) v2 = (Inr token, w')"
    and resp: "resp = with_cookies (Manager_SetCookie (app_sessions A) token # clearUpstreamCookies A) (Redirect (Ups_ReturnTo p) StatusSeeOther)" .
  note pending = upstream_pendingD [OF v]
  have look: "lookup ?E IdentityProviders (\<lambda>q. IdP_ApplicationID q = Ups_ApplicationID p \<and> IdP_Provider q = ?name) v = Inr idp"
    and secret: "Box_Decrypt (app_secrets A) (IdP_ClientSecretEncrypted idp) = Inr secret"
    using got(1) by (auto simp: ProviderService_Get_def run_simps split: sum.splits)
  have "rows IdentityProviders v = rows IdentityProviders w"
    using pending(5) by (simp add: at_rest_def rows_def IdentityProviders_def)
  with lookup_InrD [OF look] have row: "idp \<in> set (rows IdentityProviders w)" "IdP_ApplicationID idp = Ups_ApplicationID p"
    "IdP_Provider idp = ?name"
    by auto
  have "HasPrefix (Ups_ReturnTo p) ''/authorize?''"
    using pending(1) by (rule readUpstreamStateCookie_target)
  moreover have "hd (resp_cookies resp) = Manager_SetCookie (app_sessions A) token"
    "resp_location resp = Some (hexEscapeNonASCII (Ups_ReturnTo p))"
    by (simp_all add: resp)
  ultimately show ?thesis
    using pending(1-4) row got(2) secret ex u unfolding pending(2) [symmetric] by blast
qed

definition broker_world :: world where
  "broker_world = sample_world
     \<lparr>applications := \<lparr>tbl_rows = [sample_application], tbl_next = 2\<rparr>,
      identity_providers := \<lparr>tbl_rows = [\<lparr>IdP_ID = 1, IdP_ApplicationID = 1, IdP_Provider = ''github'', IdP_ClientID = ''id'',
        IdP_ClientSecretEncrypted = replicate 12 (CHR ''n'') @ ''secret'', IdP_Enabled = True, IdP_CreatedAt = 0, IdP_UpdatedAt = 0\<rparr>], tbl_next = 2\<rparr>,
      user_identities := \<lparr>tbl_rows = [\<lparr>Ident_ID = 1, Ident_UserID = 1, Ident_Provider = ''github'', Ident_ProviderSubject = ''7'',
        Ident_Email = ''o@x.y'', Ident_EmailVerified = True, Ident_Name = ''octo'', Ident_CreatedAt = 0, Ident_UpdatedAt = 0\<rparr>], tbl_next = 2\<rparr>\<rparr>"

definition broker_app :: app where
  "broker_app = sample_app\<lparr>app_env := github_env\<rparr>"

definition callback_request :: request where
  "callback_request = sample_request\<lparr>req_path_values := [(''provider'', ''GitHub'')],
     req_raw_query := Encode [(''code'', ''c''), (''state'', ''s-1'')],
     req_cookies := [(upstreamStateCookie, RawURLEncode (replicate 12 (CHR ''n'') @ json_object (upstreamState_members sample_pending)))]\<rparr>"

lemma github_env_simps [simp]:
  "db_fault github_env k = NoFault" "clock github_env k = 1790000000000000000 + int k * 1000"
  "entropy github_env k n = Some (replicate n (char_of k))" "citext github_env s = s"
  by (simp_all add: github_env_def)

lemma broker_cookie: "readUpstreamStateCookie broker_app callback_request = Some sample_pending"
proof -
  have "storable sample_pending"
    by (simp add: storable_def sample_pending_def plain_ascii_def less_char_def)
  note readback = upstreamState_read [OF this] b64_decode_encode [OF good_URL]
  have "Request_Cookie callback_request upstreamStateCookie
      = Some (RawURLEncode (replicate 12 (CHR ''n'') @ json_object (upstreamState_members sample_pending)))"
    by (simp add: Request_Cookie_def callback_request_def)
  then show ?thesis
    using readback by (simp add: readUpstreamStateCookie_def broker_app_def sample_app_def sample_aead_def Box_Decrypt_def)
      (simp add: sample_pending_def HasPrefix_def)
qed

lemma broker_pending:
  "run_state (upstream_pending broker_app callback_request ''github'' ''s-1'') broker_world = (Some sample_pending, counted 1 0 broker_world)"
proof -
  have "Unix (clock github_env (ticks broker_world)) \<le> Ups_ExpiresAt sample_pending"
    by (simp add: Unix_def sample_pending_def Second_def broker_world_def signed_in_defs)
  then show ?thesis
    unfolding upstream_pending_def broker_cookie
    by (simp add: run_Now_counted ConstantTimeCompare_iff broker_app_def) (simp add: sample_pending_def ConstantTimeCompare_iff)
qed

lemma broker_provision:
  assumes "rows (Users github_env) w = [sample_user]" and "rows UserIdentities w = rows UserIdentities broker_world"
  shows "run_state (ProviderService_ProvisionUser github_env octo) w = (Inr sample_user, counted 0 2 w)"
  using assms by (simp add: ProviderService_ProvisionUser_def run_simps lookup_def rows_def broker_world_def octo_def
      sample_user_def numeral_2_eq_2)

lemma broker_complete:
  "resp_cookies (fst (run_state (upstream_complete broker_app ''github'' ''c'' sample_pending) (counted 1 0 broker_world))) \<noteq> []
    \<and> ticks (snd (run_state (upstream_complete broker_app ''github'' ''c'' sample_pending) (counted 1 0 broker_world))) = 3"
proof -
  let ?w = "counted 1 0 broker_world"
  obtain idp secret where got: "run_state (ProviderService_Get github_env (app_secrets broker_app) 1 ''github'') ?w
      = (Inr (idp, secret), counted 1 1 broker_world)" and on: "IdP_Enabled idp"
    by (simp add: ProviderService_Get_def run_simps lookup_def rows_def broker_world_def broker_app_def sample_app_def sample_aead_def
        Box_Decrypt_def)
  obtain config where conf: "ConfigFor github_env ''github'' (IdP_ClientID idp) secret (upstream_redirectURL broker_app ''github'') = Inr config"
    and c: "\<not> Conf_OIDC config" "Conf_Name config = ''github''" "Conf_EmailsURL config \<noteq> []"
    by (simp add: ConfigFor_def)
  let ?v = "counted 1 1 broker_world\<lparr>net_calls := 3\<rparr>"
  have "net_calls (counted 1 1 broker_world) = 0"
    by (simp add: counted_def broker_world_def signed_in_defs)
  note ex = github_exchange [OF this c, of "''c''" "[]"]
  have "rows (Users github_env) ?v = [sample_user]" "rows UserIdentities ?v = rows UserIdentities broker_world"
    by (simp_all add: rows_def broker_world_def signed_in_defs)
  note user = broker_provision [OF this]
  have "\<exists>token x. run_state (Manager_Create github_env sample_config 1) (counted 0 2 ?v) = (Inr token, x) \<and> ticks x = 3"
    by (simp add: Manager_Create_def run_simps gormSessionRepo_Create_def Create_def sql_def gorm_insert_def table_insert_def
        model_defs schema_defs broker_world_def signed_in_defs counted_def has_row_def Let_def)
  then obtain token x where m: "run_state (Manager_Create github_env sample_config 1) (counted 0 2 ?v) = (Inr token, x)" "ticks x = 3"
    by blast
  have app: "app_env broker_app = github_env" "app_sessions broker_app = sample_config" "User_ID sample_user = 1"
    by (simp_all add: broker_app_def sample_app_def sample_user_def)
  have "Ups_ApplicationID sample_pending = 1" "Ups_Verifier sample_pending = []"
    by (simp_all add: sample_pending_def)
  then show ?thesis
    using got on conf ex user m by (simp add: upstream_complete_def upstream_finish_def app)
qed

lemma broker_callback:
  "resp_cookies (fst (run_state (upstreamCallbackHandler broker_app callback_request) broker_world)) \<noteq> []
    \<and> ticks (snd (run_state (upstreamCallbackHandler broker_app callback_request) broker_world)) = 3"
proof -
  have "map ascii_lower ''GitHub'' = ''github''" by code_simp
  then have name: "ToLower github_env ''GitHub'' = ''github''"
    unfolding ToLower_def by (simp add: plain_ascii_def less_char_def)
  have query: "URL_Query callback_request = Query (Encode [(''code'', ''c''), (''state'', ''s-1'')])"
    by (simp add: URL_Query_def callback_request_def)
  have params: "Get (URL_Query callback_request) ''code'' = ''c''" "Get (URL_Query callback_request) ''state'' = ''s-1''"
    "Get (URL_Query callback_request) ''error'' = []"
    unfolding query Get_Query_Encode by (simp_all add: Get_def)
  have "PathValue callback_request ''provider'' = ''GitHub''"
    by (simp add: PathValue_def Get_def callback_request_def)
  then have "run_state (upstreamCallbackHandler broker_app callback_request) broker_world
      = run_state (upstream_complete broker_app ''github'' ''c'' sample_pending) (counted 1 0 broker_world)"
    using name params broker_pending by (simp add: upstreamCallbackHandler_def IsSupported_iff broker_app_def Let_def)
  with broker_complete show ?thesis by simp
qed

lemmas broker_cookies = broker_callback [THEN conjunct1]

theorem callback_signs_in_witness:
  "\<exists>p i user v1 v2. readUpstreamStateCookie broker_app callback_request = Some p
     \<and> run_state (ProviderService_ProvisionUser github_env i) v1 = (Inr user, v2)
     \<and> resp_location (fst (run_state (upstreamCallbackHandler broker_app callback_request) broker_world)) = Some (hexEscapeNonASCII (Ups_ReturnTo p))"
proof -
  have app: "app_env broker_app = github_env" by (simp add: broker_app_def)
  from callback_signs_in [OF prod.collapse [symmetric] broker_cookies] show ?thesis
    unfolding app by blast
qed

end
