(* ===== verification/Go_Time.thy ===== *)
theory Go_Time
  imports Models Go_Json
begin

text \<open>
  Calendar dates (the package time): the date of an instant in the local time zone, as
  \<open>Format("2006-01-02")\<close> prints it.
\<close>

section \<open>Years and days\<close>

definition leap_year :: "int \<Rightarrow> bool" where
  "leap_year y \<longleftrightarrow> y mod 4 = 0 \<and> (y mod 100 \<noteq> 0 \<or> y mod 400 = 0)"

definition month_lengths :: "int \<Rightarrow> int list" where
  "month_lengths y = [31, if leap_year y then 29 else 28, 31, 30, 31, 30, 31, 31, 30, 31, 30, 31]"

text \<open>The year and the day in it, counted from 0, of a day counted from 1 January of year 1.\<close>

definition year_of_day :: "int \<Rightarrow> int \<times> int" where
  "year_of_day d =
     (let n400 = d div 146097; d1 = d mod 146097;
          n100 = min 3 (d1 div 36524); d2 = d1 - 36524 * n100;
          n4 = d2 div 1461; d3 = d2 mod 1461;
          n1 = min 3 (d3 div 365)
      in (400 * n400 + 100 * n100 + 4 * n4 + n1 + 1, d3 - 365 * n1))"

fun month_of_day :: "int list \<Rightarrow> int \<Rightarrow> nat \<times> int" where
  "month_of_day [] d = (1, d + 1)"
| "month_of_day (l # ls) d =
     (if d < l then (1, d + 1) else case month_of_day ls (d - l) of (m, day) \<Rightarrow> (Suc m, day))"

section \<open>Printing\<close>

definition two_digits :: "nat \<Rightarrow> string" where
  "two_digits n = (if n < 10 then CHR ''0'' # decimal n else decimal n)"

definition four_digits :: "int \<Rightarrow> string" where
  "four_digits y =
     (let digits = decimal (nat \<bar>y\<bar>)
      in (if y < 0 then ''-'' else []) @ replicate (4 - length digits) (CHR ''0'') @ digits)"

text \<open>1 January 1970 is the day 719162.\<close>

definition DateOnly :: "env \<Rightarrow> instant \<Rightarrow> string" where
  "DateOnly E t =
     (let (year, yday) = year_of_day (719162 + (Unix t + zone_offset E t) div 86400);
          (month, day) = month_of_day (month_lengths year) yday
      in four_digits year @ ''-'' @ two_digits month @ ''-'' @ two_digits (nat day))"

definition IsZero :: "instant \<Rightarrow> bool" where
  "IsZero t \<longleftrightarrow> t = zero_time"

section \<open>The calendar\<close>

text \<open>How many days there are before a year, from its leap years.\<close>

definition days_before :: "int \<Rightarrow> int" where
  "days_before y = 365 * (y - 1) + (y - 1) div 4 - (y - 1) div 100 + (y - 1) div 400"

lemma year_of_day_days_before:
  assumes "year_of_day d = (y, yday)"
  shows "d = days_before y + yday" and "0 \<le> yday" and "yday < 366"
proof -
  define a d1 where a: "a = d div 146097" and d1: "d1 = d mod 146097"
  define b d2 where b: "b = min 3 (d1 div 36524)" and d2: "d2 = d1 - 36524 * b"
  define c d3 where c: "c = d2 div 1461" and d3: "d3 = d2 mod 1461"
  define e where e: "e = min 3 (d3 div 365)"
  have r1: "0 \<le> d1" "d1 < 146097" and d: "d = 146097 * a + d1" unfolding a d1 by simp_all
  have "d1 div 36524 \<le> 4" "0 \<le> d1 div 36524" using r1 by linarith+
  then have r2: "0 \<le> b" "b \<le> 3" "0 \<le> d2" "d2 \<le> 36524"
    unfolding b d2 using r1 by (auto simp: min_def)
  have r3: "0 \<le> c" "c \<le> 24" "0 \<le> d3" "d3 < 1461" and d2': "d2 = 1461 * c + d3"
    unfolding c d3 using r2 by simp_all
  have r4: "0 \<le> e" "e \<le> 3" "0 \<le> d3 - 365 * e" "d3 - 365 * e < 366"
    unfolding e using r3 by (auto simp: min_def)
  have y: "y = 400 * a + 100 * b + 4 * c + e + 1" and yday: "yday = d3 - 365 * e"
    using assms by (simp_all add: year_of_day_def Let_def a d1 b d2 c d3 e)
  have "(y - 1) div 4 = 100 * a + 25 * b + c" and "(y - 1) div 100 = 4 * a + b" and "(y - 1) div 400 = a"
    unfolding y using r2 r3 r4 by linarith+
  then show "d = days_before y + yday"
    unfolding days_before_def yday using d d2 d2' y by simp
  show "0 \<le> yday" and "yday < 366" using r4 yday by simp_all
qed

lemma DateOnly_example: "DateOnly calm_env 1790000000000000000 = ''2026-09-21''"
  by (simp add: DateOnly_def year_of_day_def month_of_day.simps month_lengths_def leap_year_def four_digits_def two_digits_def
      Unix_def Second_def Let_def decimal.simps; code_simp)

end
