(* ===== verification/Admin_Pages.thy ===== *)
theory Admin_Pages
  imports Operator_Login Provider_Service Go_Time
begin

text \<open>
  What the operators' pages share (internal/admin/handler.go, clients.go, apps.go, providers.go and
  templates/templates.go): the guard against requests without an operator, the rendering of pages, the data
  structures they are rendered with, and the application a path names.  A structure is the list of its fields
  by name, as the templates see it.
\<close>

section \<open>Rendering\<close>

definition template_pages :: "string list" where
  "template_pages =
     [''dashboard.html'', ''setup.html'', ''operator_login.html'', ''clients.html'', ''app_list.html'', ''app_new.html'',
      ''app_registered.html'', ''app_edit.html'', ''client_new.html'', ''client_registered.html'', ''client_detail.html'',
      ''authorize_prompt.html'', ''authorize_error.html'', ''provider_form.html'']"

text \<open>\<open>Templates.Get\<close>: the page's template, or none.\<close>

definition Templates_Get :: "string \<Rightarrow> string option" where
  "Templates_Get page = (if page \<in> set template_pages then Some page else None)"

text \<open>
  The status and the content type are written before the template is looked for, so that \<open>http.Error\<close> can
  only add its text.
\<close>

definition renderStatus :: "nat \<Rightarrow> string \<Rightarrow> (string \<times> page_field) list \<Rightarrow> response" where
  "renderStatus status page data =
     (case Templates_Get page of
        None \<Rightarrow> (renderPage status page data)\<lparr>resp_body := Plain ''internal server error''\<rparr>
      | Some tpl \<Rightarrow> renderPage status tpl data)"

definition render :: "string \<Rightarrow> (string \<times> page_field) list \<Rightarrow> response" where
  "render page data = renderStatus StatusOK page data"

text \<open>A header set before the response is written.\<close>

definition with_header :: "string \<Rightarrow> string \<Rightarrow> response \<Rightarrow> response" where
  "with_header k v resp = resp\<lparr>resp_headers := (k, v) # resp_headers resp\<rparr>"

text \<open>The first lines of every handler: without an operator in the context, to the login page.\<close>

definition with_operator :: "request \<Rightarrow> (operator \<Rightarrow> (world, response) state) \<Rightarrow> (world, response) state" where
  "with_operator r serve =
     (case OperatorFromContext r of
        None \<Rightarrow> ret (Redirect ''/admin/login'' StatusSeeOther)
      | Some operator \<Rightarrow> serve operator)"

section \<open>Views\<close>

definition created_view :: "env \<Rightarrow> instant \<Rightarrow> string" where
  "created_view E t = (if IsZero t then [] else DateOnly E t)"

definition appViewFromModel :: "env \<Rightarrow> application \<Rightarrow> nat \<Rightarrow> (string \<times> page_field) list" where
  "appViewFromModel E a clientCount =
     [(''ID'', Num (App_ID a)), (''Name'', Txt (App_Name a)), (''Description'', Txt (App_Description a)),
      (''FirstParty'', Flag (App_FirstParty a)), (''Scopes'', Texts (App_AllowedScopes a)),
      (''Created'', Txt (created_view E (App_CreatedAt a))), (''ClientCount'', Num (int clientCount))]"

definition clientViewFromModel :: "env \<Rightarrow> oauth_client \<Rightarrow> (string \<times> page_field) list" where
  "clientViewFromModel E c =
     [(''ID'', Num (Client_ID c)), (''ApplicationID'', Num (Client_ApplicationID c)), (''ClientID'', Txt (Client_ClientID c)),
      (''Type'', Txt (Client_ClientType c)), (''AuthMethod'', Txt (Client_TokenEndpointAuthMethod c)),
      (''Environment'', Txt (Client_Environment c)), (''RedirectURIs'', Texts (Client_RedirectURIs c)),
      (''PostLogoutRedirectURIs'', Texts (Client_PostLogoutRedirectURIs c)),
      (''AllowedOrigins'', Texts (Client_AllowedOrigins c)), (''Created'', Txt (created_view E (Client_CreatedAt c)))]"

definition providerViews :: "identity_provider list \<Rightarrow> (string \<times> page_field) list list" where
  "providerViews records =
     map (\<lambda>p. [(''Provider'', Txt (IdP_Provider p)), (''ClientID'', Txt (IdP_ClientID p)), (''Enabled'', Flag (IdP_Enabled p)),
                (''SecretSet'', Flag (length (IdP_ClientSecretEncrypted p) > 0))]) records"

section \<open>The application of a path\<close>

text \<open>On the left is the response that ends the handler.\<close>

definition loadApp :: "app \<Rightarrow> request \<Rightarrow> (world, response + application) state" where
  "loadApp A r =
     (case ParseInt 64 (PathValue r ''id'') of
        None \<Rightarrow> ret (Inl NotFound)
      | Some i \<Rightarrow>
          if i < 1 then ret (Inl NotFound)
          else do {
            found \<leftarrow> gormApplicationRepo_GetByID (app_env A) i;
            ret (case found of
                   Inl e \<Rightarrow> Inl (if errors_Is e ErrNotFound then NotFound else internal_error)
                 | Inr a \<Rightarrow> Inr a)
          })"

text \<open>A handler for an operator and an application.\<close>

definition with_app :: "app \<Rightarrow> request \<Rightarrow> (operator \<Rightarrow> application \<Rightarrow> (world, response) state) \<Rightarrow> (world, response) state" where
  "with_app A r serve = with_operator r (\<lambda>operator. do {
     loaded \<leftarrow> loadApp A r;
     case loaded of Inl resp \<Rightarrow> ret resp | Inr a \<Rightarrow> serve operator a
   })"

definition splitLines :: "string \<Rightarrow> string list" where
  "splitLines raw = filter (\<lambda>line. line \<noteq> []) (map TrimSpace (Split (replace_crlf raw) (CHR 0x0A)))"

section \<open>The operations keep the schema\<close>

lemma sound_with_operator [schema_intros]:
  "(\<And>p. sound E (serve p)) \<Longrightarrow> sound E (with_operator r serve)"
  unfolding with_operator_def by (intro schema_intros)

lemma sound_loadApp [schema_intros]: "sound (app_env A) (loadApp A r)"
  unfolding loadApp_def by (intro schema_intros)

lemma sound_with_app [schema_intros]:
  "(\<And>p a. sound (app_env A) (serve p a)) \<Longrightarrow> sound (app_env A) (with_app A r serve)"
  unfolding with_app_def by (intro schema_intros)

section \<open>Properties\<close>

lemma run_loadApp:
  "run_state (loadApp A r) w =
     (case ParseInt 64 (PathValue r ''id'') of
        None \<Rightarrow> (Inl NotFound, w)
      | Some i \<Rightarrow>
          if i < 1 then (Inl NotFound, w)
          else (case lookup (app_env A) Applications (\<lambda>a. App_ID a = i) w of
                  Inl e \<Rightarrow> Inl (if errors_Is e ErrNotFound then NotFound else internal_error)
                | Inr a \<Rightarrow> Inr a, counted 0 1 w))"
  by (simp add: loadApp_def run_simps split: option.split)

lemma loadAppE:
  assumes "run_state (loadApp A r) w = (Inr a, v)"
  obtains "v = counted 0 1 w" and "ParseInt 64 (PathValue r ''id'') = Some (App_ID a)" and "1 \<le> App_ID a"
    and "a \<in> set (rows Applications w)"
  using assms lookup_InrD [of "app_env A" Applications _ w a]
  by (auto simp: run_loadApp split: option.splits if_splits sum.splits)

lemma ParseInt_bound: "ParseInt 64 s = Some i \<Longrightarrow> i < 2 ^ 63"
  by (auto simp: ParseInt_def Let_def split: option.splits if_splits)

text \<open>
  C36.  Identifiers in paths.  The number of a path is read as a signed 64-bit one.  An application is only ever
  loaded for a number from 1 to 2^63 - 1, and it is the stored one with that identifier; written as usual, each
  such number finds its application when the database answers, and a number outside the range is answered
  404 without a statement on the database.
\<close>

theorem path_id_bounds:
  shows "(\<forall>a v. run_state (loadApp A r) w = (Inr a, v) \<longrightarrow>
            1 \<le> App_ID a \<and> App_ID a < 2 ^ 63 \<and> a \<in> set (rows Applications w) \<and> ParseInt 64 (PathValue r ''id'') = Some (App_ID a))
    \<and> (PathValue r ''id'' = Itoa i \<longrightarrow>
         (if i < 1 \<or> 2 ^ 63 \<le> i then run_state (loadApp A r) w = (Inl NotFound, w)
          else db_fault (app_env A) (db_calls w) = NoFault \<longrightarrow>
            fst (run_state (loadApp A r) w) = (case find (\<lambda>a. App_ID a = i) (rows Applications w) of None \<Rightarrow> Inl NotFound | Some a \<Rightarrow> Inr a)))"
proof (intro conjI allI impI)
  fix a v assume "run_state (loadApp A r) w = (Inr a, v)"
  then show "1 \<le> App_ID a" "App_ID a < 2 ^ 63" "a \<in> set (rows Applications w)" "ParseInt 64 (PathValue r ''id'') = Some (App_ID a)"
    using ParseInt_bound by (auto elim!: loadAppE)
next
  assume "PathValue r ''id'' = Itoa i"
  then show "if i < 1 \<or> 2 ^ 63 \<le> i then run_state (loadApp A r) w = (Inl NotFound, w)
          else db_fault (app_env A) (db_calls w) = NoFault \<longrightarrow>
            fst (run_state (loadApp A r) w) = (case find (\<lambda>a. App_ID a = i) (rows Applications w) of None \<Rightarrow> Inl NotFound | Some a \<Rightarrow> Inr a)"
    using ParseInt_Itoa_exact [of i] by (auto simp: run_loadApp lookup_def split: option.splits)
qed

theorem path_id_bounds_witness:
  "run_state (loadApp sample_app (sample_request\<lparr>req_path_values := [(''id'', Itoa 9223372036854775808)]\<rparr>)) empty_world
     = (Inl NotFound, empty_world)"
  using path_id_bounds [of sample_app "sample_request\<lparr>req_path_values := [(''id'', Itoa 9223372036854775808)]\<rparr>" empty_world 9223372036854775808]
  by (simp add: PathValue_def Get_def)

end
