(* ===== verification/Admin_Apps.thy ===== *)
theory Admin_Apps
  imports Admin_Pages
begin

text \<open>
  The operators' pages on applications and clients (internal/admin/apps.go, clients.go, dashboard.go).
\<close>

section \<open>Lists of applications\<close>

text \<open>The clients of an application, which the source collects in a map by application.\<close>

definition clients_of :: "int \<Rightarrow> oauth_client list \<Rightarrow> oauth_client list" where
  "clients_of i clients = filter (\<lambda>c. Client_ApplicationID c = i) clients"

definition environments_in :: "oauth_client list \<Rightarrow> string list" where
  "environments_in clients =
     filter (\<lambda>name. name \<in> Client_Environment ` set clients) [''local'', ''staging'', ''production'']"

definition appListItem :: "env \<Rightarrow> oauth_client list \<Rightarrow> application \<Rightarrow> (string \<times> page_field) list" where
  "appListItem E clients a =
     (let appClients = clients_of (App_ID a) clients in
      [(''ID'', Num (App_ID a)), (''Name'', Txt (App_Name a)), (''Description'', Txt (App_Description a)),
       (''FirstParty'', Flag (App_FirstParty a)), (''Scopes'', Texts (App_AllowedScopes a)),
       (''ClientCount'', Num (int (length appClients))), (''Environments'', Texts (environments_in appClients)),
       (''Created'', Txt (created_view E (App_CreatedAt a)))])"

text \<open>All applications and clients; the first error ends the reading.\<close>

definition apps_and_clients :: "app \<Rightarrow> (world, goerr + application list \<times> oauth_client list) state" where
  "apps_and_clients A = do {
     apps \<leftarrow> gormApplicationRepo_List (app_env A);
     case apps of
       Inl e \<Rightarrow> ret (Inl e)
     | Inr apps \<Rightarrow> do {
         clients \<leftarrow> gormClientRepo_List (app_env A);
         ret (case clients of Inl e \<Rightarrow> Inl e | Inr clients \<Rightarrow> Inr (apps, clients))
       }
   }"

definition appListHandler :: "app \<Rightarrow> handler" where
  "appListHandler A r = with_operator r (\<lambda>operator. do {
     found \<leftarrow> apps_and_clients A;
     ret (case found of
            Inl e \<Rightarrow> internal_error
          | Inr (apps, clients) \<Rightarrow>
              render ''app_list.html''
                [(''Title'', Txt ''Applications''), (''Email'', Txt (Operator_Email operator)),
                 (''Apps'', Structs (map (appListItem (app_env A) clients) apps))])
   })"

definition dashboardAppView :: "env \<Rightarrow> oauth_client list \<Rightarrow> application \<Rightarrow> (string \<times> page_field) list" where
  "dashboardAppView E clients a =
     [(''ID'', Num (App_ID a)), (''Name'', Txt (App_Name a)), (''Description'', Txt (App_Description a)),
      (''Scopes'', Texts (App_AllowedScopes a)), (''ClientCount'', Num (int (length (clients_of (App_ID a) clients)))),
      (''Created'', Txt (created_view E (App_CreatedAt a)))]"

definition dashboardData :: "app \<Rightarrow> (world, goerr + (string \<times> page_field) list list) state" where
  "dashboardData A = do {
     found \<leftarrow> apps_and_clients A;
     ret (case found of
            Inl e \<Rightarrow> Inl e
          | Inr (apps, clients) \<Rightarrow> Inr (map (dashboardAppView (app_env A) clients) apps))
   }"

definition dashboardHandler :: "app \<Rightarrow> handler" where
  "dashboardHandler A r = with_operator r (\<lambda>operator. do {
     data \<leftarrow> dashboardData A;
     ret (case data of
            Inl e \<Rightarrow> internal_error
          | Inr views \<Rightarrow>
              renderPage StatusOK ''dashboard.html''
                [(''Title'', Txt ''Dashboard''), (''Email'', Txt (Operator_Email operator)), (''Error'', Txt []),
                 (''Apps'', Structs views)])
   })"

section \<open>Registering an application\<close>

text \<open>\<open>renderAppNew\<close> with the fields of \<open>appFormData\<close>.\<close>

definition renderAppNew ::
    "nat \<Rightarrow> operator \<Rightarrow> string \<Rightarrow> (string \<times> string) list \<Rightarrow> register_app_input \<Rightarrow> response" where
  "renderAppNew status operator err errors input =
     renderStatus status ''app_new.html''
       [(''Title'', Txt ''Register application''), (''Email'', Txt (Operator_Email operator)), (''Error'', Txt err),
        (''Errors'', Pairs errors), (''Name'', Txt (Reg_Name input)), (''Description'', Txt (Reg_Description input)),
        (''FirstParty'', Flag (Reg_FirstParty input)), (''Scopes'', Txt (Join '' '' (Reg_AllowedScopes input))),
        (''ClientType'', Txt (In_ClientType (Reg_Client input))),
        (''RedirectURIs'', Txt (Join [CHR 0x0A] (In_RedirectURIs (Reg_Client input)))),
        (''PostLogoutRedirectURIs'', Txt (Join [CHR 0x0A] (In_PostLogoutRedirectURIs (Reg_Client input)))),
        (''Environment'', Txt (In_Environment (Reg_Client input)))]"

definition app_form_defaults :: register_app_input where
  "app_form_defaults =
     \<lparr>Reg_Name = [], Reg_Description = [], Reg_FirstParty = True, Reg_AllowedScopes = [],
      Reg_Client = \<lparr>In_ClientType = ''confidential'', In_RedirectURIs = [], In_PostLogoutRedirectURIs = [],
                    In_AllowedOrigins = [], In_Environment = ''local'', In_TokenEndpointAuthMethod = []\<rparr>\<rparr>"

definition appNewHandler :: "app \<Rightarrow> handler" where
  "appNewHandler A r = with_operator r (\<lambda>operator. ret (renderAppNew StatusOK operator [] [] app_form_defaults))"

definition register_app_form :: "request \<Rightarrow> register_app_input" where
  "register_app_form r =
     \<lparr>Reg_Name = FormValue r ''name'', Reg_Description = FormValue r ''description'',
      Reg_FirstParty = (FormValue r ''first_party'' \<noteq> []), Reg_AllowedScopes = Fields (FormValue r ''allowed_scopes''),
      Reg_Client = \<lparr>In_ClientType = FormValue r ''client_type'',
                    In_RedirectURIs = splitLines (FormValue r ''redirect_uris''),
                    In_PostLogoutRedirectURIs = splitLines (FormValue r ''post_logout_redirect_uris''),
                    In_AllowedOrigins = [], In_Environment = FormValue r ''environment'',
                    In_TokenEndpointAuthMethod = []\<rparr>\<rparr>"

definition fix_errors :: string where
  "fix_errors = ''Fix the errors below and try again.''"

definition invalid_form :: response where
  "invalid_form = Error ''invalid form'' StatusBadRequest"

definition app_registered :: "env \<Rightarrow> operator \<Rightarrow> register_app_output \<Rightarrow> response" where
  "app_registered E operator out =
     with_header ''Cache-Control'' ''no-store'' (render ''app_registered.html''
       [(''Title'', Txt ''Application registered''), (''Email'', Txt (Operator_Email operator)),
        (''App'', Struct (appViewFromModel E (Out_App out) 1)), (''Client'', Struct (clientViewFromModel E (Out_Client out))),
        (''ClientSecret'', Txt (Out_ClientSecret out))])"

definition appCreateHandler :: "app \<Rightarrow> handler" where
  "appCreateHandler A r = with_operator r (\<lambda>operator.
     case ParseForm r of
       Inl e \<Rightarrow> ret invalid_form
     | Inr _ \<Rightarrow> do {
         let input = register_app_form r;
         registered \<leftarrow> AppService_RegisterApp (app_env A) input;
         ret (case registered of
                Inl e \<Rightarrow>
                  (case errors_As_validation e of
                     Some verr \<Rightarrow> renderAppNew StatusBadRequest operator fix_errors verr input
                   | None \<Rightarrow> internal_error)
              | Inr out \<Rightarrow> app_registered (app_env A) operator out)
       })"

section \<open>Editing an application\<close>

definition renderAppEdit ::
    "nat \<Rightarrow> operator \<Rightarrow> application \<Rightarrow> string \<Rightarrow> (string \<times> string) list \<Rightarrow> app_metadata_input \<Rightarrow> response" where
  "renderAppEdit status operator a err errors input =
     renderStatus status ''app_edit.html''
       [(''Title'', Txt (''Edit '' @ App_Name a)), (''Email'', Txt (Operator_Email operator)), (''AppID'', Num (App_ID a)),
        (''Error'', Txt err), (''Errors'', Pairs errors), (''Name'', Txt (Meta_Name input)),
        (''Description'', Txt (Meta_Description input)), (''FirstParty'', Flag (Meta_FirstParty input)),
        (''Scopes'', Txt (Join '' '' (Meta_AllowedScopes input)))]"

definition appEditHandler :: "app \<Rightarrow> handler" where
  "appEditHandler A r = with_app A r (\<lambda>operator a.
     ret (renderAppEdit StatusOK operator a [] []
       \<lparr>Meta_Name = App_Name a, Meta_Description = App_Description a, Meta_FirstParty = App_FirstParty a,
        Meta_AllowedScopes = App_AllowedScopes a\<rparr>))"

definition app_metadata_form :: "request \<Rightarrow> app_metadata_input" where
  "app_metadata_form r =
     \<lparr>Meta_Name = FormValue r ''name'', Meta_Description = FormValue r ''description'',
      Meta_FirstParty = (FormValue r ''first_party'' \<noteq> []), Meta_AllowedScopes = Fields (FormValue r ''allowed_scopes'')\<rparr>"

definition app_path :: "string \<Rightarrow> string" where
  "app_path i = ''/admin/apps/'' @ i"

definition appUpdateHandler :: "app \<Rightarrow> handler" where
  "appUpdateHandler A r = with_app A r (\<lambda>operator a.
     case ParseForm r of
       Inl e \<Rightarrow> ret invalid_form
     | Inr _ \<Rightarrow> do {
         let input = app_metadata_form r;
         updated \<leftarrow> AppService_UpdateApp (app_env A) a input;
         ret (case updated of
                Inl e \<Rightarrow>
                  (case errors_As_validation e of
                     Some verr \<Rightarrow> renderAppEdit StatusBadRequest operator a fix_errors verr input
                   | None \<Rightarrow> if errors_Is e ErrNotFound then NotFound else internal_error)
              | Inr a' \<Rightarrow> Redirect (app_path (Itoa (App_ID a'))) StatusSeeOther)
       })"

section \<open>Clients\<close>

definition env_count :: "oauth_client list \<Rightarrow> string \<Rightarrow> nat" where
  "env_count clients name = length (filter (\<lambda>c. Client_Environment c = name) clients)"

definition buildAppDetailPageData :: "env \<Rightarrow> application \<Rightarrow> oauth_client list \<Rightarrow> (string \<times> page_field) list" where
  "buildAppDetailPageData E a clients =
     [(''Title'', Txt (App_Name a)), (''App'', Struct (appViewFromModel E a (length clients))),
      (''Clients'', Structs (map (clientViewFromModel E) clients)),
      (''Envs'', Structs (map (\<lambda>name. [(''Name'', Txt name), (''Count'', Num (int (env_count clients name)))])
                  [''local'', ''staging'', ''production'']))]"

definition appDetailHandler :: "app \<Rightarrow> handler" where
  "appDetailHandler A r = with_app A r (\<lambda>operator a. do {
     clients \<leftarrow> gormClientRepo_ListByApplicationID (app_env A) (App_ID a);
     case clients of
       Inl e \<Rightarrow> ret internal_error
     | Inr clients \<Rightarrow> do {
         providers \<leftarrow> ProviderService_List (app_env A) (App_ID a);
         ret (case providers of
                Inl e \<Rightarrow> internal_error
              | Inr providers \<Rightarrow>
                  render ''clients.html''
                    (buildAppDetailPageData (app_env A) a clients
                     @ [(''Providers'', Structs (providerViews providers)), (''Email'', Txt (Operator_Email operator))]))
       }
   })"

text \<open>\<open>renderClientNew\<close> with the fields of \<open>clientNewPageData\<close>.\<close>

definition renderClientNew ::
    "env \<Rightarrow> nat \<Rightarrow> operator \<Rightarrow> application \<Rightarrow> string \<Rightarrow> (string \<times> string) list \<Rightarrow> client_input \<Rightarrow> response" where
  "renderClientNew E status operator a err errors input =
     renderStatus status ''client_new.html''
       [(''Title'', Txt (''Add client to '' @ App_Name a)), (''Email'', Txt (Operator_Email operator)), (''Error'', Txt err),
        (''Errors'', Pairs errors), (''App'', Struct (appViewFromModel E a 0)), (''ClientType'', Txt (In_ClientType input)),
        (''Environment'', Txt (In_Environment input)), (''RedirectURIs'', Txt (Join [CHR 0x0A] (In_RedirectURIs input))),
        (''PostLogoutRedirectURIs'', Txt (Join [CHR 0x0A] (In_PostLogoutRedirectURIs input))),
        (''AllowedOrigins'', Txt (Join [CHR 0x0A] (In_AllowedOrigins input)))]"

definition clientNewHandler :: "app \<Rightarrow> handler" where
  "clientNewHandler A r = with_app A r (\<lambda>operator a.
     ret (renderClientNew (app_env A) StatusOK operator a [] [] (Reg_Client app_form_defaults)))"

definition client_form :: "request \<Rightarrow> client_input" where
  "client_form r =
     \<lparr>In_ClientType = FormValue r ''client_type'', In_RedirectURIs = splitLines (FormValue r ''redirect_uris''),
      In_PostLogoutRedirectURIs = splitLines (FormValue r ''post_logout_redirect_uris''),
      In_AllowedOrigins = splitLines (FormValue r ''allowed_origins''), In_Environment = FormValue r ''environment'',
      In_TokenEndpointAuthMethod = []\<rparr>"

definition client_registered :: "env \<Rightarrow> operator \<Rightarrow> application \<Rightarrow> oauth_client \<Rightarrow> string \<Rightarrow> response" where
  "client_registered E operator a c secret =
     with_header ''Cache-Control'' ''no-store'' (render ''client_registered.html''
       [(''Title'', Txt ''Client registered''), (''Email'', Txt (Operator_Email operator)),
        (''App'', Struct (appViewFromModel E a 0)), (''Client'', Struct (clientViewFromModel E c)),
        (''ClientSecret'', Txt secret)])"

definition clientCreateHandler :: "app \<Rightarrow> handler" where
  "clientCreateHandler A r = with_app A r (\<lambda>operator a.
     case ParseForm r of
       Inl e \<Rightarrow> ret invalid_form
     | Inr _ \<Rightarrow> do {
         let input = client_form r;
         created \<leftarrow> AppService_CreateClient (app_env A) (App_ID a) input;
         ret (case created of
                Inl e \<Rightarrow>
                  (case errors_As_validation e of
                     Some verr \<Rightarrow> renderClientNew (app_env A) StatusBadRequest operator a fix_errors verr input
                   | None \<Rightarrow> internal_error)
              | Inr (c, secret) \<Rightarrow> client_registered (app_env A) operator a c secret)
       })"

definition client_detail :: "app \<Rightarrow> operator \<Rightarrow> oauth_client \<Rightarrow> (world, response) state" where
  "client_detail A operator c = do {
     found \<leftarrow> gormApplicationRepo_GetByID (app_env A) (Client_ApplicationID c);
     ret (case found of
            Inl e \<Rightarrow> internal_error
          | Inr a \<Rightarrow>
              render ''client_detail.html''
                [(''Title'', Txt (Client_ClientID c)), (''Email'', Txt (Operator_Email operator)),
                 (''App'', Struct (appViewFromModel (app_env A) a 0)), (''Client'', Struct (clientViewFromModel (app_env A) c))])
   }"

definition clientDetailHandler :: "app \<Rightarrow> handler" where
  "clientDetailHandler A r = with_operator r (\<lambda>operator.
     case ParseInt 64 (PathValue r ''id'') of
       None \<Rightarrow> ret NotFound
     | Some i \<Rightarrow>
         if i < 1 then ret NotFound
         else do {
           found \<leftarrow> gormClientRepo_GetByID (app_env A) i;
           case found of
             Inl e \<Rightarrow> ret (if errors_Is e ErrNotFound then NotFound else internal_error)
           | Inr c \<Rightarrow> client_detail A operator c
         })"

section \<open>The operations keep the schema\<close>

lemma sound_apps_and_clients [schema_intros]: "sound E (apps_and_clients A)"
  unfolding apps_and_clients_def gormApplicationRepo_List_def gormClientRepo_List_def by (intro schema_intros)

lemma sound_app_pages [schema_intros]:
  "sound (app_env A) (appListHandler A r)" "sound (app_env A) (dashboardHandler A r)"
  "sound (app_env A) (appNewHandler A r)" "sound (app_env A) (appCreateHandler A r)"
  "sound (app_env A) (appEditHandler A r)" "sound (app_env A) (appUpdateHandler A r)"
  unfolding appListHandler_def dashboardHandler_def dashboardData_def appNewHandler_def appCreateHandler_def
    appEditHandler_def appUpdateHandler_def Let_def
  by (intro schema_intros)+

lemma sound_client_pages [schema_intros]:
  "sound (app_env A) (appDetailHandler A r)" "sound (app_env A) (clientNewHandler A r)"
  "sound (app_env A) (clientCreateHandler A r)" "sound (app_env A) (clientDetailHandler A r)"
  unfolding appDetailHandler_def clientNewHandler_def clientCreateHandler_def clientDetailHandler_def client_detail_def Let_def
  by (intro schema_intros)+

section \<open>Properties\<close>

lemma built_secret:
  assumes "run_state (buildClient E input) w = (Inr (b, secret), u)" and "same_registration b c" and "entropy_fills E"
  shows "if Client_ClientType c = ''confidential'' then ValidateClientSecret c secret else secret = []"
  using assms(1)
proof (cases rule: buildClientE)
  case (public cid)
  then show ?thesis using assms(2) by (simp add: same_registration_def new_client_def)
next
  case (confidential r cid)
  then have "length (RawURLEncode r) = 43" using assms(3) by (intro b64_encode_32) (simp add: entropy_fills_def)
  with confidential show ?thesis using assms(2) by (auto simp: same_registration_def new_client_def ValidateClientSecret_iff)
qed simp_all

text \<open>
  C34.  The registration page.  A request to register an application either leaves applications and clients as
  they were, or was made by an operator and appends one application with the trimmed name of the form and one
  client of it.  Then the answer is an internal error, for a reply that was lost, or the page that shows both and
  the client's secret: it is not to be stored by browsers, a confidential client authenticates with the secret it
  shows, and a public one has none.
\<close>

theorem registration_page:
  assumes "run_state (appCreateHandler A r) w = (resp, w')" and "entropy_fills (app_env A)"
  shows "rows Applications w' = rows Applications w \<and> rows OAuthClients w' = rows OAuthClients w
    \<or> (\<exists>p a c. req_operator r = Some p \<and> rows Applications w' = rows Applications w @ [a]
        \<and> rows OAuthClients w' = rows OAuthClients w @ [c] \<and> Client_ApplicationID c = App_ID a
        \<and> App_Name a = TrimSpace (FormValue r ''name'') \<and> App_Name a \<noteq> []
        \<and> (resp = internal_error
           \<or> (\<exists>secret. resp = app_registered (app_env A) p \<lparr>Out_App = a, Out_Client = c, Out_ClientSecret = secret\<rparr>
                \<and> (''Cache-Control'', ''no-store'') \<in> set (resp_headers resp)
                \<and> (if Client_ClientType c = ''confidential'' then ValidateClientSecret c secret else secret = []))))"
proof (cases "\<exists>p. req_operator r = Some p \<and> ParseForm r = Inr ()")
  case False
  then have "w' = w"
    using assms(1) by (auto simp: appCreateHandler_def with_operator_def OperatorFromContext_def split: option.splits sum.splits)
  then show ?thesis by simp
next
  case True
  then obtain p where p: "req_operator r = Some p" "ParseForm r = Inr ()" by blast
  obtain res where run: "run_state (AppService_RegisterApp (app_env A) (register_app_form r)) w = (res, w')"
    and resp: "resp = (case res of Inl e \<Rightarrow> (case errors_As_validation e of
          Some verr \<Rightarrow> renderAppNew StatusBadRequest p fix_errors verr (register_app_form r) | None \<Rightarrow> internal_error)
        | Inr out \<Rightarrow> app_registered (app_env A) p out)"
    using assms(1) p by (auto simp: appCreateHandler_def with_operator_def OperatorFromContext_def Let_def split: prod.splits)
  from run show ?thesis
  proof (cases rule: RegisterAppE)
    case (invalid verr)
    with only_entropy_rows show ?thesis by blast
  next
    case (refused e)
    then show ?thesis by blast
  next
    case (stored a c b secret u)
    have "(''Cache-Control'', ''no-store'') \<in> set (resp_headers (app_registered (app_env A) p out))" for out
      by (simp add: app_registered_def with_header_def)
    then show ?thesis
      using stored p resp built_secret [OF stored(1,5) assms(2)] by (auto simp: register_app_form_def)
  qed
qed

definition console_request :: request where
  "console_request = sample_request\<lparr>req_method := ''POST'', req_path := ''/admin/apps'', req_escaped_path := ''/admin/apps'',
     req_post_form := [(''name'', ''Shop''), (''allowed_scopes'', ''openid email''), (''client_type'', ''confidential''),
       (''redirect_uris'', ''https://app.example/cb''), (''environment'', [])],
     req_operator := Some sample_operator\<rparr>"

lemma console_form: "register_app_form console_request = sample_registration\<lparr>Reg_AllowedScopes := [''openid'', ''email'']\<rparr>"
proof -
  have "Fields ''openid email'' = [''openid'', ''email'']" "splitLines [] = []"
    "splitLines ''https://app.example/cb'' = [''https://app.example/cb'']"
    by code_simp+
  then show ?thesis
    by (simp add: register_app_form_def console_request_def FormValue_def Get_def sample_request_def URL_Query_def Query_def
        sample_registration_def sample_client_input_def)
qed

theorem registration_page_witness:
  "\<exists>a c. rows Applications (snd (run_state (appCreateHandler sample_app console_request) empty_world)) = [a]
     \<and> rows OAuthClients (snd (run_state (appCreateHandler sample_app console_request) empty_world)) = [c] \<and> App_Name a = ''Shop''"
proof -
  have pure: "normalizeScopes calm_env [''openid'', ''email''] = Inr [''openid'', ''email'']" "TrimSpace ''Shop'' = ''Shop''" "TrimSpace [] = []"
    by code_simp+
  have "rows Applications (snd (run_state (appCreateHandler sample_app console_request) empty_world)) \<noteq> []"
    using pure console_form
    by (simp add: appCreateHandler_def with_operator_def OperatorFromContext_def ParseForm_def AppService_RegisterApp_def buildRegistration_def
        buildClient_def sample_client_runs sample_registration_def
        run_generateClientID run_generateClientSecret scope_errors_def name_errors_def scope_list_def Let_def new_client_def
        gormApplicationRepo_CreateWithClient_def Transaction_def sql_def Create_def run_Now gorm_insert_def table_insert_def
        Applications_def OAuthClients_def applications_schema_def oauth_clients_schema_def empty_world_def empty_table_def
        or_default_def has_row_def console_request_def sample_request_def sample_app_def rows_def)
  then show ?thesis
    using registration_page [OF prod.collapse [symmetric], of sample_app console_request empty_world] entropy_fills_calm
    by (auto simp: rows_def empty_world_def empty_table_def console_request_def FormValue_def Get_def pure)
qed

end
