(* ===== verification/Admin_Providers.thy ===== *)
theory Admin_Providers
  imports Admin_Apps
begin

text \<open>The operators' pages on an application's identity providers (internal/admin/providers.go).\<close>

section \<open>The form\<close>

definition providerFormTitle :: "string \<Rightarrow> bool \<Rightarrow> string" where
  "providerFormTitle provider isEdit =
     (let provider = TrimSpace provider in if isEdit then ''Edit '' @ provider else ''Add identity provider'')"

record provider_form =
  PF_Title :: string
  PF_Error :: string
  PF_Errors :: "(string \<times> string) list"
  PF_Provider :: string
  PF_ClientID :: string
  PF_Enabled :: bool
  PF_IsEdit :: bool
  PF_SecretIsSet :: bool

definition renderProviderForm :: "env \<Rightarrow> nat \<Rightarrow> operator \<Rightarrow> application \<Rightarrow> provider_form \<Rightarrow> response" where
  "renderProviderForm E status operator a form =
     renderStatus status ''provider_form.html''
       [(''Title'', Txt (PF_Title form)), (''Email'', Txt (Operator_Email operator)), (''Error'', Txt (PF_Error form)),
        (''Errors'', Pairs (PF_Errors form)), (''App'', Struct (appViewFromModel E a 0)), (''Provider'', Txt (PF_Provider form)),
        (''ClientID'', Txt (PF_ClientID form)), (''Enabled'', Flag (PF_Enabled form)), (''IsEdit'', Flag (PF_IsEdit form)),
        (''SecretIsSet'', Flag (PF_SecretIsSet form)), (''Providers'', Texts SupportedProviders)]"

definition providerNewHandler :: "app \<Rightarrow> handler" where
  "providerNewHandler A r = with_app A r (\<lambda>operator a.
     ret (renderProviderForm (app_env A) StatusOK operator a
       \<lparr>PF_Title = ''Add identity provider'', PF_Error = [], PF_Errors = [], PF_Provider = ''google'', PF_ClientID = [],
        PF_Enabled = True, PF_IsEdit = False, PF_SecretIsSet = False\<rparr>))"

text \<open>The loop over the application's providers, for the first one of the path's name.\<close>

definition path_provider :: "app \<Rightarrow> request \<Rightarrow> string" where
  "path_provider A r = ToLower (app_env A) (PathValue r ''provider'')"

definition find_provider ::
    "app \<Rightarrow> application \<Rightarrow> string \<Rightarrow> (identity_provider \<Rightarrow> (world, response) state) \<Rightarrow> (world, response) state" where
  "find_provider A a provider found = do {
     records \<leftarrow> ProviderService_List (app_env A) (App_ID a);
     case records of
       Inl e \<Rightarrow> ret internal_error
     | Inr records \<Rightarrow>
         (case find (\<lambda>p. IdP_Provider p = provider) records of
            None \<Rightarrow> ret NotFound
          | Some p \<Rightarrow> found p)
   }"

definition providerEditHandler :: "app \<Rightarrow> handler" where
  "providerEditHandler A r = with_app A r (\<lambda>operator a.
     find_provider A a (path_provider A r) (\<lambda>p.
       ret (renderProviderForm (app_env A) StatusOK operator a
         \<lparr>PF_Title = ''Edit '' @ path_provider A r, PF_Error = [], PF_Errors = [], PF_Provider = IdP_Provider p,
          PF_ClientID = IdP_ClientID p, PF_Enabled = IdP_Enabled p, PF_IsEdit = True,
          PF_SecretIsSet = (length (IdP_ClientSecretEncrypted p) > 0)\<rparr>)))"

section \<open>Changes\<close>

definition provider_input_form :: "request \<Rightarrow> provider_input" where
  "provider_input_form r =
     \<lparr>Prov_Provider = FormValue r ''provider'', Prov_ClientID = FormValue r ''client_id'',
      Prov_ClientSecret = FormValue r ''client_secret'', Prov_Enabled = (FormValue r ''enabled'' \<noteq> [])\<rparr>"

definition providerSaveHandler :: "app \<Rightarrow> handler" where
  "providerSaveHandler A r = with_app A r (\<lambda>operator a.
     case ParseForm r of
       Inl e \<Rightarrow> ret invalid_form
     | Inr _ \<Rightarrow> do {
         let input = provider_input_form r;
         let isEdit = (FormValue r ''is_edit'' = ''true'');
         saved \<leftarrow> ProviderService_Upsert (app_env A) (app_secrets A) (App_ID a) input;
         ret (case saved of
                Inl e \<Rightarrow>
                  (case errors_As_validation e of
                     Some verr \<Rightarrow>
                       renderProviderForm (app_env A) StatusBadRequest operator a
                         \<lparr>PF_Title = providerFormTitle (Prov_Provider input) isEdit, PF_Error = fix_errors, PF_Errors = verr,
                          PF_Provider = ToLower (app_env A) (TrimSpace (Prov_Provider input)), PF_ClientID = Prov_ClientID input,
                          PF_Enabled = Prov_Enabled input, PF_IsEdit = isEdit, PF_SecretIsSet = (Prov_ClientSecret input = [])\<rparr>
                   | None \<Rightarrow> internal_error)
              | Inr _ \<Rightarrow> Redirect (app_path (PathValue r ''id'')) StatusSeeOther)
       })"

definition providerToggleHandler :: "app \<Rightarrow> handler" where
  "providerToggleHandler A r = with_app A r (\<lambda>operator a.
     find_provider A a (path_provider A r) (\<lambda>p. do {
       switched \<leftarrow> ProviderService_SetEnabled (app_env A) (App_ID a) (path_provider A r) (\<not> IdP_Enabled p);
       ret (case switched of
              Inl e \<Rightarrow> internal_error
            | Inr _ \<Rightarrow> Redirect (app_path (PathValue r ''id'')) StatusSeeOther)
     }))"

definition providerDeleteHandler :: "app \<Rightarrow> handler" where
  "providerDeleteHandler A r = with_app A r (\<lambda>operator a. do {
     deleted \<leftarrow> ProviderService_Delete (app_env A) (App_ID a) (path_provider A r);
     ret (case deleted of
            Inl e \<Rightarrow> if errors_Is e ErrNotFound then NotFound else internal_error
          | Inr _ \<Rightarrow> Redirect (app_path (PathValue r ''id'')) StatusSeeOther)
   })"

section \<open>The operations keep the schema\<close>

lemma sound_find_provider [schema_intros]:
  "(\<And>p. sound (app_env A) (found p)) \<Longrightarrow> sound (app_env A) (find_provider A a provider found)"
  unfolding find_provider_def by (intro schema_intros)

lemma sound_provider_pages [schema_intros]:
  "sound (app_env A) (providerNewHandler A r)" "sound (app_env A) (providerEditHandler A r)"
  "sound (app_env A) (providerSaveHandler A r)" "sound (app_env A) (providerToggleHandler A r)"
  "sound (app_env A) (providerDeleteHandler A r)"
  unfolding providerNewHandler_def providerEditHandler_def providerSaveHandler_def providerToggleHandler_def
    providerDeleteHandler_def Let_def
  by (intro schema_intros)+

section \<open>Properties\<close>

lemma run_ProviderService_List:
  "run_state (ProviderService_List E i) w =
     (if db_fault E (db_calls w) = NoFault
      then Inr (sort_key IdP_Provider (filter (\<lambda>p. IdP_ApplicationID p = i) (rows IdentityProviders w)))
      else Inl (ErrDB ConnectionFailed), counted 0 1 w)"
  by (cases "db_fault E (db_calls w)")
     (simp_all add: ProviderService_List_def gormIdentityProviderRepo_ListByApplicationID_def IdentityProviders.run_sql rows_def)

lemma find_providerE:
  assumes "run_state (find_provider A a provider found) w = (resp, w')"
  obtains "resp = internal_error \<or> resp = NotFound" and "w' = counted 0 1 w"
      and "db_fault (app_env A) (db_calls w) \<noteq> NoFault
        \<or> (\<forall>q \<in> set (rows IdentityProviders w). \<not> (IdP_ApplicationID q = App_ID a \<and> IdP_Provider q = provider))"
  | q where "q \<in> set (rows IdentityProviders w)" and "IdP_ApplicationID q = App_ID a" and "IdP_Provider q = provider"
      and "run_state (found q) (counted 0 1 w) = (resp, w')"
  using assms
  by (auto simp: find_provider_def run_ProviderService_List find_None_iff split: if_splits option.splits dest!: find_SomeD)

text \<open>
  The provider the path names, of the application the path names, has its flag turned around by an operator: no
  other row changes, and of this one only the flag and the time of the change.
\<close>

definition provider_switched :: "app \<Rightarrow> request \<Rightarrow> world \<Rightarrow> world \<Rightarrow> bool" where
  "provider_switched A r w w' \<longleftrightarrow> (\<exists>p i q now. req_operator r = Some p \<and> ParseInt 64 (PathValue r ''id'') = Some i
     \<and> q \<in> set (rows IdentityProviders w) \<and> IdP_ApplicationID q = i \<and> IdP_Provider q = ToLower (app_env A) (PathValue r ''provider'')
     \<and> rows IdentityProviders w' =
         map (\<lambda>x. if x = q then q\<lparr>IdP_Enabled := \<not> IdP_Enabled q, IdP_UpdatedAt := now\<rparr> else x) (rows IdentityProviders w))"

lemma provider_unique:
  assumes "world_ok E w" and "q \<in> set (rows IdentityProviders w)" and "x \<in> set (rows IdentityProviders w)"
    and "IdP_ApplicationID x = IdP_ApplicationID q" and "IdP_Provider x = IdP_Provider q"
  shows "x = q"
proof -
  have "table_ok identity_providers_schema (identity_providers w)"
    using world_ok_models(6) [OF assms(1)] by (simp add: model_ok_def IdentityProviders_def)
  then show ?thesis
    using assms(2-5) by (intro identity_providers_tbl.table_ok_clash) (simp_all add: rows_def identity_providers_schema_def)
qed

lemma calm_application:
  assumes "world_ok E w" and "\<forall>k. db_fault E k = NoFault" and "b \<in> set (rows Applications w)"
  shows "lookup E Applications (\<lambda>a. App_ID a = App_ID b) w = Inr b"
proof -
  have "table_ok applications_schema (applications w)"
    using world_ok_models(5) [OF assms(1)] by (simp add: model_ok_def Applications_def)
  then have "a = b" if "a \<in> set (rows Applications w)" "App_ID a = App_ID b" for a
    using that assms(3) by (intro applications_tbl.table_ok_unique_id) (simp_all add: rows_def applications_schema_def)
  then have "find (\<lambda>a. App_ID a = App_ID b) (rows Applications w) = Some b"
    using assms(3) by (intro find_unique) simp_all
  then show ?thesis using assms(2) by (simp add: lookup_def)
qed

lemma run_SetEnabled:
  assumes "world_ok E w" and "q \<in> set (rows IdentityProviders w)"
    and "run_state (ProviderService_SetEnabled E (IdP_ApplicationID q) (IdP_Provider q) b) (counted 0 n w) = (res, w')"
  obtains "rows IdentityProviders w' = rows IdentityProviders w" and "\<exists>e. res = Inl e" and "\<exists>k. db_fault E k \<noteq> NoFault"
  | now where "rows IdentityProviders w' =
        map (\<lambda>x. if x = q then q\<lparr>IdP_Enabled := b, IdP_UpdatedAt := now\<rparr> else x) (rows IdentityProviders w)"
      and "res = Inr () \<or> (\<exists>k. db_fault E k = LostReply)"
proof -
  let ?P = "\<lambda>x. IdP_ApplicationID x = IdP_ApplicationID q \<and> IdP_Provider x = IdP_Provider q"
  obtain u where up: "run_state (Update E IdentityProviders ?P (IdP_Enabled_update (\<lambda>_. b))) (counted 0 n w) = (u, w')"
    and res: "res = must_affect u"
    using assms(3) by (auto simp: ProviderService_SetEnabled_def gormIdentityProviderRepo_SetEnabled_def split: prod.splits)
  have only: "?P x \<longleftrightarrow> x = q" if "x \<in> set (rows IdentityProviders w)" for x
    using provider_unique [OF assms(1,2) that] by auto
  let ?now = "clock E (ticks w)"
  let ?v = "m_put IdentityProviders (table_update ?P (\<lambda>x. m_updated IdentityProviders ?now (x\<lparr>IdP_Enabled := b\<rparr>)) (m_table IdentityProviders (counted 0 n w))) (counted 0 n w)"
  have new: "rows IdentityProviders ?v = map (\<lambda>x. if x = q then q\<lparr>IdP_Enabled := b, IdP_UpdatedAt := ?now\<rparr> else x) (rows IdentityProviders w)"
    unfolding IdentityProviders.rows_update IdentityProviders.rows_counted using only by (auto simp: IdentityProviders_def)
  have "affected ?P (m_table IdentityProviders w) \<noteq> 0"
    using assms(2) by (auto simp: affected_def rows_def filter_empty_conv)
  then have runs: "db_fault E (db_calls w + n) = NoFault \<and> res = Inr () \<and> w' = counted 1 1 ?v
      \<or> db_fault E (db_calls w + n) = Refused \<and> res = Inl (ErrDB ConnectionFailed) \<and> w' = counted 1 (Suc n) w
      \<or> db_fault E (db_calls w + n) = LostReply \<and> w' = counted 1 1 ?v"
    using up by (cases "db_fault E (db_calls w + n)")
      (auto simp: res must_affect_def Update_def run_Now_counted IdentityProviders.run_sql gorm_update_def IdentityProviders.get_counted
        IdentityProviders.put_counted simp del: model_table_simps)
  then consider (ran) "res = Inr ()" "rows IdentityProviders w' = rows IdentityProviders ?v"
    | (refused) "res = Inl (ErrDB ConnectionFailed)" "db_fault E (db_calls w + n) = Refused" "rows IdentityProviders w' = rows IdentityProviders w"
    | (lost) "db_fault E (db_calls w + n) = LostReply" "rows IdentityProviders w' = rows IdentityProviders ?v"
    by (auto simp: IdentityProviders.rows_counted simp del: model_table_simps)
  then show thesis
  proof cases
    case ran
    with new show thesis by (intro that(2) [of ?now]) simp_all
  next
    case refused
    then have "db_fault E (db_calls w + n) \<noteq> NoFault" by simp
    with refused show thesis by (intro that(1)) blast+
  next
    case lost
    with new show thesis by (intro that(2) [of ?now]) auto
  qed
qed

lemma other_answers:
  "NotFound \<noteq> Redirect url n" "internal_error \<noteq> Redirect url n"
  "Redirect ''/admin/login'' n \<noteq> Redirect (''/admin/apps/'' @ i) m"
  by (simp_all add: NotFound_def internal_error_def Error_def Redirect_def hexEscapeNonASCII_append)

text \<open>What a request to switch does, once the application is known.\<close>

lemma switch_cases:
  assumes "world_ok (app_env A) w" and "run_state (find_provider A a name (\<lambda>q. do {
       switched \<leftarrow> ProviderService_SetEnabled (app_env A) (App_ID a) name (\<not> IdP_Enabled q);
       ret (case switched of Inl e \<Rightarrow> internal_error | Inr _ \<Rightarrow> ok)
     })) (counted 0 1 w) = (resp, w')"
  obtains (quiet) "rows IdentityProviders w' = rows IdentityProviders w" and "resp = internal_error \<or> resp = NotFound"
      and "(\<exists>k. db_fault (app_env A) k \<noteq> NoFault)
        \<or> (\<forall>q \<in> set (rows IdentityProviders w). \<not> (IdP_ApplicationID q = App_ID a \<and> IdP_Provider q = name))"
  | (switched) q now where "q \<in> set (rows IdentityProviders w)" and "IdP_ApplicationID q = App_ID a" and "IdP_Provider q = name"
      and "rows IdentityProviders w' =
         map (\<lambda>x. if x = q then q\<lparr>IdP_Enabled := \<not> IdP_Enabled q, IdP_UpdatedAt := now\<rparr> else x) (rows IdentityProviders w)"
      and "resp = ok \<or> resp = internal_error \<and> (\<exists>k. db_fault (app_env A) k = LostReply)"
  using assms(2)
proof (cases rule: find_providerE)
  case 1
  then show thesis by (intro quiet) (auto simp: IdentityProviders.rows_counted)
next
  case (2 q)
  let ?E = "app_env A"
  have q: "q \<in> set (rows IdentityProviders w)" using 2(1) by (simp add: IdentityProviders.rows_counted)
  obtain res where s: "run_state (ProviderService_SetEnabled ?E (App_ID a) name (\<not> IdP_Enabled q)) (counted 0 2 w) = (res, w')"
    and resp: "resp = (case res of Inl e \<Rightarrow> internal_error | Inr _ \<Rightarrow> ok)"
    using 2(4) by (auto simp: numeral_2_eq_2 split: prod.splits)
  from run_SetEnabled [OF assms(1) q s [folded 2(2,3)]] show thesis
  proof cases
    case 1
    with resp show thesis by (intro quiet) auto
  next
    case (2 now)
    with resp q \<open>IdP_ApplicationID q = App_ID a\<close> \<open>IdP_Provider q = name\<close> show thesis
      by (intro switched [of q now]) (auto split: sum.splits)
  qed
qed

text \<open>
  C35.  Switching a sign-in method.  A request to switch a provider is answered by going back to the
  application exactly when the provider has been switched; any other answer leaves all providers as they were, unless
  it is an internal error because the reply of the database was lost.  And if no statement fails, the request of an
  operator for a provider of a stored application is answered that way.
\<close>

theorem provider_toggle:
  assumes "world_ok (app_env A) w" and "run_state (providerToggleHandler A r) w = (resp, w')"
  defines "returned \<equiv> Redirect (''/admin/apps/'' @ PathValue r ''id'') StatusSeeOther"
  shows "(resp = returned \<longrightarrow> provider_switched A r w w')
    \<and> (resp \<noteq> returned \<longrightarrow> rows IdentityProviders w' = rows IdentityProviders w
         \<or> resp = internal_error \<and> (\<exists>k. db_fault (app_env A) k = LostReply) \<and> provider_switched A r w w')
    \<and> ((\<forall>k. db_fault (app_env A) k = NoFault) \<and> req_operator r \<noteq> None
         \<and> (\<exists>a q. a \<in> set (rows Applications w) \<and> 1 \<le> App_ID a \<and> ParseInt 64 (PathValue r ''id'') = Some (App_ID a)
              \<and> q \<in> set (rows IdentityProviders w) \<and> IdP_ApplicationID q = App_ID a
              \<and> IdP_Provider q = ToLower (app_env A) (PathValue r ''provider''))
         \<longrightarrow> resp = returned)"
proof (cases "\<exists>p a v. req_operator r = Some p \<and> run_state (loadApp A r) w = (Inr a, v)")
  case False
  then have quiet: "rows IdentityProviders w' = rows IdentityProviders w \<and> resp \<noteq> returned"
    using assms(2) other_answers
    by (auto simp: providerToggleHandler_def with_app_def with_operator_def OperatorFromContext_def run_loadApp rows_def returned_def
        split: option.splits if_splits sum.splits)
  have "run_state (loadApp A r) w = (Inr b, counted 0 1 w)"
    if "\<forall>k. db_fault (app_env A) k = NoFault" "b \<in> set (rows Applications w)" "1 \<le> App_ID b"
      "ParseInt 64 (PathValue r ''id'') = Some (App_ID b)" for b
    using that calm_application [OF assms(1) that(1,2)] by (simp add: run_loadApp)
  with False quiet show ?thesis by blast
next
  case True
  then obtain p a v where p: "req_operator r = Some p" and a: "run_state (loadApp A r) w = (Inr a, v)" by blast
  have v: "v = counted 0 1 w" "ParseInt 64 (PathValue r ''id'') = Some (App_ID a)"
    using a by (auto elim: loadAppE)
  have "run_state (find_provider A a (path_provider A r) (\<lambda>q. do {
       switched \<leftarrow> ProviderService_SetEnabled (app_env A) (App_ID a) (path_provider A r) (\<not> IdP_Enabled q);
       ret (case switched of Inl e \<Rightarrow> internal_error | Inr _ \<Rightarrow> returned)
     })) (counted 0 1 w) = (resp, w')"
    using assms(2) p a v(1) unfolding returned_def app_path_def [symmetric]
    by (simp add: providerToggleHandler_def with_app_def with_operator_def OperatorFromContext_def)
  from assms(1) this show ?thesis
  proof (cases rule: switch_cases)
    case quiet
    then show ?thesis
      using other_answers(1,2) [of "''/admin/apps/'' @ PathValue r ''id''" StatusSeeOther] v(2) unfolding returned_def path_provider_def by force
  next
    case (switched q now)
    then have "provider_switched A r w w'"
      using p v(2) unfolding provider_switched_def path_provider_def by blast
    with switched(5) show ?thesis by auto
  qed
qed

definition toggle_request :: request where
  "toggle_request = sample_request\<lparr>req_method := ''POST'', req_path := ''/admin/apps/1/providers/google/toggle'',
     req_escaped_path := ''/admin/apps/1/providers/google/toggle'',
     req_path_values := [(''id'', ''1''), (''provider'', ''google'')], req_operator := Some sample_operator\<rparr>"

definition toggle_world :: world where
  "toggle_world = empty_world
     \<lparr>applications := \<lparr>tbl_rows = [\<lparr>App_ID = 1, App_Name = ''Shop'', App_Description = [], App_FirstParty = True,
        App_AllowedScopes = [''openid''], App_CreatedAt = 0, App_UpdatedAt = 0\<rparr>], tbl_next = 2\<rparr>,
      identity_providers := \<lparr>tbl_rows = [\<lparr>IdP_ID = 1, IdP_ApplicationID = 1, IdP_Provider = ''google'', IdP_ClientID = ''c'',
        IdP_ClientSecretEncrypted = ''x'', IdP_Enabled = True, IdP_CreatedAt = 0, IdP_UpdatedAt = 0\<rparr>], tbl_next = 2\<rparr>\<rparr>"

theorem provider_toggle_witness:
  "\<exists>x. rows IdentityProviders (snd (run_state (providerToggleHandler sample_app toggle_request) toggle_world)) = [x] \<and> \<not> IdP_Enabled x"
proof -
  obtain resp w' where run: "run_state (providerToggleHandler sample_app toggle_request) toggle_world = (resp, w')" by fastforce
  have "world_ok (app_env sample_app) toggle_world"
    by (simp add: world_ok_def model_ok_def table_ok_def rows_def model_defs schema_defs has_row_def toggle_world_def empty_world_def
        empty_table_def)
  note toggle = provider_toggle [OF this run]
  have "Itoa 1 = ''1''" by code_simp
  with ParseInt_Itoa [of 1] have "ParseInt 64 ''1'' = Some 1" by simp
  moreover have "ToLower calm_env ''google'' = ''google''" by code_simp
  ultimately have "resp = Redirect (''/admin/apps/'' @ PathValue toggle_request ''id'') StatusSeeOther"
    using toggle by (auto simp: toggle_request_def toggle_world_def PathValue_def Get_def rows_def)
  with toggle obtain q now where q: "q \<in> set (rows IdentityProviders toggle_world)"
    "rows IdentityProviders w' = map (\<lambda>x. if x = q then q\<lparr>IdP_Enabled := \<not> IdP_Enabled q, IdP_UpdatedAt := now\<rparr> else x)
       (rows IdentityProviders toggle_world)"
    unfolding provider_switched_def by blast
  then have "rows IdentityProviders w' = [q\<lparr>IdP_Enabled := \<not> IdP_Enabled q, IdP_UpdatedAt := now\<rparr>]" "IdP_Enabled q"
    by (simp_all add: toggle_world_def rows_def)
  with run show ?thesis by simp
qed

end
