(* ===== verification/Footprint.thy ===== *)
theory Footprint
  imports Upstream_Flow Admin_Providers
begin

text \<open>
  Which tables an operation may write.  Every handler of the server has a footprint; what is outside it
  has the same rows afterwards, whatever fails on the way.
\<close>

section \<open>Footprints\<close>

datatype table_name = TUsers | TSessions | TOperators | TOperatorSessions | TApplications | TIdentityProviders
  | TUserIdentities | TOAuthClients | TCodes

definition same_but :: "table_name set \<Rightarrow> world \<Rightarrow> world \<Rightarrow> bool" where
  "same_but T w w' \<longleftrightarrow>
     (TUsers \<in> T \<or> tbl_rows (users w') = tbl_rows (users w)) \<and>
     (TSessions \<in> T \<or> tbl_rows (sessions w') = tbl_rows (sessions w)) \<and>
     (TOperators \<in> T \<or> tbl_rows (operators w') = tbl_rows (operators w)) \<and>
     (TOperatorSessions \<in> T \<or> tbl_rows (operator_sessions w') = tbl_rows (operator_sessions w)) \<and>
     (TApplications \<in> T \<or> tbl_rows (applications w') = tbl_rows (applications w)) \<and>
     (TIdentityProviders \<in> T \<or> tbl_rows (identity_providers w') = tbl_rows (identity_providers w)) \<and>
     (TUserIdentities \<in> T \<or> tbl_rows (user_identities w') = tbl_rows (user_identities w)) \<and>
     (TOAuthClients \<in> T \<or> tbl_rows (oauth_clients w') = tbl_rows (oauth_clients w)) \<and>
     (TCodes \<in> T \<or> tbl_rows (codes w') = tbl_rows (codes w))"

lemma same_but_refl [simp]: "same_but T w w"
  by (simp add: same_but_def)

lemma same_or_trans: "b \<or> y = x \<Longrightarrow> b \<or> z = y \<Longrightarrow> b \<or> z = x"
  by auto

lemma same_but_trans: "same_but T u v \<Longrightarrow> same_but T v w \<Longrightarrow> same_but T u w"
  unfolding same_but_def by (elim conjE) (intro conjI; erule (1) same_or_trans)

lemma same_but_mono: "same_but T u v \<Longrightarrow> T \<subseteq> T' \<Longrightarrow> same_but T' u v"
  unfolding same_but_def by blast

lemma same_but_counted [simp]:
  "same_but T w (counted a b v) = same_but T w v" "same_but T (counted a b w) v = same_but T w v"
  by (simp_all add: same_but_def)

lemma same_but_counters [simp]:
  "same_but T w (v\<lparr>ticks := n\<rparr>) = same_but T w v" "same_but T w (v\<lparr>db_calls := n\<rparr>) = same_but T w v"
  "same_but T w (v\<lparr>entropy_reads := n\<rparr>) = same_but T w v" "same_but T w (v\<lparr>net_calls := n\<rparr>) = same_but T w v"
  "same_but T w (login_dummy_update f v) = same_but T w v" "same_but T (w\<lparr>db_calls := n\<rparr>) v = same_but T w v"
  by (simp_all add: same_but_def)

lemma same_but_rows:
  assumes "same_but T w w'"
  shows "TUsers \<notin> T \<Longrightarrow> rows (Users E) w' = rows (Users E) w" "TSessions \<notin> T \<Longrightarrow> rows Sessions w' = rows Sessions w"
    "TOperators \<notin> T \<Longrightarrow> rows (Operators E) w' = rows (Operators E) w"
    "TOperatorSessions \<notin> T \<Longrightarrow> rows OperatorSessions w' = rows OperatorSessions w"
    "TApplications \<notin> T \<Longrightarrow> rows Applications w' = rows Applications w"
    "TIdentityProviders \<notin> T \<Longrightarrow> rows IdentityProviders w' = rows IdentityProviders w"
    "TUserIdentities \<notin> T \<Longrightarrow> rows UserIdentities w' = rows UserIdentities w"
    "TOAuthClients \<notin> T \<Longrightarrow> rows OAuthClients w' = rows OAuthClients w" "TCodes \<notin> T \<Longrightarrow> rows Codes w' = rows Codes w"
  using assms by (simp_all add: same_but_def rows_def)

definition writes :: "table_name set \<Rightarrow> (world, 'a) state \<Rightarrow> bool" where
  "writes T m \<longleftrightarrow> (\<forall>w. same_but T w (snd (run_state m w)))"

named_theorems writes_intros \<open>operations with their footprints\<close>

lemma writesI: "(\<And>w. same_but T w (snd (run_state m w))) \<Longrightarrow> writes T m"
  by (simp add: writes_def)

lemma writesD: "writes T m \<Longrightarrow> run_state m w = (a, w') \<Longrightarrow> same_but T w w'"
  by (metis snd_conv writes_def)

lemma writes_mono: "writes T m \<Longrightarrow> T \<subseteq> T' \<Longrightarrow> writes T' m"
  unfolding writes_def using same_but_mono by blast

section \<open>Combining operations\<close>

lemma writes_ret [writes_intros]: "writes T (ret x)"
  by (simp add: writes_def)

lemma writes_bind [writes_intros]:
  assumes "writes T m" and "\<And>a. writes T (f a)"
  shows "writes T (m \<bind> f)"
proof (rule writesI)
  fix w
  obtain a v where "run_state m w = (a, v)" by fastforce
  with assms have "same_but T w v" "same_but T v (snd (run_state (f a) v))"
    and "run_state (m \<bind> f) w = run_state (f a) v"
    by (auto simp: writes_def dest: writesD [OF assms(1)])
  then show "same_but T w (snd (run_state (m \<bind> f) w))" using same_but_trans by metis
qed

lemma writes_if [writes_intros]: "writes T m \<Longrightarrow> writes T n \<Longrightarrow> writes T (if b then m else n)"
  by simp

lemma writes_sum [writes_intros]:
  "(\<And>e. writes T (f e)) \<Longrightarrow> (\<And>a. writes T (g a)) \<Longrightarrow> writes T (case r of Inl e \<Rightarrow> f e | Inr a \<Rightarrow> g a)"
  by (cases r) auto

lemma writes_option [writes_intros]:
  "writes T n \<Longrightarrow> (\<And>a. writes T (g a)) \<Longrightarrow> writes T (case r of None \<Rightarrow> n | Some a \<Rightarrow> g a)"
  by (cases r) auto

lemma writes_prod [writes_intros]: "(\<And>a b. writes T (f a b)) \<Longrightarrow> writes T (case p of (a, b) \<Rightarrow> f a b)"
  by (cases p) auto

lemma writes_let [writes_intros]: "writes T (f x) \<Longrightarrow> writes T (let y = x in f y)"
  by simp

lemma writes_sources [writes_intros]:
  "writes T (Now E)" "writes T (RandRead E n)" "writes T (http_Do E req)" "writes T (verify_id_token E c token)"
  "writes T State_Monad.get" "writes T (State_Monad.update (login_dummy_update f))"
  by (simp_all add: writes_def run_Now run_RandRead http_Do_def verify_id_token_def State_Monad.get_def
      State_Monad.update_def State_Monad.set_def)

section \<open>Statements\<close>

lemma writes_sql:
  assumes "\<And>w. same_but T w (snd (f w))"
  shows "writes T (sql E f)"
proof (rule writesI)
  fix w
  have "same_but T w (snd (f (w\<lparr>db_calls := Suc (db_calls w)\<rparr>)))"
    using assms [of "w\<lparr>db_calls := Suc (db_calls w)\<rparr>"] by simp
  then show "same_but T w (snd (run_state (sql E f) w))"
    by (simp add: sql_def Let_def split: fault.splits)
qed

lemma writes_reads [writes_intros]: "writes T (First E M P)" "writes T (Find E M P)" "writes T (Count E M)"
  unfolding First_def Find_def Count_def by (intro writes_sql; simp)+

text \<open>The table a model writes to.\<close>

definition writes_table :: "table_name set \<Rightarrow> 'r model \<Rightarrow> bool" where
  "writes_table T M \<longleftrightarrow> (\<forall>t w. same_but T w (m_put M t w))"

lemma writes_tables [writes_intros]:
  "TUsers \<in> T \<Longrightarrow> writes_table T (Users E)" "TSessions \<in> T \<Longrightarrow> writes_table T Sessions"
  "TOperators \<in> T \<Longrightarrow> writes_table T (Operators E)" "TOperatorSessions \<in> T \<Longrightarrow> writes_table T OperatorSessions"
  "TApplications \<in> T \<Longrightarrow> writes_table T Applications" "TIdentityProviders \<in> T \<Longrightarrow> writes_table T IdentityProviders"
  "TUserIdentities \<in> T \<Longrightarrow> writes_table T UserIdentities" "TOAuthClients \<in> T \<Longrightarrow> writes_table T OAuthClients"
  "TCodes \<in> T \<Longrightarrow> writes_table T Codes"
  by (simp_all add: writes_table_def same_but_def)

lemma writes_put: "writes_table T M \<Longrightarrow> same_but T w (m_put M t w)"
  by (simp add: writes_table_def)

lemma writes_statements [writes_intros]:
  assumes "writes_table T M"
  shows "writes T (Create E M r)" "writes T (Update E M P g)" "writes T (Updates E M i r)" "writes T (Delete E M P)"
  unfolding Create_def Update_def Updates_def Delete_def
  by (intro writes_bind writes_sources writes_sql;
      simp add: gorm_insert_def gorm_updates_def gorm_update_def Let_def writes_put [OF assms] split: prod.splits)+

lemma same_but_rollback: "same_but T w0 w \<Longrightarrow> same_but T w0 (rollback w0 w)"
  by (simp add: same_but_def)

lemma writes_Transaction [writes_intros]:
  assumes "writes T body"
  shows "writes T (Transaction E body)"
proof (rule writesI)
  fix w :: world
  let ?w = "w\<lparr>db_calls := Suc (db_calls w)\<rparr>"
  obtain r v where body: "run_state body ?w = (r, v)" by fastforce
  from writesD [OF assms body] have v: "same_but T w v" by simp
  then have "same_but T ?w u \<Longrightarrow> same_but T w (rollback ?w u)" for u
    using same_but_rollback [of T ?w u] by simp
  from this [of v] this [of "v\<lparr>db_calls := Suc (db_calls v)\<rparr>"] v body show "same_but T w (snd (run_state (Transaction E body) w))"
    by (simp add: Transaction_def sql_def Let_def split: fault.splits sum.splits)
qed

section \<open>Repositories\<close>

lemma writes_readers [writes_intros]:
  "writes T (gormUserRepo_GetByEmail E email)" "writes T (gormUserRepo_GetByID E i)"
  "writes T (gormClientRepo_GetByID E i)" "writes T (gormClientRepo_GetByClientID E cid)"
  "writes T (gormClientRepo_List E)" "writes T (gormClientRepo_ListByApplicationID E i)"
  "writes T (gormApplicationRepo_GetByID E i)" "writes T (gormApplicationRepo_List E)"
  "writes T (gormOperatorRepo_GetByEmail E email)" "writes T (gormOperatorRepo_GetByID E i)" "writes T (gormOperatorRepo_Count E)"
  "writes T (gormIdentityProviderRepo_GetByApplicationAndProvider E i p)"
  "writes T (gormUserIdentityRepo_GetByProviderSubject E p sub)" "writes T (gormCodeRepo_GetByCodeHash E h)"
  "writes T (gormSessionRepo_GetByTokenHash E h)" "writes T (gormOperatorSessionRepo_GetByTokenHash E h)"
  unfolding gormUserRepo_GetByEmail_def gormUserRepo_GetByID_def gormClientRepo_GetByID_def gormClientRepo_GetByClientID_def
    gormClientRepo_List_def gormClientRepo_ListByApplicationID_def gormApplicationRepo_GetByID_def gormApplicationRepo_List_def
    gormOperatorRepo_GetByEmail_def gormOperatorRepo_GetByID_def gormOperatorRepo_Count_def
    gormIdentityProviderRepo_GetByApplicationAndProvider_def gormUserIdentityRepo_GetByProviderSubject_def
    gormCodeRepo_GetByCodeHash_def gormSessionRepo_GetByTokenHash_def gormOperatorSessionRepo_GetByTokenHash_def
  by (intro writes_intros)+

lemma writes_provider_list [writes_intros]: "writes T (gormIdentityProviderRepo_ListByApplicationID E i)"
  unfolding gormIdentityProviderRepo_ListByApplicationID_def by (intro writes_sql) simp

lemma writes_session_repos [writes_intros]:
  "TSessions \<in> T \<Longrightarrow> writes T (gormSessionRepo_Create E s)" "TSessions \<in> T \<Longrightarrow> writes T (gormSessionRepo_DeleteInactive E)"
  "TOperatorSessions \<in> T \<Longrightarrow> writes T (gormOperatorSessionRepo_Create E p)"
  "TOperatorSessions \<in> T \<Longrightarrow> writes T (gormOperatorSessionRepo_Revoke E i)"
  "TOperatorSessions \<in> T \<Longrightarrow> writes T (gormOperatorSessionRepo_DeleteInactive E)"
  unfolding gormSessionRepo_Create_def gormSessionRepo_DeleteInactive_def gormOperatorSessionRepo_Create_def
    gormOperatorSessionRepo_Revoke_def gormOperatorSessionRepo_DeleteInactive_def
  by (intro writes_intros; assumption)+

lemma writes_upsert: "TIdentityProviders \<in> T \<Longrightarrow> same_but T w (snd (idp_upsert p w))"
  using writes_tables(6) [of T]
  by (simp add: idp_upsert_def gorm_insert_def same_but_def Let_def split: prod.splits option.splits)

lemma writes_other_repos [writes_intros]:
  "TOperators \<in> T \<Longrightarrow> writes T (gormOperatorRepo_CreateFirstOperator E q)"
  "TIdentityProviders \<in> T \<Longrightarrow> writes T (gormIdentityProviderRepo_Upsert E p)"
  "TIdentityProviders \<in> T \<Longrightarrow> writes T (gormIdentityProviderRepo_SetEnabled E i pr b)"
  "TIdentityProviders \<in> T \<Longrightarrow> writes T (gormIdentityProviderRepo_Delete E i pr)"
  "TUserIdentities \<in> T \<Longrightarrow> writes T (gormUserIdentityRepo_Create E x)"
  "TUsers \<in> T \<Longrightarrow> TUserIdentities \<in> T \<Longrightarrow> writes T (gormUserIdentityRepo_CreateWithUser E u x)"
  "TCodes \<in> T \<Longrightarrow> writes T (gormCodeRepo_Create E c)" "TCodes \<in> T \<Longrightarrow> writes T (gormCodeRepo_Consume E i)"
  "TApplications \<in> T \<Longrightarrow> writes T (gormApplicationRepo_Update E a)"
  "TApplications \<in> T \<Longrightarrow> TOAuthClients \<in> T \<Longrightarrow> writes T (gormApplicationRepo_CreateWithClient E a cl)"
  "TOAuthClients \<in> T \<Longrightarrow> writes T (gormClientRepo_Create E cl)"
  unfolding gormOperatorRepo_CreateFirstOperator_def advisory_xact_lock_def gormIdentityProviderRepo_Upsert_def
    gormIdentityProviderRepo_SetEnabled_def gormIdentityProviderRepo_Delete_def gormUserIdentityRepo_Create_def
    gormUserIdentityRepo_CreateWithUser_def gormCodeRepo_Create_def gormCodeRepo_Consume_def gormApplicationRepo_Update_def
    gormApplicationRepo_CreateWithClient_def gormClientRepo_Create_def
  by (intro writes_intros writes_sql; simp add: writes_upsert)+

section \<open>Services\<close>

lemma writes_managers [writes_intros]:
  "TSessions \<in> T \<Longrightarrow> writes T (Manager_Create E c i)" "writes T (Manager_Validate E token)"
  "TSessions \<in> T \<Longrightarrow> writes T (Manager_DeleteInactive E)"
  "TOperatorSessions \<in> T \<Longrightarrow> writes T (OperatorManager_Create E c i)" "writes T (OperatorManager_Validate E token)"
  "TOperatorSessions \<in> T \<Longrightarrow> writes T (OperatorManager_Revoke E i)"
  "TOperatorSessions \<in> T \<Longrightarrow> writes T (OperatorManager_DeleteInactive E)"
  unfolding Manager_Create_def Manager_Validate_def Manager_DeleteInactive_def OperatorManager_Create_def
    OperatorManager_Validate_def OperatorManager_Revoke_def OperatorManager_DeleteInactive_def
  by (intro writes_intros; assumption)+

lemma writes_generators [writes_intros]:
  "writes T (Box_Encrypt E b p)" "writes T (GenerateAuthorizationCode E)" "writes T (GenerateAccessToken E)" "writes T (Issue E i q)"
  "writes T (HashPassword E password params)" "writes T (verifyDummy E password)"
  "writes T (VerifyOperatorWithEmailAndPassword E email password)"
  "writes T (Client_Exchange E c code codeVerifier)"
  unfolding Box_Encrypt_def GenerateAuthorizationCode_def GenerateAccessToken_def Issue_def VerifyOperatorWithEmailAndPassword_def
    verifyDummy_def HashPassword_def Client_Exchange_def Client_exchangeOIDC_def Client_exchangeGitHub_def github_address_def
    Client_postForm_def Client_getJSON_def Let_def
  by (intro writes_intros)+

lemma writes_buildClient [writes_intros]: "writes T (buildClient E input)"
  unfolding buildClient_def generateClientID_def generateClientSecret_def Let_def by (intro writes_intros)

lemma writes_AppService [writes_intros]:
  "TApplications \<in> T \<Longrightarrow> TOAuthClients \<in> T \<Longrightarrow> writes T (AppService_RegisterApp E input)"
  "TApplications \<in> T \<Longrightarrow> writes T (AppService_UpdateApp E a meta)"
  "TOAuthClients \<in> T \<Longrightarrow> writes T (AppService_CreateClient E i cinput)"
  unfolding AppService_RegisterApp_def buildRegistration_def AppService_UpdateApp_def AppService_CreateClient_def Let_def
  by (intro writes_intros; assumption)+

lemma writes_ProviderService [writes_intros]:
  "TIdentityProviders \<in> T \<Longrightarrow> writes T (ProviderService_Upsert E box i input)"
  "writes T (ProviderService_Get E box i p)" "writes T (ProviderService_List E i)"
  "TIdentityProviders \<in> T \<Longrightarrow> writes T (ProviderService_SetEnabled E i p b)"
  "TIdentityProviders \<in> T \<Longrightarrow> writes T (ProviderService_Delete E i p)"
  "TUsers \<in> T \<Longrightarrow> TUserIdentities \<in> T \<Longrightarrow> writes T (ProviderService_ProvisionUser E ident)"
  unfolding ProviderService_Upsert_def provider_secret_def ProviderService_Get_def ProviderService_List_def
    ProviderService_SetEnabled_def ProviderService_Delete_def ProviderService_ProvisionUser_def
    link_identity_def create_from_identity_def randomSubject_def Let_def
  by (intro writes_intros; assumption)+

section \<open>Handlers\<close>

lemma writes_protocol_handlers:
  "writes {TCodes} (authorizeHandler A r)" "writes {TCodes} (tokenHandler A r)"
  unfolding authorizeHandler_def authorize_client_def authorize_application_def authorize_prompt_def authorize_issue_def
    promptsForApp_def storeAuthorizeRequest_def tokenHandler_def token_client_def token_code_def token_consume_def
    token_answer_def token_id_token_def Let_def
  by (intro writes_intros; simp)+

lemma writes_upstream_handlers:
  "writes {} (upstreamStartHandler A r)" "writes {TUsers, TUserIdentities, TSessions} (upstreamCallbackHandler A r)"
  unfolding upstreamStartHandler_def upstream_application_def upstream_provider_def upstream_redirect_def upstream_secrets_def
    setUpstreamStateCookie_def upstreamCallbackHandler_def upstream_pending_def upstream_complete_def upstream_finish_def Let_def
  by (intro writes_intros; simp)+

lemma writes_operator_handlers:
  "writes {} (operatorLoginPageHandler r)" "writes {TOperatorSessions} (operatorLoginHandler A r)"
  "writes {TOperatorSessions} (operatorLogoutHandler A r)" "writes {} (setupPageHandler A r)"
  "writes {TOperators, TOperatorSessions} (setupHandler A r)"
  unfolding operatorLoginPageHandler_def operatorLoginHandler_def start_operator_session_def operatorLogoutHandler_def
    setupPageHandler_def setupHandler_def setupAvailable_def setup_create_def Let_def
  by (intro writes_intros; simp)+

lemma writes_public_handlers:
  "writes {} (healthHandler A r)" "writes {} (jwksHandler A r)" "writes {} (discoveryHandler A r)"
  unfolding healthHandler_def Ping_def jwksHandler_def discoveryHandler_def
  by (intro writes_intros writes_sql; simp)+

lemma writes_with_operator [writes_intros]: "(\<And>p. writes T (serve p)) \<Longrightarrow> writes T (with_operator r serve)"
  unfolding with_operator_def by (intro writes_intros)

lemma writes_with_app [writes_intros]: "(\<And>p a. writes T (serve p a)) \<Longrightarrow> writes T (with_app A r serve)"
  unfolding with_app_def loadApp_def by (intro writes_intros)

lemma writes_find_provider [writes_intros]: "(\<And>p. writes T (found p)) \<Longrightarrow> writes T (find_provider A a provider found)"
  unfolding find_provider_def by (intro writes_intros)

lemma writes_app_pages:
  "writes {} (dashboardHandler A r)" "writes {} (appListHandler A r)" "writes {} (appNewHandler A r)"
  "writes {TApplications, TOAuthClients} (appCreateHandler A r)" "writes {} (appDetailHandler A r)" "writes {} (appEditHandler A r)"
  "writes {TApplications} (appUpdateHandler A r)" "writes {} (clientNewHandler A r)"
  "writes {TOAuthClients} (clientCreateHandler A r)" "writes {} (clientDetailHandler A r)"
  unfolding dashboardHandler_def dashboardData_def appListHandler_def apps_and_clients_def appNewHandler_def appCreateHandler_def
    appDetailHandler_def appEditHandler_def appUpdateHandler_def clientNewHandler_def clientCreateHandler_def
    clientDetailHandler_def client_detail_def Let_def
  by (intro writes_intros; simp)+

lemma writes_provider_pages:
  "writes {} (providerNewHandler A r)" "writes {TIdentityProviders} (providerSaveHandler A r)"
  "writes {} (providerEditHandler A r)" "writes {TIdentityProviders} (providerToggleHandler A r)"
  "writes {TIdentityProviders} (providerDeleteHandler A r)"
  unfolding providerNewHandler_def providerSaveHandler_def providerEditHandler_def providerToggleHandler_def
    providerDeleteHandler_def Let_def
  by (intro writes_intros; simp)+

end
