(* ===== verification/Token_Ledger.thy ===== *)
theory Token_Ledger
  imports Interleaving Footprint
begin

text \<open>
  What the token endpoint promises, as an abstract machine over grants, and the refinement: every step that
  concurrent requests take through the handler (internal/token.go, with the repository of codes) is a step of
  this machine or is invisible to it.
\<close>

section \<open>The machine\<close>

text \<open>A grant is what a code stands for: the row without the columns that redeeming changes.\<close>

definition grant_of :: "authorization_code \<Rightarrow> authorization_code" where
  "grant_of c = c\<lparr>Code_ConsumedAt := None, Code_UpdatedAt := zero_time\<rparr>"

text \<open>
  An exchange has begun, is known to come from a client, has redeemed a grant, is refused, or has been answered
  with tokens for a grant.
\<close>

datatype exchange =
    Pending
  | Authenticated oauth_client
  | Holding authorization_code
  | Denied
  | Tokens "authorization_code option"

record ledger =
  registered :: "oauth_client set"
  open_grants :: "authorization_code set"
  spent_grants :: "authorization_code set"
  exchanges :: "(request \<times> exchange) list"

text \<open>The request names the redirect URI of the grant and meets its PKCE challenge.\<close>

definition entitled :: "request \<Rightarrow> authorization_code \<Rightarrow> bool" where
  "entitled r g \<longleftrightarrow> Code_RedirectURI g = FormValue r ''redirect_uri''
     \<and> VerifyPKCE (Code_CodeChallenge g) (FormValue r ''code_verifier'') (Code_CodeChallengeMethod g)"

definition proceed :: "nat \<Rightarrow> request \<Rightarrow> exchange \<Rightarrow> ledger \<Rightarrow> ledger" where
  "proceed i r x L = L\<lparr>exchanges := (exchanges L)[i := (r, x)]\<rparr>"

definition spend :: "authorization_code \<Rightarrow> ledger \<Rightarrow> ledger" where
  "spend g L = L\<lparr>open_grants := open_grants L - {g}, spent_grants := insert g (spent_grants L)\<rparr>"

inductive ledger_step :: "ledger \<Rightarrow> ledger \<Rightarrow> bool" where
  submit: "ledger_step L (L\<lparr>exchanges := exchanges L @ [(r, Pending)]\<rparr>)"
| authenticate: "i < length (exchanges L) \<Longrightarrow> exchanges L ! i = (r, Pending) \<Longrightarrow> client \<in> registered L
    \<Longrightarrow> (IsConfidential client \<Longrightarrow> secret_shown r client) \<Longrightarrow> ledger_step L (proceed i r (Authenticated client) L)"
| redeem: "i < length (exchanges L) \<Longrightarrow> exchanges L ! i = (r, Authenticated client) \<Longrightarrow> g \<in> open_grants L
    \<Longrightarrow> Code_CodeHash g = Sum256 (FormValue r ''code'') \<Longrightarrow> Code_OAuthClientID g = Client_ID client
    \<Longrightarrow> x = Holding g \<or> x = Denied \<Longrightarrow> ledger_step L (proceed i r x (spend g L))"
| refuse: "i < length (exchanges L) \<Longrightarrow> exchanges L ! i \<in> {(r, Pending), (r, Authenticated client), (r, Holding g)}
    \<Longrightarrow> ledger_step L (proceed i r Denied L)"
| tokens: "i < length (exchanges L) \<Longrightarrow> exchanges L ! i = (r, Holding g) \<Longrightarrow> entitled r g
    \<Longrightarrow> ledger_step L (proceed i r (Tokens (Some g)) L)"
| others: "spent_grants L \<subseteq> S \<Longrightarrow> open_grants L \<union> spent_grants L \<subseteq> N \<union> S \<Longrightarrow> N \<inter> S = {}
    \<Longrightarrow> ledger_step L (L\<lparr>registered := R, open_grants := N, spent_grants := S\<rparr>)"

inductive ledger_reachable :: "ledger \<Rightarrow> bool" where
  init: "exchanges L = [] \<Longrightarrow> open_grants L \<inter> spent_grants L = {} \<Longrightarrow> ledger_reachable L"
| step: "ledger_reachable L \<Longrightarrow> ledger_step L L' \<Longrightarrow> ledger_reachable L'"

section \<open>What the machine guarantees\<close>

fun held :: "exchange \<Rightarrow> authorization_code option" where
  "held (Holding g) = Some g"
| "held (Tokens g) = g"
| "held _ = None"

definition holds_at :: "ledger \<Rightarrow> nat \<Rightarrow> authorization_code \<Rightarrow> bool" where
  "holds_at L i g \<longleftrightarrow> i < length (exchanges L) \<and> held (snd (exchanges L ! i)) = Some g"

definition ledger_ok :: "ledger \<Rightarrow> bool" where
  "ledger_ok L \<longleftrightarrow> open_grants L \<inter> spent_grants L = {}
     \<and> (\<forall>i g. holds_at L i g \<longrightarrow> g \<in> spent_grants L) \<and> (\<forall>i j g. holds_at L i g \<longrightarrow> holds_at L j g \<longrightarrow> j = i)"

lemma ledger_okD:
  assumes "ledger_ok L"
  shows "open_grants L \<inter> spent_grants L = {}" and "holds_at L i g \<Longrightarrow> g \<in> spent_grants L"
    and "holds_at L i g \<Longrightarrow> holds_at L j g \<Longrightarrow> j = i"
  using assms unfolding ledger_ok_def by blast+

lemma holds_at_proceed:
  "holds_at (proceed i r x L) j g \<longleftrightarrow> (if j = i then i < length (exchanges L) \<and> held x = Some g else holds_at L j g)"
  by (auto simp: holds_at_def proceed_def)

lemma ledger_ok_proceed:
  assumes "ledger_ok L" and "\<And>g. held x = Some g \<Longrightarrow> g \<in> spent_grants L \<and> (\<forall>j. holds_at L j g \<longrightarrow> j = i)"
  shows "ledger_ok (proceed i r x L)"
proof -
  have "open_grants (proceed i r x L) = open_grants L" "spent_grants (proceed i r x L) = spent_grants L"
    by (simp_all add: proceed_def)
  moreover have "g \<in> spent_grants L" if "holds_at (proceed i r x L) j g" for j g
    using that unfolding holds_at_proceed using ledger_okD(2) [OF assms(1)] assms(2) by (cases "j = i") simp_all
  moreover have "k = j" if j: "holds_at (proceed i r x L) j g" and k: "holds_at (proceed i r x L) k g" for j k g
  proof (cases "j = i")
    case True
    with j k assms(2) [of g] show ?thesis by (cases "k = i") (simp_all add: holds_at_proceed)
  next
    case False
    with j k assms(2) [of g] ledger_okD(3) [OF assms(1), of j g k] show ?thesis
      by (cases "k = i") (simp_all add: holds_at_proceed)
  qed
  ultimately show ?thesis
    using ledger_okD(1) [OF assms(1)] by (simp add: ledger_ok_def)
qed

lemma ledger_ok_same_exchanges:
  assumes "ledger_ok L" and "exchanges L' = exchanges L" and "spent_grants L \<subseteq> spent_grants L'"
    and "open_grants L' \<inter> spent_grants L' = {}"
  shows "ledger_ok L'"
proof -
  have "holds_at L' i g = holds_at L i g" for i g by (simp add: holds_at_def assms(2))
  with ledger_okD [OF assms(1)] assms(3,4) show ?thesis unfolding ledger_ok_def by blast
qed

lemma ledger_step_ok:
  assumes "ledger_step L L'" and "ledger_ok L"
  shows "ledger_ok L'"
  using assms(1)
proof (cases rule: ledger_step.cases)
  case (submit r)
  have "holds_at L' i g \<longleftrightarrow> holds_at L i g" for i g
    by (auto simp: holds_at_def submit nth_append less_Suc_eq)
  moreover have "open_grants L' = open_grants L" "spent_grants L' = spent_grants L" by (simp_all add: submit)
  ultimately show ?thesis using assms(2) by (simp add: ledger_ok_def)
next
  case (authenticate i r client)
  show ?thesis unfolding authenticate(1) using assms(2) by (rule ledger_ok_proceed) simp
next
  case (redeem i r client g x)
  have spend: "exchanges (spend g L) = exchanges L" "spent_grants (spend g L) = insert g (spent_grants L)"
    "open_grants (spend g L) = open_grants L - {g}"
    by (simp_all add: spend_def)
  have "ledger_ok (spend g L)"
    using assms(2) by (rule ledger_ok_same_exchanges) (use ledger_okD(1) [OF assms(2)] spend in auto)
  moreover have "\<not> holds_at L j g" for j
    using redeem(4) ledger_okD(1,2) [OF assms(2)] by blast
  ultimately show ?thesis
    unfolding redeem(1) using redeem(7) by (intro ledger_ok_proceed) (auto simp: spend holds_at_def)
next
  case (refuse i r client g)
  show ?thesis unfolding refuse(1) using assms(2) by (rule ledger_ok_proceed) simp
next
  case (tokens i r g)
  then have "holds_at L i g" by (simp add: holds_at_def)
  with ledger_okD(2,3) [OF assms(2)] show ?thesis
    unfolding tokens(1) by (intro ledger_ok_proceed assms(2)) fastforce
next
  case (others S N R)
  show ?thesis using assms(2) by (rule ledger_ok_same_exchanges) (simp_all add: others)
qed

lemma ledger_reachable_ok: "ledger_reachable L \<Longrightarrow> ledger_ok L"
proof (induction rule: ledger_reachable.induct)
  case (init L)
  then show ?case by (simp add: ledger_ok_def holds_at_def)
qed (rule ledger_step_ok)

section \<open>The map from the system\<close>

fun exchange_of :: "thread \<Rightarrow> exchange" where
  "exchange_of Arrived = Pending"
| "exchange_of (Client_loaded _ client) = Authenticated client"
| "exchange_of (Code_loaded _ client _) = Authenticated client"
| "exchange_of (Code_consumed _ _ c) = Holding (grant_of c)"
| "exchange_of (Answered resp g) =
     (case resp_body resp of TokenJSON _ \<Rightarrow> Tokens (map_option grant_of g) | _ \<Rightarrow> Denied)"

definition grants :: "bool \<Rightarrow> world \<Rightarrow> authorization_code set" where
  "grants consumed w = grant_of ` {c \<in> set (rows Codes w). IsConsumed c = consumed}"

definition ledger_of :: "system \<Rightarrow> ledger" where
  "ledger_of s = \<lparr>registered = set (rows OAuthClients (fst s)), open_grants = grants False (fst s), spent_grants = grants True (fst s),
     exchanges = map (\<lambda>(r, th). (r, exchange_of th)) (snd s)\<rparr>"

lemma same_grant_iff: "same_grant c d \<longleftrightarrow> grant_of c = grant_of d"
  by (cases c; cases d) (auto simp: same_grant_def grant_of_def)

lemma grant_of_columns [simp]:
  "Code_ID (grant_of c) = Code_ID c" "Code_CodeHash (grant_of c) = Code_CodeHash c"
  "Code_OAuthClientID (grant_of c) = Code_OAuthClientID c" "Code_RedirectURI (grant_of c) = Code_RedirectURI c"
  "Code_CodeChallenge (grant_of c) = Code_CodeChallenge c" "Code_CodeChallengeMethod (grant_of c) = Code_CodeChallengeMethod c"
  by (simp_all add: grant_of_def)

lemma grants_disjoint:
  assumes "world_ok E w"
  shows "grants False w \<inter> grants True w = {}"
proof -
  have "c = d" if "c \<in> set (rows Codes w)" "d \<in> set (rows Codes w)" "grant_of c = grant_of d" for c d
    using codes_unique_id [OF assms, of c c d d] that grant_of_columns(1) [of c] by (simp add: stored_as_def)
  then show ?thesis by (auto simp: grants_def)
qed

lemma grants_evolve:
  assumes "codes_evolve w w'"
  shows "grants True w \<subseteq> grants True w'" and "grants False w \<union> grants True w \<subseteq> grants False w' \<union> grants True w'"
proof -
  have "\<exists>d \<in> set (rows Codes w'). grant_of c = grant_of d \<and> (IsConsumed c \<longrightarrow> IsConsumed d)" if "c \<in> set (rows Codes w)" for c
    using assms that unfolding codes_evolve_def same_grant_iff IsConsumed_def by metis
  then show "grants True w \<subseteq> grants True w'" "grants False w \<union> grants True w \<subseteq> grants False w' \<union> grants True w'"
    by (fastforce simp: grants_def image_iff)+
qed

lemma grants_rows: "rows Codes w' = rows Codes w \<Longrightarrow> grants b w' = grants b w"
  by (simp add: grants_def)

text \<open>What a consumption does to the grants.\<close>

lemma grants_consume:
  assumes "world_ok E0 w" and "run_state (gormCodeRepo_Consume E i) w = (res, w')"
    and "c \<in> set (rows Codes w)" and "Code_ID c = i"
  shows "rows Codes w' = rows Codes w \<and> res \<noteq> Inr ()
    \<or> \<not> IsConsumed c \<and> grants False w' = grants False w - {grant_of c} \<and> grants True w' = insert (grant_of c) (grants True w)"
  using assms(2)
proof (cases rule: ConsumeE)
  case 1
  then show ?thesis by auto
next
  case 2
  have unique: "d = c" if "d \<in> set (rows Codes w)" "Code_ID d = i" for d
    using codes_unique_id [OF assms(1), of c c d d] that assms(3,4) by (simp add: stored_as_def)
  let ?t = "clock E (ticks w)"
  show ?thesis
  proof (cases "consumable i ?t c")
    case False
    with unique have none: "\<not> consumable i ?t d" if "d \<in> set (rows Codes w)" for d
      using that by (auto simp: consumable_def)
    then have "rows Codes w' = rows Codes w" unfolding 2(1) by (intro map_idI) simp
    moreover have "\<not> list_ex (consumable i ?t) (rows Codes w)" using none by (auto simp: list_ex_iff)
    ultimately show ?thesis using 2(2) by blast
  next
    case True
    let ?d = "consume_row (clock E (ticks w + 1)) (clock E (ticks w + 2)) c"
    have only: "consumable i ?t d \<longleftrightarrow> d = c" if "d \<in> set (rows Codes w)" for d
      using that unique [of d] True by (auto simp: consumable_def)
    have rows: "set (rows Codes w') = insert ?d (set (rows Codes w) - {c})"
      unfolding 2(1) set_map using only assms(3) by (auto simp: image_iff)
    have d: "grant_of ?d = grant_of c" "IsConsumed ?d" "\<not> IsConsumed c"
      using True by (auto simp: grant_of_def consume_row_def consumable_def IsConsumed_def)
    have apart: "grant_of e \<noteq> grant_of c" if "e \<in> set (rows Codes w)" "e \<noteq> c" for e
      using unique [of e] that assms(4) by (metis grant_of_columns(1))
    have "{x \<in> set (rows Codes w'). IsConsumed x = False} = {x \<in> set (rows Codes w). IsConsumed x = False} - {c}"
      "{x \<in> set (rows Codes w'). IsConsumed x = True} = insert ?d {x \<in> set (rows Codes w). IsConsumed x = True}"
      unfolding rows using d(2,3) by auto
    moreover from apart have "grant_of ` ({x \<in> set (rows Codes w). IsConsumed x = False} - {c})
        = grant_of ` {x \<in> set (rows Codes w). IsConsumed x = False} - {grant_of c}"
      by auto
    ultimately show ?thesis
      using d(1,3) by (simp add: grants_def)
  qed
qed

section \<open>What a thread knows of its code\<close>

fun thread_client :: "thread \<Rightarrow> bool" where
  "thread_client (Code_loaded p client c) = (Code_OAuthClientID c = Client_ID client)"
| "thread_client _ = True"

lemma token_step_client:
  assumes "run_state (token_step A r th) w = (th', w')" and "thread_client th"
  shows "thread_client th'"
  using assms by (cases th) (auto simp: token_step_def token_code_InrD(3) split: sum.splits option.splits prod.splits)

lemma sys_reachable_client:
  assumes "sys_reachable A s"
  shows "\<forall>(r, th) \<in> set (snd s). thread_client th"
  using assms
proof (induction rule: sys_reachable.induct)
  case (step s s')
  from step.hyps(2) show ?case
  proof (cases rule: sys_step.cases)
    case (arrive w ts r)
    with step.IH show ?thesis by auto
  next
    case (advance i ts r th w th' w')
    with step.IH have "thread_client th" using nth_mem [of i ts] by force
    with token_step_client [OF advance(5)] have "thread_client th'" by blast
    with advance(1,2) step.IH show ?thesis by (auto dest!: set_update_subset_insert [THEN subsetD])
  next
    case (other w w' ts)
    with step.IH show ?thesis by simp
  qed
qed simp

section \<open>The refinement\<close>

abbreviation simulates :: "ledger \<Rightarrow> ledger \<Rightarrow> bool" where
  "simulates L L' \<equiv> L' = L \<or> ledger_step L L'"

lemma ledger_of_simps [simp]:
  "registered (ledger_of s) = set (rows OAuthClients (fst s))" "open_grants (ledger_of s) = grants False (fst s)" "spent_grants (ledger_of s) = grants True (fst s)"
  "length (exchanges (ledger_of s)) = length (snd s)"
  by (simp_all add: ledger_of_def)

lemma exchange_at: "i < length ts \<Longrightarrow> ts ! i = (r, th) \<Longrightarrow> exchanges (ledger_of (w, ts)) ! i = (r, exchange_of th)"
  by (simp add: ledger_of_def)

lemma ledger_of_advance:
  assumes "\<And>b. grants b w' = grants b w" and "rows OAuthClients w' = rows OAuthClients w"
  shows "ledger_of (w', ts[i := (r, th)]) = proceed i r (exchange_of th) (ledger_of (w, ts))"
  using assms by (simp add: ledger_of_def proceed_def map_update)

lemma ledger_of_spend:
  assumes "grants False w' = grants False w - {g}" and "grants True w' = insert g (grants True w)"
    and "rows OAuthClients w' = rows OAuthClients w"
  shows "ledger_of (w', ts[i := (r, th)]) = proceed i r (exchange_of th) (spend g (ledger_of (w, ts)))"
  using assms by (simp add: ledger_of_def proceed_def spend_def map_update)

lemma proceed_same: "exchanges L ! i = (r, x) \<Longrightarrow> proceed i r x L = L"
  by (metis (no_types, lifting) ledger.surjective ledger.update_convs(4) list_update_id proceed_def)

lemma writes_token_parts:
  "writes {TCodes} (token_client A r p)" "writes {TCodes} (token_code A p client)"
  "writes {TCodes} (token_consume A c)" "writes {TCodes} (token_answer A p client c)"
  unfolding token_client_def token_code_def token_consume_def token_answer_def token_id_token_def Let_def
  by (intro writes_intros; simp)+

lemma writes_token_step: "writes {TCodes} (token_step A r th)"
  unfolding token_step_def
  by (cases th; simp only: thread.case; intro writes_intros writes_token_parts)

lemma token_step_clients: "run_state (token_step A r th) w = (th', w') \<Longrightarrow> rows OAuthClients w' = rows OAuthClients w"
  by (drule writesD [OF writes_token_step]) (simp add: same_but_rows)

text \<open>A step that leaves the codes alone and its exchange as it is, or denies it.\<close>

lemma simulates_quiet:
  assumes "i < length ts" and "ts ! i = (r, th)" and "rows Codes w' = rows Codes w" and "rows OAuthClients w' = rows OAuthClients w"
    and "exchange_of th' = exchange_of th \<or> exchange_of th' = Denied \<and> exchange_of th \<in> {Pending, Authenticated client, Holding g}"
  shows "simulates (ledger_of (w, ts)) (ledger_of (w', ts[i := (r, th')]))"
proof -
  have g: "grants b w' = grants b w" for b using assms(3) by (rule grants_rows)
  show ?thesis
    using assms(5) ledger_step.refuse [of i "ledger_of (w, ts)" r client g] exchange_at [OF assms(1,2), of w] assms(1)
    unfolding ledger_of_advance [of w' w, OF g assms(4)] by (auto simp: proceed_same)
qed

lemma token_answer_exchange:
  assumes "run_state (token_answer A p client c) w = (resp, w')" and "token_form r = Inr p"
  shows "exchange_of (Answered resp (Some c)) = Denied \<or> exchange_of (Answered resp (Some c)) = Tokens (Some (grant_of c)) \<and> entitled r (grant_of c)"
proof (cases "resp_body resp")
  case (TokenJSON t)
  from assms(1) TokenJSON have "entitled r (grant_of c)"
    by (rule token_answer_tokens) (use token_form_params [OF assms(2)] in \<open>simp add: entitled_def\<close>)
  with TokenJSON show ?thesis by simp
qed simp_all

lemma arrived_simulates:
  assumes i: "i < length ts" "ts ! i = (r, Arrived)" and run: "run_state (token_step A r Arrived) w = (th', w')"
  shows "simulates (ledger_of (w, ts)) (ledger_of (w', ts[i := (r, th')]))"
proof -
  note clients = token_step_clients [OF run]
  have codes: "rows Codes w' = rows Codes w"
    using run token_client_codes [of A r _ w] by (auto simp: token_step_def rows_def split: sum.splits prod.splits) (metis snd_conv)+
  consider "exchange_of th' = Denied"
    | p client where "th' = Client_loaded p client" "token_form r = Inr p" "run_state (token_client A r p) w = (Inr client, w')"
    using run token_form_InlD token_client_InlD by (auto simp: token_step_def split: sum.splits prod.splits body.splits)
  then show ?thesis
  proof cases
    case 1
    with i codes clients show ?thesis by (intro simulates_quiet) auto
  next
    case 2
    have secret: "IsConfidential client \<Longrightarrow> secret_shown r client"
      using token_client_InrD(3) [OF 2(3)] client_authenticated_secret [OF 2(2)] by blast
    have "ledger_step (ledger_of (w, ts)) (proceed i r (Authenticated client) (ledger_of (w, ts)))"
      using i exchange_at [OF i, of w] token_client_InrD(1) [OF 2(3)] secret by (intro ledger_step.authenticate) simp_all
    then show ?thesis
      using 2(1) ledger_of_advance [OF grants_rows [OF codes] clients, of ts i r th'] by simp
  qed
qed

lemma client_loaded_simulates:
  assumes i: "i < length ts" "ts ! i = (r, Client_loaded p client)" and run: "run_state (token_step A r (Client_loaded p client)) w = (th', w')"
  shows "simulates (ledger_of (w, ts)) (ledger_of (w', ts[i := (r, th')]))"
proof -
  have "rows Codes w' = rows Codes w"
    using run token_code_codes [of A p client w] by (auto simp: token_step_def rows_def split: prod.splits)
  moreover have "exchange_of th' = Authenticated client \<or> exchange_of th' = Denied"
    using run token_code_InlD by (auto simp: token_step_def split: sum.splits prod.splits body.splits)
  ultimately show ?thesis
    using i token_step_clients [OF run] by (intro simulates_quiet [where client = client]) auto
qed

lemma consume_simulates:
  assumes ok: "sys_ok A (w, ts)" and cl: "Code_OAuthClientID c = Client_ID client"
    and i: "i < length ts" "ts ! i = (r, Code_loaded p client c)"
    and run: "run_state (token_step A r (Code_loaded p client c)) w = (th', w')"
  shows "simulates (ledger_of (w, ts)) (ledger_of (w', ts[i := (r, th')]))"
proof -
  let ?L = "ledger_of (w, ts)"
  obtain res where con: "run_state (gormCodeRepo_Consume (app_env A) (Code_ID c)) w = (res, w')"
    and th': "th' = (case res of Inl e \<Rightarrow> Answered (invalid_grant ''Authorization code is invalid'') None | Inr _ \<Rightarrow> Code_consumed p client c)"
    using run by (auto simp: token_step_def token_consume_def split: prod.splits sum.splits)
  have x: "exchange_of th' = Holding (grant_of c) \<or> exchange_of th' = Denied" "exchange_of th' = Denied \<longleftrightarrow> res \<noteq> Inr ()"
    by (cases res; simp add: th' token_error_defs)+
  have "thread_ok w r (Code_loaded p client c)"
    using sys_okD(2) [OF ok i(1)] i(2) by simp
  then obtain d where d: "d \<in> set (rows Codes w)" "grant_of d = grant_of c" and hash: "Code_CodeHash c = Sum256 (FormValue r ''code'')"
    by (auto simp: thread_ok_def stored_as_def same_grant_iff)
  then have "Code_ID d = Code_ID c" by (metis grant_of_columns(1))
  from grants_consume [OF sys_okD(1) [OF ok] con d(1) this] show ?thesis
  proof
    assume "rows Codes w' = rows Codes w \<and> res \<noteq> Inr ()"
    then show ?thesis using i x token_step_clients [OF run] by (intro simulates_quiet [where client = client]) auto
  next
    assume *: "\<not> IsConsumed d \<and> grants False w' = grants False w - {grant_of d} \<and> grants True w' = insert (grant_of d) (grants True w)"
    then have "grant_of c \<in> open_grants ?L"
      using d by (auto simp: grants_def image_iff)
    then have "ledger_step ?L (proceed i r (exchange_of th') (spend (grant_of c) ?L))"
      using i x(1) cl hash exchange_at [OF i, of w] by (intro ledger_step.redeem [where client = client]) simp_all
    then show ?thesis
      using * ledger_of_spend [of w' w "grant_of c" ts i r th'] token_step_clients [OF run] d(2) by simp
  qed
qed

lemma advance_simulates:
  assumes ok: "sys_ok A (w, ts)" and cl: "thread_client th"
    and i: "i < length ts" "ts ! i = (r, th)" and run: "run_state (token_step A r th) w = (th', w')"
  shows "simulates (ledger_of (w, ts)) (ledger_of (w', ts[i := (r, th')]))"
proof (cases th)
  case Arrived
  with i run show ?thesis using arrived_simulates by simp
next
  case (Client_loaded p client)
  with i run show ?thesis using client_loaded_simulates by simp
next
  case (Code_loaded p client c)
  with cl i run show ?thesis by (intro consume_simulates [OF ok]) simp_all
next
  case (Code_consumed p client c)
  then obtain resp where ans: "run_state (token_answer A p client c) w = (resp, w')" and th': "th' = Answered resp (Some c)"
    using run by (auto simp: token_step_def split: prod.splits)
  note clients = token_step_clients [OF run]
  have same: "rows Codes w' = rows Codes w"
    using token_answer_codes [of A p client c w] ans by (simp add: rows_def)
  have "token_form r = Inr p"
    using thread_okD(1) [OF sys_okD(2) [OF ok i(1)]] i(2) Code_consumed by (simp add: params_ok_def)
  from token_answer_exchange [OF ans this] show ?thesis
  proof
    assume "exchange_of (Answered resp (Some c)) = Denied"
    with same i clients show ?thesis unfolding th' by (intro simulates_quiet [where g = "grant_of c"]) (auto simp: Code_consumed simp del: exchange_of.simps(5))
  next
    assume x: "exchange_of (Answered resp (Some c)) = Tokens (Some (grant_of c)) \<and> entitled r (grant_of c)"
    have "exchanges (ledger_of (w, ts)) ! i = (r, Holding (grant_of c))"
      using exchange_at [OF i] Code_consumed by simp
    with x i(1) have "ledger_step (ledger_of (w, ts)) (proceed i r (Tokens (Some (grant_of c))) (ledger_of (w, ts)))"
      by (intro ledger_step.tokens) simp_all
    then show ?thesis
      unfolding th' using x ledger_of_advance [OF grants_rows [OF same] clients, of ts i r "Answered resp (Some c)"] by simp
  qed
next
  case (Answered resp g)
  with run have "th' = th" "w' = w" by (simp_all add: token_step_def)
  then show ?thesis using simulates_quiet [OF i, of w w th] by simp
qed

lemma other_simulates:
  assumes "codes_evolve w w'" and "world_ok E w'"
  shows "ledger_step (ledger_of (w, ts)) (ledger_of (w', ts))"
proof -
  have "ledger_of (w', ts) = (ledger_of (w, ts))\<lparr>registered := set (rows OAuthClients w'), open_grants := grants False w', spent_grants := grants True w'\<rparr>"
    by (simp add: ledger_of_def)
  then show ?thesis
    using ledger_step.others [of "ledger_of (w, ts)" "grants True w'" "grants False w'" "set (rows OAuthClients w')"] grants_evolve [OF assms(1)]
      grants_disjoint [OF assms(2)]
    by simp
qed

lemma arrive_simulates: "ledger_step (ledger_of (w, ts)) (ledger_of (w, ts @ [(r, Arrived)]))"
  using ledger_step.submit [of "ledger_of (w, ts)" r] by (simp add: ledger_of_def)

lemma sys_step_simulates:
  assumes "sys_reachable A s" and "sys_step A s s'"
  shows "simulates (ledger_of s) (ledger_of s')"
  using assms(2)
proof (cases rule: sys_step.cases)
  case (arrive w ts r)
  then show ?thesis using arrive_simulates by simp
next
  case (advance i ts r th w th' w')
  have "thread_client th"
    using sys_reachable_client [OF assms(1)] advance(1,3,4) nth_mem [of i ts] by force
  then show ?thesis
    using advance sys_reachable_ok [OF assms(1)] advance_simulates by simp
next
  case (other w w' ts)
  then show ?thesis using other_simulates by blast
qed

lemma sys_reachable_ledger: "sys_reachable A s \<Longrightarrow> ledger_reachable (ledger_of s)"
proof (induction rule: sys_reachable.induct)
  case (init w)
  then show ?case
    using grants_disjoint [OF init] by (intro ledger_reachable.init) (simp_all add: ledger_of_def)
next
  case (step s s')
  from sys_step_simulates [OF step.hyps] show ?case
    using step.IH ledger_reachable.step by metis
qed

section \<open>Properties\<close>

text \<open>
  C16.  The token endpoint implements the ledger of grants.  Whatever steps concurrent token requests take in
  whatever order, and whatever else happens to the codes and to the database in between, each step is invisible to
  the ledger or one of its steps: an exchange gets on only for a client that is registered at that moment and whose
  secret the request shows, if the client has one; a grant is taken by one exchange, of its client and with its
  code, and is then spent for good; tokens are given only in an exchange that took the grant and names its redirect
  URI and a verifier of its PKCE challenge.  So a reachable state is one of the ledger, where no two exchanges hold
  or were given tokens for one grant.
\<close>

theorem token_endpoint_implements_ledger:
  assumes "sys_reachable A s" and "sys_step A s s'"
  shows "ledger_reachable (ledger_of s) \<and> (ledger_of s' = ledger_of s \<or> ledger_step (ledger_of s) (ledger_of s')) \<and> ledger_ok (ledger_of s')"
  using sys_step_simulates [OF assms] sys_reachable_ledger [OF assms(1)]
    ledger_reachable_ok [OF sys_reachable_ledger [OF sys_reachable.step [OF assms]]]
  by blast

text \<open>A request of the sample client takes the grant of the sample code.\<close>

theorem token_endpoint_implements_ledger_witness:
  "\<exists>s s'. sys_reachable sample_app s \<and> sys_step sample_app s s' \<and> ledger_step (ledger_of s) (ledger_of s') \<and> grant_of sample_code \<in> open_grants (ledger_of s)
     \<and> exchanges (ledger_of s') = [(exchange_request sample_verifier, Holding (grant_of sample_code))]"
proof -
  let ?r = "exchange_request sample_verifier"
  have "sample_verifier \<noteq> []" by (simp add: sample_verifier_def)
  from run_exchange_consume [OF this] obtain w1 w2 w3 p
    where form: "token_form ?r = Inr p"
    and parts: "run_state (token_client sample_app ?r p) grant_world = (Inr sample_client, w1)"
      "run_state (token_code sample_app p sample_client) w1 = (Inr sample_code, w2)"
      "run_state (token_consume sample_app sample_code) w2 = (None, w3)"
    by blast
  have "sys_reachable sample_app (grant_world, [])"
    using sys_reachable.init [of sample_app grant_world] grant_world_ok by simp
  from sys_reachable.step [OF this sys_step.arrive [of _ _ _ ?r]]
  have 0: "sys_reachable sample_app (grant_world, [(?r, Arrived)])" by simp
  have go: "run_state (token_step sample_app ?r th) w = (th', w') \<Longrightarrow> sys_step sample_app (w, [(?r, th)]) (w', [(?r, th')])" for th w th' w'
    using sys_step.advance [of 0 "[(?r, th)]" ?r th sample_app w th' w'] by simp
  have 1: "sys_reachable sample_app (w1, [(?r, Client_loaded p sample_client)])"
    using form parts(1) by (intro sys_reachable.step [OF 0] go) (simp add: token_step_def)
  have 2: "sys_reachable sample_app (w2, [(?r, Code_loaded p sample_client sample_code)])"
    using parts(2) by (intro sys_reachable.step [OF 1] go) (simp add: token_step_def)
  let ?s = "(w2, [(?r, Code_loaded p sample_client sample_code)])" and ?s' = "(w3, [(?r, Code_consumed p sample_client sample_code)])"
  have "sys_step sample_app ?s ?s'"
    using parts(3) by (intro go) (simp add: token_step_def)
  note go' = this
  from token_endpoint_implements_ledger [OF 2 this]
  have sim: "ledger_of ?s' = ledger_of ?s \<or> ledger_step (ledger_of ?s) (ledger_of ?s')" by blast
  have "exchanges (ledger_of ?s) = [(?r, Authenticated sample_client)]" and x: "exchanges (ledger_of ?s') = [(?r, Holding (grant_of sample_code))]"
    by (simp_all add: ledger_of_def)
  then have "ledger_of ?s' \<noteq> ledger_of ?s" by auto
  with sim have step: "ledger_step (ledger_of ?s) (ledger_of ?s')" by blast
  have "rows Codes w2 = [sample_code]"
    using token_client_codes [of sample_app ?r p grant_world] token_code_codes [of sample_app p sample_client w1] parts
    by (simp add: rows_def grant_world_def)
  then have "grant_of sample_code \<in> open_grants (ledger_of ?s)"
    by (simp add: grants_def IsConsumed_def) (simp add: sample_code_def)
  with 2 go' step x show ?thesis by blast
qed

end
