(* ===== verification/Code_Flow.thy ===== *)
theory Code_Flow
  imports Authorize
begin

text \<open>
  The authorization code flow from end to end: a code the authorization endpoint has issued is
  redeemed at the token endpoint.  The lemmas say when each part of the token handler succeeds.
\<close>

section \<open>An outside world in which nothing fails\<close>

definition calm :: "app \<Rightarrow> bool" where
  "calm A \<longleftrightarrow> (\<forall>k. db_fault (app_env A) k = NoFault) \<and> (\<forall>k n. \<exists>b. entropy (app_env A) k n = Some b \<and> length b = n)
     \<and> (\<forall>p. \<exists>t. Issuer_sign (app_idTokens A) p = Inr t)"

lemma calm_lookup:
  assumes "calm A" and "r \<in> set (rows M w)" and "P r" and "\<And>s. s \<in> set (rows M w) \<Longrightarrow> P s \<Longrightarrow> s = r"
  shows "lookup (app_env A) M P w = Inr r"
  using find_unique [where P = P and x = r and xs = "rows M w", OF assms(2,3) assms(4)] assms(1)
  by (simp add: lookup_def calm_def)

lemma client_unique:
  assumes "world_ok E w" and "c \<in> set (rows OAuthClients w)" and "d \<in> set (rows OAuthClients w)"
    and "Client_ClientID c = Client_ClientID d"
  shows "c = d"
proof -
  have "table_ok oauth_clients_schema (oauth_clients w)"
    using world_ok_models(8) [OF assms(1)] by (simp add: model_ok_def OAuthClients_def)
  then show ?thesis
    using assms(2-4) by (intro oauth_clients_tbl.table_ok_clash) (simp_all add: rows_def oauth_clients_schema_def)
qed

lemma code_unique:
  assumes "world_ok E w" and "c \<in> set (rows Codes w)" and "d \<in> set (rows Codes w)" and "Code_CodeHash c = Code_CodeHash d"
  shows "c = d"
proof -
  have "table_ok codes_schema (codes w)"
    using world_ok_models(9) [OF assms(1)] by (simp add: model_ok_def Codes_def)
  then show ?thesis
    using assms(2-4) by (intro codes_tbl.table_ok_clash) (simp_all add: rows_def codes_schema_def)
qed

lemma code_has_user:
  assumes "world_ok E w" and "c \<in> set (rows Codes w)"
  shows "\<exists>u. find (\<lambda>u. User_ID u = Code_UserID c) (rows (Users E) w) = Some u"
proof -
  have "has_row User_ID (users w) (Code_UserID c)"
    using world_ok_models(9) [OF assms(1)] assms(2) by (simp add: model_ok_def Codes_def codes_schema_def)
  then show ?thesis
    by (cases "find (\<lambda>u. User_ID u = Code_UserID c) (rows (Users E) w)") (auto simp: has_row_iff find_None_iff rows_def Users_def)
qed

section \<open>When each part of the token handler succeeds\<close>

lemma token_client_succeeds:
  assumes "calm A" and "world_ok (app_env A) w" and "client \<in> set (rows OAuthClients w)"
    and "Client_ClientID client = Tok_ClientID p" and "authenticateTokenClient r client p = None"
  shows "run_state (token_client A r p) w = (Inr client, counted 0 1 w)"
proof -
  have "lookup (app_env A) OAuthClients (\<lambda>c. Client_ClientID c = Tok_ClientID p) w = Inr client"
    using assms(1,3,4) client_unique [OF assms(2)] by (intro calm_lookup) simp_all
  with assms(5) show ?thesis by (simp add: run_token_client)
qed

lemma token_code_succeeds:
  assumes "calm A" and "world_ok (app_env A) w" and "c \<in> set (rows Codes w)"
    and "Code_CodeHash c = Sum256 (Tok_Code p)" and "Code_OAuthClientID c = Client_ID client"
    and "Code_ConsumedAt c = None" and "clock (app_env A) (ticks w) \<le> Code_ExpiresAt c"
  shows "run_state (token_code A p client) w = (Inr c, counted 1 1 w)"
proof -
  have "lookup (app_env A) Codes (\<lambda>c. Code_CodeHash c = HashAuthorizationCode (Tok_Code p)) w = Inr c"
    using assms(1,3,4) code_unique [OF assms(2)] by (intro calm_lookup) (simp_all add: HashAuthorizationCode_def)
  with assms(5-7) show ?thesis
    by (simp add: token_code_def run_lookups run_Now_counted)
qed

lemma token_consume_succeeds:
  assumes "calm A" and "c \<in> set (rows Codes w)" and "Code_ConsumedAt c = None"
    and "clock (app_env A) (ticks w) < Code_ExpiresAt c"
  shows "\<exists>w'. run_state (token_consume A c) w = (None, w') \<and> users w' = users w \<and> entropy_reads w' = entropy_reads w"
proof -
  have "filter (\<lambda>d. Code_ID d = Code_ID c \<and> Code_ConsumedAt d = None \<and> clock (app_env A) (ticks w) < Code_ExpiresAt d) (rows Codes w) \<noteq> []"
    using assms(2-4) by (auto simp: filter_empty_conv)
  then show ?thesis
    using assms(1)
    by (simp add: token_consume_def gormCodeRepo_Consume_def run_Now Update_def sql_def gorm_update_def affected_def
        must_affect_def Let_def calm_def rows_def)
qed

lemma token_answer_succeeds:
  assumes "calm A" and "Code_RedirectURI c = Tok_RedirectURI p"
    and "VerifyPKCE (Code_CodeChallenge c) (Tok_CodeVerifier p) (Code_CodeChallengeMethod c)"
    and "find (\<lambda>u. User_ID u = Code_UserID c) (rows (Users (app_env A)) w) = Some u"
  shows "\<exists>t w'. run_state (token_answer A p client c) w = (writeTokenResponse t, w')"
proof -
  obtain b where b: "entropy (app_env A) (entropy_reads w) 32 = Some b"
    using assms(1) unfolding calm_def by blast
  have user: "lookup (app_env A) (Users (app_env A)) (\<lambda>u. User_ID u = Code_UserID c) (w\<lparr>entropy_reads := n\<rparr>) = Inr u" for n
    using assms(1,4) by (simp add: lookup_def calm_def)
  have "\<exists>t w'. run_state (token_id_token A client c) (w\<lparr>entropy_reads := n\<rparr>) = (Inr t, w')" for n
  proof (cases "Code_CreatedAt c = zero_time")
    case True
    with assms(1) user show ?thesis
      by (simp add: token_id_token_def run_lookups run_Now run_Issue calm_def) (metis old.sum.simps(6))
  next
    case False
    with assms(1) user show ?thesis
      by (simp add: token_id_token_def run_lookups run_Issue calm_def) (metis old.sum.simps(6))
  qed
  then obtain t w' where "run_state (token_id_token A client c) (w\<lparr>entropy_reads := Suc (entropy_reads w)\<rparr>) = (Inr t, w')"
    by blast
  with assms(2,3) b show ?thesis
    by (auto simp: token_answer_def run_Generate Let_def)
qed

lemma world_ok_counted: "world_ok E (counted a b w) = world_ok E w"
  by (simp add: world_ok_def Users.model_ok_counted Sessions.model_ok_counted Operators.model_ok_counted
      OperatorSessions.model_ok_counted Applications.model_ok_counted IdentityProviders.model_ok_counted
      UserIdentities.model_ok_counted OAuthClients.model_ok_counted Codes.model_ok_counted)

lemma tokenHandler_succeeds:
  assumes "calm A" and "world_ok (app_env A) w" and "token_form r = Inr p"
    and "client \<in> set (rows OAuthClients w)" and "Client_ClientID client = Tok_ClientID p"
    and "authenticateTokenClient r client p = None"
    and "c \<in> set (rows Codes w)" and "Code_CodeHash c = Sum256 (Tok_Code p)" and "Code_OAuthClientID c = Client_ID client"
    and "Code_ConsumedAt c = None" and "clock (app_env A) (ticks w) \<le> Code_ExpiresAt c"
    and "clock (app_env A) (Suc (ticks w)) < Code_ExpiresAt c"
    and "Code_RedirectURI c = Tok_RedirectURI p"
    and "VerifyPKCE (Code_CodeChallenge c) (Tok_CodeVerifier p) (Code_CodeChallengeMethod c)"
  shows "\<exists>t w'. run_state (tokenHandler A r) w = (writeTokenResponse t, w')"
proof -
  note 1 = token_client_succeeds [OF assms(1,2,4,5,6)]
  have 2: "run_state (token_code A p client) (counted 0 1 w) = (Inr c, counted 1 2 w)"
    using token_code_succeeds [of A "counted 0 1 w" c p client] assms(1,2,7-11)
      world_ok_counted by (simp add: numeral_2_eq_2)
  obtain w3 where 3: "run_state (token_consume A c) (counted 1 2 w) = (None, w3)" and users: "users w3 = users w"
    using token_consume_succeeds [of A c "counted 1 2 w"] assms(1,7,10,12) by auto
  obtain u where "find (\<lambda>u. User_ID u = Code_UserID c) (rows (Users (app_env A)) w) = Some u"
    using code_has_user [OF assms(2,7)] by blast
  then have "find (\<lambda>u. User_ID u = Code_UserID c) (rows (Users (app_env A)) w3) = Some u"
    using users by (simp add: rows_def)
  from token_answer_succeeds [OF assms(1,13,14) this] obtain t w' where
    "run_state (token_answer A p client c) w3 = (writeTokenResponse t, w')" by blast
  with 1 2 3 assms(3) show ?thesis by (auto simp: tokenHandler_def)
qed

section \<open>Properties\<close>

lemma authorize_success_code:
  assumes "Parse E (Req_RedirectURI req) = Some u"
  shows "\<exists>u'. authorize_success E req raw = Redirect (url_String u') StatusFound \<and> u' = u\<lparr>URL_RawQuery := URL_RawQuery u'\<rparr>
    \<and> Get (Query (URL_RawQuery u')) ''code'' = raw \<and> Get (Query (URL_RawQuery u')) ''state'' = Req_State req"
  using assms by (auto simp: authorize_success_def Let_def Get_Query_Encode)

text \<open>
  C9.  The authorization code flow works.  When a request to the authorization endpoint has stored a code,
  the browser is sent back with that code and the request's state; and when the client then presents the
  code in time with the same redirect URI, a PKCE verifier of a legal length for the request's challenge
  and its credentials, the token endpoint answers with tokens, provided no database statement, random read
  or signature fails.
\<close>

theorem authorization_code_flow:
  assumes "calm A" and "world_ok (app_env A) w"
    and "run_state (authorizeHandler A r) w = (resp, w1)" and "rows Codes w1 = rows Codes w @ [c]"
    and "Parse (app_env A) (Get (URL_Query r) ''redirect_uri'') = Some u"
    and "clock (app_env A) (ticks w1) < clock (app_env A) (ticks w) + 60 * Second"
    and "clock (app_env A) (Suc (ticks w1)) < clock (app_env A) (ticks w) + 60 * Second"
  shows "\<exists>target raw. resp = Redirect (url_String target) StatusFound \<and> Get (Query (URL_RawQuery target)) ''code'' = raw
    \<and> Get (Query (URL_RawQuery target)) ''state'' = Get (URL_Query r) ''state'' \<and> length raw = 43
    \<and> (\<forall>r' p. token_form r' = Inr p \<and> Tok_Code p = raw \<and> Tok_ClientID p = Get (URL_Query r) ''client_id''
        \<and> Tok_RedirectURI p = Get (URL_Query r) ''redirect_uri''
        \<and> PKCEChallenge (Tok_CodeVerifier p) = Get (URL_Query r) ''code_challenge''
        \<and> 43 \<le> length (Tok_CodeVerifier p) \<and> length (Tok_CodeVerifier p) \<le> 128
        \<and> (\<forall>client \<in> set (rows OAuthClients w). Client_ClientID client = Tok_ClientID p \<longrightarrow> authenticateTokenClient r' client p = None)
        \<longrightarrow> (\<exists>t w2. run_state (tokenHandler A r') w1 = (writeTokenResponse t, w2)))"
  using assms(3)
proof (cases rule: authorizeHandlerE)
  case (issued client application user b d)
  let ?E = "app_env A" and ?req = "ParseAuthorizeRequest (URL_Query r)" and ?raw = "RawURLEncode b"
  have [simp]: "d = c" using issued(10) assms(4) by simp
  have resp: "resp = authorize_success ?E ?req ?raw"
    using issued(12) assms(1) by (auto simp: calm_def)
  have "Parse ?E (Req_RedirectURI ?req) = Some u" using assms(5) by (simp add: ParseAuthorizeRequest_def)
  from authorize_success_code [OF this, of ?raw] obtain target where
    target: "resp = Redirect (url_String target) StatusFound" "Get (Query (URL_RawQuery target)) ''code'' = ?raw"
      "Get (Query (URL_RawQuery target)) ''state'' = Get (URL_Query r) ''state''"
    using resp by (auto simp: ParseAuthorizeRequest_def)
  have ok: "world_ok ?E w1"
    using sound_world_ok [OF sound_authorizeHandler assms(2), of r] assms(3) by simp
  have clients: "rows OAuthClients w1 = rows OAuthClients w"
    using keepsD [OF authorize_keeps [of "\<lambda>v. rows OAuthClients v = rows OAuthClients w"] assms(3)]
    by (simp add: rows_def about_others_def)
  have "\<exists>b'. entropy ?E (entropy_reads w) 32 = Some b' \<and> length b' = 32"
    using assms(1) unfolding calm_def by blast
  with issued(9) have len: "length ?raw = 43" by (auto intro: b64_encode_32)
  note code = issued(11) [unfolded code_for_def, simplified]
  have "\<exists>t w2. run_state (tokenHandler A r') w1 = (writeTokenResponse t, w2)"
    if p: "token_form r' = Inr p" "Tok_Code p = ?raw" "Tok_ClientID p = Get (URL_Query r) ''client_id''"
      "Tok_RedirectURI p = Get (URL_Query r) ''redirect_uri''"
      "PKCEChallenge (Tok_CodeVerifier p) = Get (URL_Query r) ''code_challenge''"
      "43 \<le> length (Tok_CodeVerifier p)" "length (Tok_CodeVerifier p) \<le> 128"
      "\<forall>client \<in> set (rows OAuthClients w). Client_ClientID client = Tok_ClientID p \<longrightarrow> authenticateTokenClient r' client p = None"
    for r' p
  proof (rule tokenHandler_succeeds [OF assms(1) ok p(1)])
    show "client \<in> set (rows OAuthClients w1)" using issued(1) clients by simp
    show cid: "Client_ClientID client = Tok_ClientID p" using issued(2) p(3) by (simp add: ParseAuthorizeRequest_def)
    show "authenticateTokenClient r' client p = None" using p(8) issued(1) cid by blast
    show "c \<in> set (rows Codes w1)" by (simp add: assms(4))
    have "Code_CodeChallengeMethod c = ''S256''"
      using issued(4) code by (auto simp: Validate_def split: if_splits)
    then show "VerifyPKCE (Code_CodeChallenge c) (Tok_CodeVerifier p) (Code_CodeChallengeMethod c)"
      using code p(5-7) by (simp add: VerifyPKCE_iff ParseAuthorizeRequest_def)
  qed (use code p assms(6,7) in \<open>simp_all add: ParseAuthorizeRequest_def\<close>)
  with target len show ?thesis by blast
qed (use assms(4) in auto)

definition redeem_sample :: "string \<Rightarrow> request" where
  "redeem_sample raw = sample_request\<lparr>req_method := ''POST'', req_path := ''/token'',
     req_post_form := [(''grant_type'', ''authorization_code''), (''code'', raw),
       (''redirect_uri'', ''https://app/cb''), (''code_verifier'', sample_verifier), (''client_id'', ''cid'')]\<rparr>"

lemma redeem_form:
  assumes "raw \<noteq> []"
  shows "token_form (redeem_sample raw) = Inr
     \<lparr>Tok_Code = raw, Tok_RedirectURI = ''https://app/cb'', Tok_CodeVerifier = sample_verifier,
      Tok_ClientID = ''cid'', Tok_BasicClientID = [], Tok_BasicSecret = [], Tok_HasBasic = False\<rparr>"
proof -
  have "sample_verifier \<noteq> []" by (simp add: sample_verifier_def)
  with assms show ?thesis
    by (simp add: token_form_def redeem_sample_def sample_request_def Header_Get_def FormValue_def URL_Query_def
        ParseForm_def Get_def Let_def)
qed

lemma authorize_world_ok: "world_ok calm_env authorize_world"
proof -
  have "codes authorize_world = empty_table" by (simp add: authorize_world_def)
  moreover have "world_ok calm_env grant_world" by (rule grant_world_ok)
  ultimately show ?thesis
    by (auto simp: world_ok_def model_ok_def rows_def model_defs authorize_world_def schema_defs) (simp_all add: empty_table_def)
qed

lemma run_authorize_sample_ticks:
  "\<exists>c w'. run_state (authorizeHandler sample_app (authorize_sample (Some sample_user))) authorize_world
      = (authorize_success calm_env sample_req (RawURLEncode (replicate 32 (char_of (entropy_reads authorize_world)))), w')
    \<and> rows Codes w' = [c] \<and> ticks w' = 2"
  by (simp add: authorizeHandler_def parse_authorize_sample run_authorize_client_sample run_authorize_application_sample Let_def
      authorize_sample_user)
    (simp add: authorize_issue_def run_Generate run_Now gormCodeRepo_Create_def Create_def sql_def gorm_insert_def
      table_insert_def Codes_def codes_schema_def rows_def authorize_world_def grant_world_def empty_table_def has_row_def
      signed_in_defs sample_client_def new_code_def sample_req_def or_default_def Let_def)

theorem authorization_code_flow_witness:
  "\<exists>resp w1 raw t w2. run_state (authorizeHandler sample_app (authorize_sample (Some sample_user))) authorize_world = (resp, w1)
     \<and> run_state (tokenHandler sample_app (redeem_sample raw)) w1 = (writeTokenResponse t, w2)"
proof -
  obtain c w1 where run: "run_state (authorizeHandler sample_app (authorize_sample (Some sample_user))) authorize_world
      = (authorize_success calm_env sample_req (RawURLEncode (replicate 32 (char_of (entropy_reads authorize_world)))), w1)"
      and row: "rows Codes w1 = [c]" and ticks: "ticks w1 = 2"
    using run_authorize_sample_ticks by blast
  let ?r = "authorize_sample (Some sample_user)"
  have get: "Get (URL_Query ?r) k = Get authorize_values k" for k
    by (simp add: URL_Query_def authorize_sample_def Get_Query_Encode)
  have empty: "rows Codes authorize_world = []" and t0: "ticks authorize_world = 0"
    by (simp_all add: authorize_world_def rows_def empty_table_def grant_world_def signed_in_defs empty_world_def)
  have calm: "calm sample_app" by (simp add: calm_def)
  have "Get authorize_values ''redirect_uri'' = ''https://app/cb''" by (simp add: authorize_values_def Get_def)
  then have uri: "Parse (app_env sample_app) (Get (URL_Query ?r) ''redirect_uri'') =
      Some (empty_url\<lparr>URL_Scheme := ''https'', URL_Host := ''app'', URL_Path := ''/cb''\<rparr>)"
    by (simp add: get parse_sample_uri)
  have ok: "world_ok (app_env sample_app) authorize_world" using authorize_world_ok by simp
  have row': "rows Codes w1 = rows Codes authorize_world @ [c]" using row empty by simp
  have time: "clock (app_env sample_app) (ticks w1) < clock (app_env sample_app) (ticks authorize_world) + 60 * Second"
     "clock (app_env sample_app) (Suc (ticks w1)) < clock (app_env sample_app) (ticks authorize_world) + 60 * Second"
    by (simp_all add: ticks t0 Second_def)
  obtain raw where flow: "\<And>r' p. token_form r' = Inr p \<and> Tok_Code p = raw \<and> Tok_ClientID p = Get (URL_Query ?r) ''client_id''
        \<and> Tok_RedirectURI p = Get (URL_Query ?r) ''redirect_uri''
        \<and> PKCEChallenge (Tok_CodeVerifier p) = Get (URL_Query ?r) ''code_challenge''
        \<and> 43 \<le> length (Tok_CodeVerifier p) \<and> length (Tok_CodeVerifier p) \<le> 128
        \<and> (\<forall>client \<in> set (rows OAuthClients authorize_world). Client_ClientID client = Tok_ClientID p \<longrightarrow> authenticateTokenClient r' client p = None)
        \<Longrightarrow> \<exists>t w2. run_state (tokenHandler sample_app r') w1 = (writeTokenResponse t, w2)"
    and len: "length raw = 43"
    using authorization_code_flow [OF calm ok run row' uri time] by blast
  have "raw \<noteq> []" using len by auto
  moreover have "authenticateTokenClient (redeem_sample raw) sample_client p = None" for p
    by (simp add: authenticateTokenClient_def IsConfidential_def sample_client_def)
  moreover have "rows OAuthClients authorize_world = [sample_client]"
    by (simp add: authorize_world_def grant_world_def rows_def)
  ultimately have "\<exists>t w2. run_state (tokenHandler sample_app (redeem_sample raw)) w1 = (writeTokenResponse t, w2)"
    by (intro flow [OF conjI, OF redeem_form]) (simp_all add: get, simp_all add: authorize_values_def Get_def sample_verifier_def)
  with run show ?thesis by blast
qed

end
