(* ===== verification/Serve_Mux.thy ===== *)
theory Serve_Mux
  imports Upstream Go_Url_Parse Password
begin

text \<open>
  The request multiplexer of net/http (\<open>ServeMux\<close>) for patterns of a method and a path, as the server uses
  it: patterns, the most specific match of a path, redirects to clean paths, and what no pattern matches.
\<close>

section \<open>Patterns\<close>

datatype segment = SegLiteral string | SegWild string

text \<open>A pattern that ends in a slash matches every longer path too: \<open>rt_multi\<close>.\<close>

record 'h route =
  rt_method :: string
  rt_segments :: "segment list"
  rt_multi :: bool
  rt_handler :: 'h

definition parse_segment :: "string \<Rightarrow> segment" where
  "parse_segment s =
     (if s \<noteq> [] \<and> hd s = CHR 0x7B \<and> last s = CHR 0x7D then SegWild (butlast (tl s)) else SegLiteral s)"

definition parse_pattern :: "string \<Rightarrow> 'h \<Rightarrow> 'h route" where
  "parse_pattern pattern h =
     (case Cut (CHR '' '') pattern of (m, path, _) \<Rightarrow>
        let parts = tl (Split path (CHR ''/''));
            multi = (parts \<noteq> [] \<and> last parts = [])
        in \<lparr>rt_method = m, rt_segments = map parse_segment (if multi then butlast parts else parts), rt_multi = multi,
            rt_handler = h\<rparr>)"

section \<open>Matching\<close>

text \<open>A route that is still possible: the segments to come and the wildcards bound so far.\<close>

type_synonym 'h candidate = "segment list \<times> (string \<times> string) list \<times> 'h route"

fun step_literal :: "string \<Rightarrow> 'h candidate \<Rightarrow> 'h candidate option" where
  "step_literal s (SegLiteral l # segs, b, h) = (if l = s then Some (segs, b, h) else None)"
| "step_literal s _ = None"

fun step_wild :: "string \<Rightarrow> 'h candidate \<Rightarrow> 'h candidate option" where
  "step_wild s (SegWild x # segs, b, h) = Some (segs, b @ [(x, s)], h)"
| "step_wild s _ = None"

definition ended :: "bool \<Rightarrow> 'h candidate list \<Rightarrow> ((string \<times> string) list \<times> 'h route) option" where
  "ended multi cs = map_option snd (find (\<lambda>(segs, b, h). segs = [] \<and> rt_multi h = multi) cs)"

text \<open>A literal segment goes before a wildcard, and a wildcard before the rest of a longer path.\<close>

fun match_path :: "string list \<Rightarrow> 'h candidate list \<Rightarrow> ((string \<times> string) list \<times> 'h route) option" where
  "match_path [] cs = ended False cs"
| "match_path (s # ss) cs =
     (case match_path ss (List.map_filter (step_literal s) cs) of
        Some found \<Rightarrow> Some found
      | None \<Rightarrow>
          (case (if s = ''/'' then None else match_path ss (List.map_filter (step_wild s) cs)) of
             Some found \<Rightarrow> Some found
           | None \<Rightarrow> ended True cs))"

definition pathUnescape :: "string \<Rightarrow> string" where
  "pathUnescape s = (case unescape encodePath s of None \<Rightarrow> s | Some t \<Rightarrow> t)"

text \<open>The segments of a path; a trailing slash is a segment of its own.\<close>

definition path_segments :: "string \<Rightarrow> string list" where
  "path_segments path =
     (let parts = tl (Split path (CHR ''/'')) in
      if parts = [] then []
      else map pathUnescape (butlast parts) @ [if last parts = [] then ''/'' else pathUnescape (last parts)])"

definition match_of :: "'h route list \<Rightarrow> string \<Rightarrow> string \<Rightarrow> ((string \<times> string) list \<times> 'h route) option" where
  "match_of table m path =
     match_path (path_segments path) (map (\<lambda>h. (rt_segments h, [], h)) (filter (\<lambda>h. rt_method h = m) table))"

text \<open>A HEAD request is also served by the pattern for GET.\<close>

definition match_request :: "'h route list \<Rightarrow> string \<Rightarrow> string \<Rightarrow> ((string \<times> string) list \<times> 'h route) option" where
  "match_request table m path =
     (case match_of table m path of
        Some found \<Rightarrow> Some found
      | None \<Rightarrow> if m = ''HEAD'' then match_of table ''GET'' path else None)"

section \<open>Clean paths\<close>

fun clean_segments :: "string list \<Rightarrow> string list \<Rightarrow> string list" where
  "clean_segments out [] = rev out"
| "clean_segments out (s # ss) =
     (if s = [] \<or> s = ''.'' then clean_segments out ss
      else if s = ''..'' then clean_segments (drop 1 out) ss
      else clean_segments (s # out) ss)"

definition cleanPath :: "string \<Rightarrow> string" where
  "cleanPath p =
     (let p = (if p = [] then ''/'' else if hd p \<noteq> CHR ''/'' then CHR ''/'' # p else p);
          np = CHR ''/'' # Join ''/'' (clean_segments [] (Split p (CHR ''/'')))
      in if last p = CHR ''/'' \<and> np \<noteq> ''/'' then np @ ''/'' else np)"

section \<open>The multiplexer\<close>

definition ends_in_slash :: "string \<Rightarrow> bool" where
  "ends_in_slash path \<longleftrightarrow> path \<noteq> [] \<and> last path = CHR ''/''"

text \<open>\<open>exactMatch\<close>: not by being longer than the pattern.\<close>

definition exactMatch :: "((string \<times> string) list \<times> 'h route) option \<Rightarrow> string \<Rightarrow> bool" where
  "exactMatch found path =
     (case found of
        None \<Rightarrow> False
      | Some (b, h) \<Rightarrow>
          if \<not> rt_multi h then True
          else ends_in_slash path \<and> length (rt_segments h) + 1 = length (filter (\<lambda>c. c = CHR ''/'') path))"

definition matchingMethods :: "'h route list \<Rightarrow> string \<Rightarrow> string list" where
  "matchingMethods table path =
     concat (map (\<lambda>m. if match_of table m path \<noteq> None \<or> \<not> ends_in_slash path \<and> match_of table m (path @ ''/'') \<noteq> None
                      then (if m = ''GET'' then [''GET'', ''HEAD''] else [m]) else [])
             [''GET'', ''POST''])"

definition StatusMethodNotAllowed :: nat where
  "StatusMethodNotAllowed = 405"

datatype 'h routed =
    Handled "(string \<times> string) list" 'h
  | Answered response

text \<open>
  \<open>findHandler\<close> for patterns without a host whose methods are GET and POST; redirects go to the clean
  path, temporarily since Go 1.26.
\<close>

definition redirect_path :: "string \<Rightarrow> string \<Rightarrow> 'h routed" where
  "redirect_path path query =
     Answered (Redirect (url_String (empty_url\<lparr>URL_Path := path, URL_RawQuery := query\<rparr>)) StatusTemporaryRedirect)"

definition findHandler :: "'h route list \<Rightarrow> request \<Rightarrow> 'h routed" where
  "findHandler table r =
     (let connect = (req_method r = ''CONNECT'');
          path = (if connect then req_escaped_path r else cleanPath (req_escaped_path r));
          found = match_request table (req_method r) path
      in if \<not> connect \<and> \<not> exactMatch found path \<and> \<not> ends_in_slash path
            \<and> exactMatch (match_request table (req_method r) (path @ ''/'')) (path @ ''/'') then
           redirect_path (cleanPath (req_path r) @ ''/'') (req_raw_query r)
         else if \<not> connect \<and> path \<noteq> req_escaped_path r then redirect_path path (req_raw_query r)
         else case found of
           Some (b, h) \<Rightarrow> Handled b (rt_handler h)
         | None \<Rightarrow>
             if matchingMethods table path \<noteq> [] then
               Answered ((Error ''Method Not Allowed'' StatusMethodNotAllowed)
                 \<lparr>resp_headers := (''Allow'', Join '', '' (matchingMethods table path))
                    # resp_headers (Error ''Method Not Allowed'' StatusMethodNotAllowed)\<rparr>)
             else Answered NotFound)"

definition ServeMux :: "'h route list \<Rightarrow> ('h \<Rightarrow> request \<Rightarrow> (world, response) state) \<Rightarrow> request \<Rightarrow> (world, response) state" where
  "ServeMux table serve r =
     (if RequestURI r = ''*'' then
        ret \<lparr>resp_status = StatusBadRequest, resp_location = None, resp_headers = [(''Connection'', ''close'')],
             resp_cookies = [], resp_body = NoBody\<rparr>
      else case findHandler table r of
        Handled b h \<Rightarrow> serve h (r\<lparr>req_path_values := b\<rparr>)
      | Answered resp \<Rightarrow> ret resp)"

section \<open>What a match says\<close>

lemma ended_route: "ended multi cs = Some (b, h) \<Longrightarrow> \<exists>c \<in> set cs. snd (snd c) = h"
  unfolding ended_def by (clarsimp dest!: find_SomeD) force

lemma match_path_route:
  assumes "match_path ss cs = Some (b, h)"
  shows "\<exists>c \<in> set cs. snd (snd c) = h"
  using assms
proof (induction ss arbitrary: cs)
  case Nil
  then show ?case by (simp add: ended_route)
next
  case (Cons s ss)
  have literal: "\<exists>c \<in> set cs. snd (snd c) = snd (snd d)" if "d \<in> set (List.map_filter (step_literal s) cs)" for d
    using that by (auto simp: List.map_filter_def elim!: step_literal.elims split: if_splits) force
  have wild: "\<exists>c \<in> set cs. snd (snd c) = snd (snd d)" if "d \<in> set (List.map_filter (step_wild s) cs)" for d
    using that by (auto simp: List.map_filter_def elim!: step_wild.elims) force
  show ?case
  proof (cases "match_path ss (List.map_filter (step_literal s) cs)")
    case (Some found)
    with Cons.prems Cons.IH literal show ?thesis by fastforce
  next
    case literals: None
    show ?thesis
    proof (cases "if s = ''/'' then None else match_path ss (List.map_filter (step_wild s) cs)")
      case (Some found)
      with Cons.prems literals Cons.IH wild show ?thesis by (fastforce split: if_splits)
    next
      case None
      with Cons.prems literals show ?thesis by (simp add: ended_route)
    qed
  qed
qed

lemma match_of_route: "match_of table m path = Some (b, h) \<Longrightarrow> h \<in> set table \<and> rt_method h = m"
  unfolding match_of_def by (drule match_path_route) auto

lemma match_request_route:
  "match_request table m path = Some (b, h) \<Longrightarrow> h \<in> set table \<and> (rt_method h = m \<or> m = ''HEAD'' \<and> rt_method h = ''GET'')"
  unfolding match_request_def by (auto split: option.splits if_splits dest: match_of_route)

lemma findHandler_route:
  assumes "findHandler table r = Handled b e"
  obtains h where "h \<in> set table" and "rt_handler h = e"
    and "rt_method h = req_method r \<or> req_method r = ''HEAD'' \<and> rt_method h = ''GET''"
  using assms match_request_route
  by (fastforce simp: findHandler_def redirect_path_def Let_def split: if_splits option.splits)

end
