(* ===== verification/Server.thy ===== *)
theory Server
  imports Footprint Serve_Mux
begin

text \<open>
  The server as a whole (internal/app.go and the routes of internal/admin/handler.go): the routes, the
  middleware around them, the hourly clean-up, and what holds in every state that requests and clean-ups can
  reach.
\<close>

section \<open>Routes\<close>

datatype endpoint =
    Health | Jwks | Discovery | AuthorizeEndpoint | UpstreamStart | UpstreamCallback | TokenEndpointRoute
  | Root | SetupPage | SetupForm | StaticFiles
  | LoginPage | Login | Logout
  | Dashboard | AppList | AppNew | AppCreate | AppDetail | AppEdit | AppUpdate
  | ClientNew | ClientCreate | ClientDetail
  | ProviderNew | ProviderSave | ProviderEdit | ProviderToggle | ProviderDelete

text \<open>\<open>Handler.Register\<close> of the console and \<open>App.routes\<close>.\<close>

definition admin_patterns :: "(string \<times> endpoint) list" where
  "admin_patterns =
     [(''GET /admin/login'', LoginPage),
      (''POST /admin/auth/login'', Login),
      (''POST /admin/auth/logout'', Logout),
      (''GET /admin'', Dashboard),
      (''GET /admin/apps'', AppList),
      (''GET /admin/apps/new'', AppNew),
      (''POST /admin/apps'', AppCreate),
      (''GET /admin/apps/{id}'', AppDetail),
      (''GET /admin/apps/{id}/edit'', AppEdit),
      (''POST /admin/apps/{id}/edit'', AppUpdate),
      (''GET /admin/apps/{id}/clients/new'', ClientNew),
      (''POST /admin/apps/{id}/clients'', ClientCreate),
      (''GET /admin/clients/{id}'', ClientDetail),
      (''GET /admin/apps/{id}/providers/new'', ProviderNew),
      (''POST /admin/apps/{id}/providers'', ProviderSave),
      (''GET /admin/apps/{id}/providers/{provider}/edit'', ProviderEdit),
      (''POST /admin/apps/{id}/providers/{provider}/toggle'', ProviderToggle),
      (''POST /admin/apps/{id}/providers/{provider}/delete'', ProviderDelete)]"

definition app_patterns :: "(string \<times> endpoint) list" where
  "app_patterns =
     [(''GET /healthz'', Health),
      (''GET /.well-known/jwks.json'', Jwks),
      (''GET /.well-known/openid-configuration'', Discovery),
      (''GET /authorize'', AuthorizeEndpoint),
      (''GET /auth/upstream/{provider}/start'', UpstreamStart),
      (''GET /auth/upstream/{provider}/callback'', UpstreamCallback),
      (''POST /token'', TokenEndpointRoute),
      (''GET /'', Root),
      (''GET /setup'', SetupPage),
      (''POST /setup'', SetupForm)]
     @ admin_patterns
     @ [(''GET /static/'', StaticFiles)]"

definition route_table :: "endpoint route list" where
  "route_table = map (\<lambda>(pattern, e). parse_pattern pattern e) app_patterns"

definition rootHandler :: "app \<Rightarrow> handler" where
  "rootHandler A r = ret (Redirect ''/admin'' StatusSeeOther)"

text \<open>The routes of the console that \<open>Register\<close> wraps in \<open>RequireOperator\<close>.\<close>

fun console_handler :: "app \<Rightarrow> endpoint \<Rightarrow> handler option" where
  "console_handler A Dashboard = Some (dashboardHandler A)"
| "console_handler A AppList = Some (appListHandler A)"
| "console_handler A AppNew = Some (appNewHandler A)"
| "console_handler A AppCreate = Some (appCreateHandler A)"
| "console_handler A AppDetail = Some (appDetailHandler A)"
| "console_handler A AppEdit = Some (appEditHandler A)"
| "console_handler A AppUpdate = Some (appUpdateHandler A)"
| "console_handler A ClientNew = Some (clientNewHandler A)"
| "console_handler A ClientCreate = Some (clientCreateHandler A)"
| "console_handler A ClientDetail = Some (clientDetailHandler A)"
| "console_handler A ProviderNew = Some (providerNewHandler A)"
| "console_handler A ProviderSave = Some (providerSaveHandler A)"
| "console_handler A ProviderEdit = Some (providerEditHandler A)"
| "console_handler A ProviderToggle = Some (providerToggleHandler A)"
| "console_handler A ProviderDelete = Some (providerDeleteHandler A)"
| "console_handler A _ = None"

text \<open>The handler of a route; the embedded static files are a function of the request.\<close>

fun open_handler :: "app \<Rightarrow> (request \<Rightarrow> response) \<Rightarrow> endpoint \<Rightarrow> handler" where
  "open_handler A files Health = healthHandler A"
| "open_handler A files Jwks = jwksHandler A"
| "open_handler A files Discovery = discoveryHandler A"
| "open_handler A files AuthorizeEndpoint = authorizeHandler A"
| "open_handler A files UpstreamStart = upstreamStartHandler A"
| "open_handler A files UpstreamCallback = upstreamCallbackHandler A"
| "open_handler A files TokenEndpointRoute = tokenHandler A"
| "open_handler A files SetupPage = setupPageHandler A"
| "open_handler A files SetupForm = setupHandler A"
| "open_handler A files StaticFiles = (\<lambda>r. ret (files r))"
| "open_handler A files LoginPage = operatorLoginPageHandler"
| "open_handler A files Login = operatorLoginHandler A"
| "open_handler A files Logout = operatorLogoutHandler A"
| "open_handler A files _ = rootHandler A"

definition endpoint_handler :: "app \<Rightarrow> (request \<Rightarrow> response) \<Rightarrow> endpoint \<Rightarrow> handler" where
  "endpoint_handler A files e =
     (case console_handler A e of
        Some serve \<Rightarrow> RequireOperator serve
      | None \<Rightarrow> open_handler A files e)"

definition routes :: "app \<Rightarrow> (request \<Rightarrow> response) \<Rightarrow> handler" where
  "routes A files =
     Logger (app_env A)
       (CSRFExcept (app_env A)
          (OperatorSession A
             (Session A
                (ServeMux route_table (endpoint_handler A files))))
          [''/token''])"

text \<open>One tick of the clean-up of \<open>Run\<close>; its errors are only logged.\<close>

definition clean_up :: "app \<Rightarrow> (world, unit) state" where
  "clean_up A = do {
     _ \<leftarrow> Manager_DeleteInactive (app_env A);
     _ \<leftarrow> OperatorManager_DeleteInactive (app_env A);
     ret ()
   }"

section \<open>States the server reaches\<close>

text \<open>A request as it arrives: no middleware has put anyone into its context.\<close>

definition arrives :: "request \<Rightarrow> bool" where
  "arrives r \<longleftrightarrow> req_user r = None \<and> req_operator r = None"

inductive server_step :: "app \<Rightarrow> (request \<Rightarrow> response) \<Rightarrow> world \<Rightarrow> world \<Rightarrow> bool" for A files where
  request: "arrives r \<Longrightarrow> run_state (routes A files r) w = (resp, w') \<Longrightarrow> server_step A files w w'"
| tick: "run_state (clean_up A) w = ((), w') \<Longrightarrow> server_step A files w w'"

inductive_cases server_stepE: "server_step A files w w'"

inductive reaches :: "app \<Rightarrow> (request \<Rightarrow> response) \<Rightarrow> world \<Rightarrow> world \<Rightarrow> bool" for A files w0 where
  start: "reaches A files w0 w0"
| more: "reaches A files w0 w \<Longrightarrow> server_step A files w w' \<Longrightarrow> reaches A files w0 w'"

section \<open>Every handler keeps the constraints\<close>

lemma sound_open_handler: "sound (app_env A) (open_handler A files e r)"
  by (cases e) (simp_all add: schema_intros rootHandler_def)

lemma sound_console_handler: "console_handler A e = Some serve \<Longrightarrow> sound (app_env A) (serve r)"
  by (cases e) (auto simp: schema_intros)

lemma sound_endpoint: "sound (app_env A) (endpoint_handler A files e r)"
  using sound_open_handler sound_console_handler
  by (auto simp: endpoint_handler_def RequireOperator_def intro: schema_intros split: option.splits)

lemma sound_ServeMux [schema_intros]: "(\<And>h r. sound E (serve h r)) \<Longrightarrow> sound E (ServeMux table serve r)"
  by (auto simp: ServeMux_def intro: schema_intros split: routed.split)

lemma sound_middleware [schema_intros]:
  assumes "\<And>r. sound (app_env A) (serve r)"
  shows "sound (app_env A) (Session A serve r)" "sound (app_env A) (OperatorSession A serve r)"
    "sound (app_env A) (CSRFExcept E serve exempt r)" "sound (app_env A) (Logger E serve r)"
  unfolding Session_def OperatorSession_def CSRFExcept_def CSRF_def Logger_def Logger_line_def
  by (intro schema_intros assms)+

lemma sound_routes: "sound (app_env A) (routes A files r)"
  unfolding routes_def by (intro schema_intros sound_endpoint)

lemma sound_clean_up: "sound (app_env A) (clean_up A)"
  unfolding clean_up_def by (intro schema_intros)

lemma step_keeps_constraints: "server_step A files w w' \<Longrightarrow> world_ok (app_env A) w \<Longrightarrow> world_ok (app_env A) w'"
  by (erule server_stepE) (metis sound_world_ok sound_routes snd_conv, metis sound_world_ok sound_clean_up snd_conv)

section \<open>What a request may write\<close>

definition footprint :: "endpoint \<Rightarrow> table_name set" where
  "footprint e =
     (case e of
        AuthorizeEndpoint \<Rightarrow> {TCodes}
      | TokenEndpointRoute \<Rightarrow> {TCodes}
      | UpstreamCallback \<Rightarrow> {TUsers, TUserIdentities, TSessions}
      | SetupForm \<Rightarrow> {TOperators, TOperatorSessions}
      | Login \<Rightarrow> {TOperatorSessions}
      | Logout \<Rightarrow> {TOperatorSessions}
      | AppCreate \<Rightarrow> {TApplications, TOAuthClients}
      | AppUpdate \<Rightarrow> {TApplications}
      | ClientCreate \<Rightarrow> {TOAuthClients}
      | ProviderSave \<Rightarrow> {TIdentityProviders}
      | ProviderToggle \<Rightarrow> {TIdentityProviders}
      | ProviderDelete \<Rightarrow> {TIdentityProviders}
      | _ \<Rightarrow> {})"

lemmas writes_handlers = writes_protocol_handlers writes_upstream_handlers writes_operator_handlers writes_public_handlers
  writes_app_pages writes_provider_pages

lemma writes_open_handler: "console_handler A e = None \<Longrightarrow> writes (footprint e) (open_handler A files e r)"
  by (cases e) (simp_all add: footprint_def writes_handlers writes_ret rootHandler_def)

lemma writes_console_handler: "console_handler A e = Some serve \<Longrightarrow> writes (footprint e) (serve r)"
  by (cases e) (auto simp: footprint_def writes_handlers)

text \<open>
  A request either changes no row, or is one of the handlers' on the same rows, with the operator the cookie
  names, if any, in its context.
\<close>

lemma routes_reach:
  assumes "run_state (routes A files r) w = (resp, w')" and "arrives r"
  obtains "same_but {} w w'"
  | e r' a b v where "run_state (endpoint_handler A files e r') (counted a b w) = (resp, v)" and "w' = counted 1 0 v"
      and "req_operator r' = None \<or> req_operator r' = current_operator A (counted 1 0 w) r"
proof -
  let ?serve = "ServeMux route_table (endpoint_handler A files)"
  let ?guarded = "CSRFExcept (app_env A) (OperatorSession A (Session A ?serve)) [''/token'']"
  obtain v where v: "run_state (?guarded r) (counted 1 0 w) = (resp, v)" and w': "w' = counted 1 0 v"
    using assms(1) by (auto simp: routes_def Logger_def Logger_line_def run_Now_counted split: prod.splits)
  show thesis
  proof (cases "run_state (OperatorSession A (Session A ?serve) r) (counted 1 0 w) = (resp, v)")
    case False
    with v have "v = counted 1 0 w"
      by (auto simp: CSRFExcept_def CSRF_def split: if_splits option.splits)
    with w' that(1) show thesis by simp
  next
    case True
    obtain p a b where p: "p = None \<or> p = current_operator A (counted 1 0 w) r"
      and op: "run_state (Session A ?serve (in_context (\<lambda>p. req_operator_update (\<lambda>_. Some p)) p r)) (counted a b (counted 1 0 w)) = (resp, v)"
      using OperatorSession_runs [of A "Session A ?serve" r "counted 1 0 w"] True by metis
    let ?r = "in_context (\<lambda>p. req_operator_update (\<lambda>_. Some p)) p r"
    obtain u c d where us: "run_state (?serve (in_context (\<lambda>u. req_user_update (\<lambda>_. Some u)) u ?r)) (counted c d (counted a b (counted 1 0 w)))
        = (resp, v)"
      using Session_runs [of A ?serve ?r "counted a b (counted 1 0 w)"] op by metis
    let ?r' = "in_context (\<lambda>u. req_user_update (\<lambda>_. Some u)) u ?r"
    have op_of: "req_operator ?r' = p"
      using assms(2) by (cases u; cases p) (simp_all add: arrives_def)
    show thesis
    proof (cases "\<exists>b e. RequestURI ?r' \<noteq> ''*'' \<and> findHandler route_table ?r' = Handled b e")
      case True
      then obtain bs e where "RequestURI ?r' \<noteq> ''*''" "findHandler route_table ?r' = Handled bs e" by blast
      with us have "run_state (endpoint_handler A files e (?r'\<lparr>req_path_values := bs\<rparr>)) (counted (c + (a + 1)) (d + b) w) = (resp, v)"
        by (simp add: ServeMux_def)
      then show thesis using that(2) w' op_of p by simp
    next
      case False
      then have "v = counted c d (counted a b (counted 1 0 w))"
        using us by (auto simp: ServeMux_def split: if_splits routed.splits)
      with w' that(1) show thesis by simp
    qed
  qed
qed

section \<open>Registered clients and operators\<close>

lemma keeps_same_rows:
  assumes "writes T m" and "\<And>w w'. same_but T w w' \<Longrightarrow> P w \<Longrightarrow> P w'"
  shows "keeps P m"
  using assms by (auto simp: writes_def keeps_def)

lemma keeps_with_operator: "(\<And>p. keeps P (serve p)) \<Longrightarrow> keeps P (with_operator r serve)"
  unfolding with_operator_def by (intro keeps_option keeps_ret)

lemma clients_ok_same: "same_but T w w' \<Longrightarrow> TOAuthClients \<notin> T \<Longrightarrow> clients_ok E w \<Longrightarrow> clients_ok E w'"
  by (simp add: clients_ok_def same_but_rows)

lemma keeps_with_app:
  assumes "\<And>p a. keeps (clients_ok E) (serve p a)"
  shows "keeps (clients_ok E) (with_app A r serve)"
proof -
  have "writes {} (loadApp A r)" unfolding loadApp_def by (intro writes_intros)
  then have "keeps (clients_ok E) (loadApp A r)" by (rule keeps_same_rows) (auto elim: clients_ok_same)
  with assms show ?thesis unfolding with_app_def by (intro keeps_with_operator keeps_bind keeps_sum keeps_ret)
qed

lemma creating_keeps_clients_ok:
  "keeps (clients_ok (app_env A)) (appCreateHandler A r)" "keeps (clients_ok (app_env A)) (clientCreateHandler A r)"
proof -
  have k: "keeps (clients_ok (app_env A)) (AppService_RegisterApp (app_env A) input)"
    "keeps (clients_ok (app_env A)) (AppService_CreateClient (app_env A) i cinput)" for input i cinput
    using service_keeps_clients_ok by (auto simp: keeps_def)
  show "keeps (clients_ok (app_env A)) (appCreateHandler A r)" "keeps (clients_ok (app_env A)) (clientCreateHandler A r)"
    unfolding appCreateHandler_def clientCreateHandler_def Let_def
    by (intro keeps_with_operator keeps_with_app keeps_sum keeps_ret keeps_bind k)+
qed

lemma endpoint_keeps_clients_ok: "keeps (clients_ok (app_env A)) (endpoint_handler A files e r)"
proof (cases "TOAuthClients \<in> footprint e")
  case True
  then have "e = AppCreate \<or> e = ClientCreate" by (cases e) (simp_all add: footprint_def)
  then show ?thesis
    using creating_keeps_clients_ok by (auto simp: endpoint_handler_def RequireOperator_def split: option.split)
next
  case False
  have "writes (footprint e) (endpoint_handler A files e r)"
    using writes_open_handler writes_console_handler
    by (auto simp: endpoint_handler_def RequireOperator_def writes_ret split: option.splits)
  then show ?thesis by (rule keeps_same_rows) (use False clients_ok_same in blast)
qed

lemma setup_closed:
  assumes "rows (Operators (app_env A)) w \<noteq> []"
  shows "same_but {} w (snd (run_state (setupHandler A r) w))"
  using assms
  by (auto simp: setupHandler_def setupAvailable_def gormOperatorRepo_Count_def Count_def Operators.run_sql Operators.rows_counted
      Suc_le_eq split: fault.splits)

lemma endpoint_keeps_operators:
  assumes "rows (Operators (app_env A)) w \<noteq> []"
  shows "rows (Operators (app_env A)) (snd (run_state (endpoint_handler A files e r) w)) = rows (Operators (app_env A)) w"
proof (cases "e = SetupForm")
  case True
  with setup_closed [OF assms, of r] show ?thesis
    by (simp add: endpoint_handler_def same_but_rows)
next
  case False
  then have "TOperators \<notin> footprint e" by (cases e) (simp_all add: footprint_def)
  moreover have "writes (footprint e) (endpoint_handler A files e r)"
    using writes_open_handler writes_console_handler
    by (auto simp: endpoint_handler_def RequireOperator_def writes_ret split: option.splits)
  ultimately show ?thesis by (metis same_but_rows(3) writes_def)
qed

section \<open>Properties\<close>

lemma clean_up_writes: "writes {TSessions, TOperatorSessions} (clean_up A)"
  unfolding clean_up_def by (intro writes_intros; simp)

lemma clients_ok_counted [simp]: "clients_ok E (counted a b w) = clients_ok E w"
  by (simp add: clients_ok_def rows_def)

lemma step_keeps_clients_ok:
  assumes "server_step A files w w'" and "clients_ok (app_env A) w"
  shows "clients_ok (app_env A) w'"
  using assms(1)
proof (cases rule: server_step.cases)
  case (request r resp)
  from this(2,1) show ?thesis
  proof (cases rule: routes_reach)
    case 1
    then show ?thesis using assms(2) by (auto elim: clients_ok_same)
  next
    case (2 e r' a b v)
    then have "clients_ok (app_env A) v"
      using keepsD [OF endpoint_keeps_clients_ok 2(1)] assms(2) by simp
    with 2(2) show ?thesis by simp
  qed
next
  case tick
  with writesD [OF clean_up_writes] have "same_but {TSessions, TOperatorSessions} w w'" by blast
  then show ?thesis using assms(2) by (auto elim: clients_ok_same)
qed

lemma step_keeps_operators:
  assumes "server_step A files w w'" and "rows (Operators (app_env A)) w \<noteq> []"
  shows "rows (Operators (app_env A)) w' = rows (Operators (app_env A)) w"
  using assms(1)
proof (cases rule: server_step.cases)
  case (request r resp)
  from this(2,1) show ?thesis
  proof (cases rule: routes_reach)
    case 1
    then show ?thesis by (simp add: same_but_rows)
  next
    case (2 e r' a b v)
    then show ?thesis
      using endpoint_keeps_operators [of A "counted a b w" files e r'] assms(2) by simp
  qed
next
  case tick
  with writesD [OF clean_up_writes] show ?thesis by (metis same_but_rows(3) insertE emptyE table_name.distinct)
qed

text \<open>
  C5.  The invariant of the server.  In every state that requests, whatever they are, and clean-ups can
  reach, however the database and the random source fail on the way, all constraints of all tables hold, every
  stored client is well registered with validated redirect URIs, and once there is an operator the set-up is
  closed: the operators stay the ones they were.
\<close>

theorem server_invariant:
  assumes "reaches A files w0 w" and "world_ok (app_env A) w0" and "clients_ok (app_env A) w0"
  shows "world_ok (app_env A) w \<and> clients_ok (app_env A) w
    \<and> (rows (Operators (app_env A)) w0 \<noteq> [] \<longrightarrow> rows (Operators (app_env A)) w = rows (Operators (app_env A)) w0)"
  using assms(1)
proof (induction rule: reaches.induct)
  case start
  show ?case using assms(2,3) by simp
next
  case (more w w')
  then show ?case
    using step_keeps_constraints step_keeps_clients_ok step_keeps_operators by metis
qed

lemma signed_in_world_constraints: "world_ok calm_env signed_in_world"
  by (simp add: world_ok_def model_ok_def rows_def model_defs schema_defs signed_in_defs empty_world_def empty_table_def
      table_ok_def has_row_def)

definition no_files :: "request \<Rightarrow> response" where
  "no_files r = NotFound"

definition second_setup :: request where
  "second_setup = setup_request\<lparr>req_escaped_path := ''/setup''\<rparr>"

theorem server_invariant_witness:
  "rows (Operators calm_env) (snd (run_state (routes sample_app no_files second_setup) signed_in_world)) = [sample_operator]"
proof -
  let ?w = "snd (run_state (routes sample_app no_files second_setup) signed_in_world)"
  have "arrives second_setup"
    by (simp add: arrives_def second_setup_def setup_request_def sample_request_def)
  then have "server_step sample_app no_files signed_in_world ?w"
    by (rule server_step.request) (rule prod.collapse [symmetric])
  with reaches.start have r: "reaches sample_app no_files signed_in_world ?w"
    by (rule reaches.more)
  have "clients_ok calm_env signed_in_world" and "rows (Operators calm_env) signed_in_world = [sample_operator]"
    by (simp_all add: clients_ok_def rows_def signed_in_defs empty_world_def empty_table_def)
  then show ?thesis
    using server_invariant [OF r] signed_in_world_constraints by simp
qed

text \<open>
  C4.  Only operators configure the server.  A request can change the applications, their clients or their
  identity providers only if its cookie names an operator's session that is stored, not revoked and not expired
  at the time of the request; no other request changes a row of these tables, on whatever route it arrives.
\<close>

theorem only_operators_configure:
  assumes "arrives r" and "run_state (routes A files r) w = (resp, w')"
  shows "rows Applications w' = rows Applications w \<and> rows OAuthClients w' = rows OAuthClients w
      \<and> rows IdentityProviders w' = rows IdentityProviders w
    \<or> (\<exists>token s p. Request_Cookie r (CookieName (app_operatorSessions A)) = Some token
        \<and> s \<in> set (rows OperatorSessions w) \<and> OpSession_TokenHash s = Sum256 token \<and> OpSession_RevokedAt s = None
        \<and> clock (app_env A) (Suc (ticks w)) \<le> OpSession_ExpiresAt s
        \<and> p \<in> set (rows (Operators (app_env A)) w) \<and> Operator_ID p = OpSession_OperatorID s)"
  using assms(2,1)
proof (cases rule: routes_reach)
  case 1
  then show ?thesis by (simp add: same_but_rows)
next
  case (2 e r' a b v)
  show ?thesis
  proof (cases "current_operator A (counted 1 0 w) r")
    case (Some p)
    then show ?thesis by (rule current_operatorD) (auto simp: rows_def)
  next
    case None
    with 2(3) have anonymous: "req_operator r' = None" by auto
    have others: "same_but {TUsers, TUserIdentities, TSessions, TOperators, TOperatorSessions, TCodes} (counted a b w) v"
    proof (cases "console_handler A e")
      case (Some serve)
      then show ?thesis
        using 2(1) anonymous by (auto simp: endpoint_handler_def RequireOperator_def OperatorFromContext_def)
    next
      case None
      moreover from None have "footprint e \<subseteq> {TUsers, TUserIdentities, TSessions, TOperators, TOperatorSessions, TCodes}"
        by (cases e) (auto simp: footprint_def)
      moreover have "run_state (open_handler A files e r') (counted a b w) = (resp, v)"
        using 2(1) None by (simp add: endpoint_handler_def)
      ultimately show ?thesis
        by (meson writesD writes_mono writes_open_handler)
    qed
    from same_but_rows(5,6,8) [OF others] 2(2) show ?thesis by (simp add: rows_def)
  qed
qed

definition anonymous_request :: request where
  "anonymous_request = console_request\<lparr>req_operator := None\<rparr>"

theorem only_operators_configure_witness:
  "rows OAuthClients (snd (run_state (routes sample_app no_files anonymous_request) signed_in_world)) = rows OAuthClients signed_in_world"
proof -
  have "arrives anonymous_request" and "Request_Cookie anonymous_request (CookieName (app_operatorSessions sample_app)) = None"
    by (simp_all add: arrives_def anonymous_request_def console_request_def sample_request_def Request_Cookie_def)
  then show ?thesis
    using only_operators_configure [OF _ prod.collapse [symmetric], of anonymous_request sample_app no_files signed_in_world]
    by auto
qed

end
