(* ===== verification/Retention.thy ===== *)
theory Retention
  imports Server
begin

text \<open>
  What the server never takes away.  No request removes or changes a session or a user, whatever it does and
  whatever fails on the way, and a clean-up (\<open>Run\<close> of internal/app.go) leaves the sessions that are live when
  the clock is read afterwards.  So a session stays where it is until it is out of date, however many requests and
  clean-ups there are in between.
\<close>

section \<open>Sessions and users that stay\<close>

definition retained :: "session set \<Rightarrow> user set \<Rightarrow> world \<Rightarrow> bool" where
  "retained S U w \<longleftrightarrow> S \<subseteq> set (tbl_rows (sessions w)) \<and> U \<subseteq> set (tbl_rows (users w))"

lemma retained_counters [simp]:
  "retained S U (w\<lparr>db_calls := n\<rparr>) = retained S U w" "retained S U (counted a b w) = retained S U w"
  "retained S U (w\<lparr>ticks := n\<rparr>) = retained S U w" "retained S U (w\<lparr>entropy_reads := n\<rparr>) = retained S U w"
  by (simp_all add: retained_def)

named_theorems retains_intros \<open>operations that keep the sessions and the users there are\<close>

abbreviation retains :: "session set \<Rightarrow> user set \<Rightarrow> (world, 'a) state \<Rightarrow> bool" where
  "retains S U \<equiv> keeps (retained S U)"

lemmas [retains_intros] = keeps_ret keeps_bind keeps_if keeps_sum keeps_option

lemma retains_let [retains_intros]: "retains S U (f x) \<Longrightarrow> retains S U (let y = x in f y)"
  by simp

lemma retains_prod [retains_intros]: "(\<And>a b. retains S U (f a b)) \<Longrightarrow> retains S U (case p of (a, b) \<Rightarrow> f a b)"
  by (cases p) simp

lemma retained_same: "same_but T w w' \<Longrightarrow> TUsers \<notin> T \<Longrightarrow> TSessions \<notin> T \<Longrightarrow> retained S U w \<Longrightarrow> retained S U w'"
  by (simp add: same_but_def retained_def)

text \<open>Whatever writes to neither table retains everything.\<close>

lemma retains_other: "writes T m \<Longrightarrow> TUsers \<notin> T \<Longrightarrow> TSessions \<notin> T \<Longrightarrow> retains S U m"
  by (rule keeps_same_rows) (auto elim: retained_same)

lemma retains_readers [retains_intros]: "writes {} m \<Longrightarrow> retains S U m"
  by (erule retains_other) simp_all

lemma retains_sql:
  assumes "\<And>w. retained S U w \<Longrightarrow> retained S U (snd (f w))"
  shows "retains S U (sql E f)"
proof (rule keepsI)
  fix w a w'
  assume "retained S U w" and run: "run_state (sql E f) w = (a, w')"
  then have "retained S U (snd (f (w\<lparr>db_calls := Suc (db_calls w)\<rparr>)))"
    using assms by simp
  with run \<open>retained S U w\<close> show "retained S U w'"
    by (auto simp: sql_def Let_def split: fault.splits)
qed

lemma insert_retains:
  "retained S U w \<Longrightarrow> retained S U (snd (gorm_insert (Users E) u w))"
  "retained S U w \<Longrightarrow> retained S U (snd (gorm_insert Sessions s w))"
  by (auto simp: gorm_insert_def table_insert_def Let_def retained_def)

lemma retains_Create [retains_intros]: "retains S U (Create E (Users E') u)" "retains S U (Create E Sessions s)"
  unfolding Create_def by (intro keeps_bind retains_readers writes_intros retains_sql insert_retains; assumption)+

lemma retains_Create_identity [retains_intros]: "retains S U (Create E UserIdentities i)"
  by (rule retains_other [where T = "{TUserIdentities}"]) (simp_all add: writes_intros)

lemma retains_Transaction [retains_intros]:
  assumes "retains S U body"
  shows "retains S U (Transaction E body)"
proof (rule keepsI)
  fix w res w'
  assume w: "retained S U w" and run: "run_state (Transaction E body) w = (res, w')"
  obtain r v where body: "run_state body (w\<lparr>db_calls := Suc (db_calls w)\<rparr>) = (r, v)" by fastforce
  have "retained S U v" using keepsD [OF assms body] w by simp
  moreover have "retained S U (rollback (w\<lparr>db_calls := k\<rparr>) x)" for k x
    using w by (simp add: retained_def)
  ultimately show "retained S U w'"
    using w body run by (auto simp: Transaction_def sql_def Let_def split: fault.splits sum.splits)
qed

section \<open>Requests retain everything\<close>

lemma retains_Manager_Create [retains_intros]: "retains S U (Manager_Create E c i)"
  unfolding Manager_Create_def gormSessionRepo_Create_def
  by (intro retains_intros; intro writes_intros)

lemma retains_ProvisionUser [retains_intros]: "retains S U (ProviderService_ProvisionUser E i)"
proof -
  have "retains S U (gormUserIdentityRepo_CreateWithUser E u x)" for u x
    unfolding gormUserIdentityRepo_CreateWithUser_def by (intro retains_intros)
  moreover have "retains S U (gormUserIdentityRepo_Create E x)" for x
    unfolding gormUserIdentityRepo_Create_def by (intro retains_intros)
  moreover have "retains S U (randomSubject E)" "retains S U (gormUserRepo_GetByID E k)" "retains S U (gormUserRepo_GetByEmail E e)"
    "retains S U (gormUserIdentityRepo_GetByProviderSubject E p t)" for k e p t
    unfolding randomSubject_def by (intro retains_readers writes_intros)+
  ultimately show ?thesis
    unfolding ProviderService_ProvisionUser_def link_identity_def create_from_identity_def Let_def
    by (intro keeps_bind keeps_ret keeps_if keeps_sum)
qed

lemma retains_callback: "retains S U (upstreamCallbackHandler A r)"
proof -
  have "retains S U (upstream_pending A r n s)" for n s
    unfolding upstream_pending_def by (intro retains_readers writes_intros)
  moreover have "retains S U (ProviderService_Get E box i p)" "retains S U (Client_Exchange E c code v)" for E box i p c code v
    by (intro retains_readers writes_intros)+
  moreover have "retains S U (upstream_finish A ret_to i)" for ret_to i
    unfolding upstream_finish_def by (intro keeps_bind keeps_sum keeps_ret retains_ProvisionUser retains_Manager_Create)
  ultimately show ?thesis
    unfolding upstreamCallbackHandler_def upstream_complete_def Let_def
    by (intro keeps_bind keeps_if keeps_sum keeps_option keeps_ret retains_prod)
qed

lemma retains_endpoint: "retains S U (endpoint_handler A files e r)"
proof (cases "e = UpstreamCallback")
  case True
  then show ?thesis by (simp add: endpoint_handler_def retains_callback)
next
  case False
  then have "TUsers \<notin> footprint e" "TSessions \<notin> footprint e" by (cases e; simp add: footprint_def)+
  moreover have "writes (footprint e) (endpoint_handler A files e r)"
    using writes_open_handler writes_console_handler
    by (auto simp: endpoint_handler_def RequireOperator_def intro: writes_intros split: option.split)
  ultimately show ?thesis using retains_other by metis
qed

lemma request_retains:
  assumes "run_state (routes A files r) w = (resp, w')" and "arrives r" and "retained S U w"
  shows "retained S U w'"
  using assms(1,2)
proof (cases rule: routes_reach)
  case 1
  then show ?thesis using assms(3) by (auto elim: retained_same)
next
  case (2 e r' a b v)
  then show ?thesis using keepsD [OF retains_endpoint 2(1)] assms(3) by simp
qed

section \<open>Clean-ups retain the sessions that are live\<close>

lemma delete_inactive_leaves:
  assumes "run_state (Manager_DeleteInactive E) w = (res, w')" and "s \<in> set (rows Sessions w)"
    and "Session_RevokedAt s = None" and "clock E (ticks w) \<le> Session_ExpiresAt s"
  shows "s \<in> set (rows Sessions w')"
  using assms
  by (auto simp: Manager_DeleteInactive_def gormSessionRepo_DeleteInactive_def Delete_def run_Now sql_def Let_def
      table_delete_def rows_def split: fault.splits)

lemma clean_up_leaves:
  assumes "run_state (clean_up A) w = ((), w')" and "s \<in> set (rows Sessions w)"
    and "Session_RevokedAt s = None" and "clock (app_env A) (ticks w) \<le> Session_ExpiresAt s"
  shows "s \<in> set (rows Sessions w')"
proof -
  obtain res v where v: "run_state (Manager_DeleteInactive (app_env A)) w = (res, v)" by fastforce
  have "same_but {TOperatorSessions} v (snd (run_state (OperatorManager_DeleteInactive (app_env A)) v))"
    using writes_managers(7) [of "{TOperatorSessions}"] by (simp add: writes_def)
  moreover have "snd (run_state (OperatorManager_DeleteInactive (app_env A)) v) = w'"
    using assms(1) v by (auto simp: clean_up_def split: prod.splits)
  ultimately have "rows Sessions w' = rows Sessions v" by (simp add: same_but_rows)
  with delete_inactive_leaves [OF v assms(2-4)] show ?thesis by simp
qed

section \<open>The whole way\<close>

lemma step_ticks:
  assumes "server_step A files w w'" and "world_ok (app_env A) w"
  shows "ticks w \<le> ticks w'"
  using assms(1)
proof (cases rule: server_step.cases)
  case (request r resp)
  from soundD [OF sound_routes assms(2) this(2)] show ?thesis by (simp add: advances_def nexts_grow_def)
next
  case tick
  from soundD [OF sound_clean_up assms(2) this] show ?thesis by (simp add: advances_def nexts_grow_def)
qed

lemma step_keeps_user:
  assumes "server_step A files w w'" and "u \<in> set (rows (Users E) w)"
  shows "u \<in> set (rows (Users E) w')"
  using assms(1)
proof (cases rule: server_step.cases)
  case (request r resp)
  have "retained {} {u} w" using assms(2) by (simp add: retained_def rows_def)
  from request_retains [OF request(2,1) this] show ?thesis by (simp add: retained_def rows_def)
next
  case tick
  from writesD [OF clean_up_writes this] assms(2) show ?thesis by (simp add: same_but_rows)
qed

lemma step_keeps_session:
  assumes "server_step A files w w'" and "s \<in> set (rows Sessions w)"
    and "Session_RevokedAt s = None" and "clock (app_env A) (ticks w) \<le> Session_ExpiresAt s"
  shows "s \<in> set (rows Sessions w')"
  using assms(1)
proof (cases rule: server_step.cases)
  case (request r resp)
  have "retained {s} {} w" using assms(2) by (simp add: retained_def rows_def)
  from request_retains [OF request(2,1) this] show ?thesis by (simp add: retained_def rows_def)
next
  case tick
  from clean_up_leaves [OF this assms(2-4)] show ?thesis .
qed

text \<open>
  A session that is not revoked, and its user, stay through any requests and clean-ups for as long as the clock has not
  passed the session's expiry.
\<close>

lemma reaches_retains:
  assumes "reaches A files w0 w" and "mono (clock (app_env A))" and "world_ok (app_env A) w0"
    and "s \<in> set (rows Sessions w0)" and "u \<in> set (rows (Users E) w0)" and "Session_RevokedAt s = None"
  shows "world_ok (app_env A) w \<and> u \<in> set (rows (Users E) w)
    \<and> (clock (app_env A) (ticks w) \<le> Session_ExpiresAt s \<longrightarrow> s \<in> set (rows Sessions w))"
  using assms(1)
proof (induction rule: reaches.induct)
  case start
  show ?case using assms by simp
next
  case (more w w')
  then have ok: "world_ok (app_env A) w" by blast
  have ok': "world_ok (app_env A) w'" by (rule step_keeps_constraints [OF more(2) ok])
  have clk: "clock (app_env A) (ticks w) \<le> clock (app_env A) (ticks w')"
    by (rule monoD [OF assms(2) step_ticks [OF more(2) ok]])
  have u: "u \<in> set (rows (Users E) w')"
    using more(3) step_keeps_user [OF more(2)] by blast
  show ?case
    using ok' u clk more(3) step_keeps_session [OF more(2) _ assms(6)] by fastforce
qed

end
