(* ===== verification/Sign_In.thy ===== *)
theory Sign_In
  imports Code_Flow Retention
begin

text \<open>
  Signing in from end to end: the session the provider's answer has started (internal/upstream\_flow.go) is
  the one the session middleware (internal/middleware) reads from the browser's next requests, however many other
  requests and clean-ups there are before them, and a request to the authorization endpoint
  (internal/authorize.go) sent with it gets its code.  docs/README.md says that a user's session exists to carry a single authorization
  request; no code limits it so: a session serves every request until it expires.
\<close>

section \<open>The session is found\<close>

lemma session_unique:
  assumes "world_ok E w" and "s \<in> set (rows Sessions w)" and "t \<in> set (rows Sessions w)"
    and "Session_TokenHash s = Session_TokenHash t"
  shows "s = t"
proof -
  have "table_ok sessions_schema (sessions w)"
    using world_ok_models(2) [OF assms(1)] by (simp add: model_ok_def Sessions_def)
  then show ?thesis
    using assms(2-4) by (intro sessions_tbl.table_ok_clash) (simp_all add: rows_def sessions_schema_def)
qed

lemma user_unique:
  assumes "world_ok E w" and "u \<in> set (rows (Users E) w)" and "v \<in> set (rows (Users E) w)" and "User_ID u = User_ID v"
  shows "u = v"
proof -
  have "table_ok (users_schema E) (users w)"
    using world_ok_models(1) [OF assms(1)] by (simp add: model_ok_def Users_def)
  then show ?thesis
    using assms(2-4) by (intro users_tbl.table_ok_unique_id) (simp_all add: rows_def users_schema_def)
qed

lemma current_userI:
  assumes "world_ok (app_env A) w" and "Request_Cookie r (CookieName (app_sessions A)) = Some token"
    and "s \<in> set (rows Sessions w)" and "Session_TokenHash s = Sum256 token" and "Session_RevokedAt s = None"
    and "clock (app_env A) (ticks w) \<le> Session_ExpiresAt s"
    and "u \<in> set (rows (Users (app_env A)) w)" and "User_ID u = Session_UserID s"
  shows "current_user A w r = Some u"
proof -
  have "find (\<lambda>s. Session_TokenHash s = Sum256 token) (rows Sessions w) = Some s"
    using assms(3,4) session_unique [OF assms(1)] by (intro find_unique) simp_all
  moreover have "find (\<lambda>u. User_ID u = Session_UserID s) (rows (Users (app_env A)) w) = Some u"
    using assms(7,8) user_unique [OF assms(1)] by (intro find_unique) simp_all
  ultimately show ?thesis
    using assms(2,5,6) by (simp add: current_user_def current_of_def Manager_GetCookie_def live_session_def live_def user_of_def)
qed

lemma Session_runs_current:
  assumes "current_user A w r = Some u"
    and "db_fault (app_env A) (db_calls w) = NoFault" and "db_fault (app_env A) (Suc (db_calls w)) = NoFault"
  shows "\<exists>a b. run_state (Session A serve r) w = run_state (serve (r\<lparr>req_user := Some u\<rparr>)) (counted a b w)"
proof (rule Session_runs [of A serve r w])
  fix p a b
  assume "run_state (Session A serve r) w = run_state (serve (in_context (\<lambda>u. req_user_update (\<lambda>_. Some u)) p r)) (counted a b w)"
    and "db_fault (app_env A) (db_calls w) = NoFault \<Longrightarrow> db_fault (app_env A) (Suc (db_calls w)) = NoFault \<Longrightarrow> p = current_user A w r"
  with assms show ?thesis by (intro exI [of _ a] exI [of _ b]) simp
qed

lemma world_ok_ticks [simp]: "world_ok E (w\<lparr>ticks := k\<rparr>) = world_ok E w"
  by (simp add: world_ok_def model_ok_def rows_def model_defs schema_defs)

lemma Manager_Create_others:
  "rows (Users E) (snd (run_state (Manager_Create E c i) w)) = rows (Users E) w"
  "rows UserIdentities (snd (run_state (Manager_Create E c i) w)) = rows UserIdentities w"
  by (simp_all add: Manager_Create_def gormSessionRepo_Create_def Create_def run_RandRead run_Now sql_def gorm_insert_def rows_def Let_def
      split: option.split fault.split sum.split prod.split)

lemma sound_ticks: "sound E m \<Longrightarrow> world_ok E w \<Longrightarrow> run_state m w = (a, w') \<Longrightarrow> world_ok E w' \<and> ticks w \<le> ticks w'"
  using soundD [of E m w a w'] by (simp add: advances_def nexts_grow_def)

text \<open>What a sign-in leaves behind: the user, linked to the provider, and a session of that user.\<close>

lemma sign_in_leaves:
  assumes "world_ok (app_env A) w" and "run_state (upstreamCallbackHandler A r) w = (resp, w')" and "resp_cookies resp \<noteq> []"
  obtains token u row s k where "hd (resp_cookies resp) = Manager_SetCookie (app_sessions A) token"
    and "u \<in> set (rows (Users (app_env A)) w')" and "row \<in> set (rows UserIdentities w')" and "Ident_UserID row = User_ID u"
    and "Ident_Provider row = ToLower (app_env A) (PathValue r ''provider'')"
    and "s \<in> set (rows Sessions w')" and "Session_TokenHash s = Sum256 token" and "Session_UserID s = User_ID u"
    and "Session_RevokedAt s = None" and "Session_ExpiresAt s = clock (app_env A) k + TTL (app_sessions A)" and "ticks w \<le> k"
proof -
  let ?E = "app_env A" and ?name = "ToLower (app_env A) (PathValue r ''provider'')"
  from upstream_callbackE [OF assms(2,3)] obtain p v idp secret config i v0 v1 user token v2 where
    v: "run_state (upstream_pending A r ?name (Get (URL_Query r) ''state'')) w = (Some p, v)"
    and got: "run_state (ProviderService_Get ?E (app_secrets A) (Ups_ApplicationID p) ?name) v = (Inr (idp, secret), v0)"
    and conf: "ConfigFor ?E ?name (IdP_ClientID idp) secret (upstream_redirectURL A ?name) = Inr config"
    and ex: "run_state (Client_Exchange ?E config (Get (URL_Query r) ''code'') (Ups_Verifier p)) v0 = (Inr i, v1)"
    and u: "run_state (ProviderService_ProvisionUser ?E i) v1 = (Inr user, v2)"
    and made: "run_state (Manager_Create ?E (app_sessions A) (User_ID user)) v2 = (Inr token, w')"
    and resp: "resp = with_cookies (Manager_SetCookie (app_sessions A) token # clearUpstreamCookies A) (Redirect (Ups_ReturnTo p) StatusSeeOther)" .
  have name: "Identity_Provider i = ?name"
    using conf ex exchangeOIDCD exchangeGitHubD unfolding Client_Exchange_def by (auto simp: ConfigFor_def split: if_splits)
  have 0: "world_ok ?E v" "ticks w \<le> ticks v"
    using v assms(1) by (auto simp: upstream_pending_def run_Now world_ok_ticks split: option.splits if_splits)
  have 1: "world_ok ?E v0" "ticks v \<le> ticks v0"
    using sound_ticks [OF _ 0(1) got] by (simp_all add: schema_intros)
  have 2: "world_ok ?E v1" "ticks v0 \<le> ticks v1"
    using sound_ticks [OF _ 1(1) ex] by (simp_all add: schema_intros)
  have "ticks v1 \<le> ticks v2"
    using sound_ticks [OF _ 2(1) u] by (simp add: schema_intros)
  with 0 1 2 have k: "ticks w \<le> ticks v2" by simp
  obtain row where row: "user \<in> set (rows (Users ?E) v2)" "row \<in> set (rows UserIdentities v2)"
    "identity_of i row" "Ident_UserID row = User_ID user"
    using u by (cases rule: ProvisionUserE) auto
  from Manager_sessions.create_fresh [OF made] obtain s where s: "rows Sessions w' = rows Sessions v2 @ [s]"
    "Session_TokenHash s = Sum256 token" "Session_UserID s = User_ID user"
    "Session_ExpiresAt s = clock ?E (ticks v2) + TTL (app_sessions A)" "Session_RevokedAt s = None" .
  have same: "rows (Users ?E) w' = rows (Users ?E) v2" "rows UserIdentities w' = rows UserIdentities v2"
    using made Manager_Create_others by (auto dest!: run_state_eqD)
  have "hd (resp_cookies resp) = Manager_SetCookie (app_sessions A) token" by (simp add: resp)
  with row s k name show thesis
    by (intro that [of token user row s "ticks v2"]) (simp_all add: same identity_of_def)
qed

section \<open>The code is stored\<close>

lemma authorize_issue_stores:
  assumes "calm A" and "client \<in> set (rows OAuthClients w)" and "user \<in> set (rows (Users (app_env A)) w)"
    and "Req_CodeChallengeMethod req = ''S256''" and "entropy (app_env A) (entropy_reads w) 32 = Some b"
    and "\<forall>c \<in> set (rows Codes w). Code_CodeHash c \<noteq> Sum256 (RawURLEncode b)"
  shows "\<exists>c w'. run_state (authorize_issue A req client user) w = (authorize_success (app_env A) req (RawURLEncode b), w')
    \<and> rows Codes w' = rows Codes w @ [c] \<and> code_for req client user (RawURLEncode b) (clock (app_env A) (ticks w)) c"
proof -
  let ?E = "app_env A" and ?now = "clock (app_env A) (ticks w)"
  let ?v = "w\<lparr>entropy_reads := Suc (entropy_reads w), ticks := Suc (Suc (ticks w)), db_calls := Suc (db_calls w)\<rparr>"
  let ?c = "sch_set_id codes_schema (tbl_next (codes w)) (m_created Codes (clock ?E (Suc (ticks w))) (new_code req client user (RawURLEncode b) ?now))"
  have c: "code_for req client user (RawURLEncode b) ?now ?c"
    using stored_code [of req client user "RawURLEncode b" ?now "tbl_next (codes w)"] assms(4) by (simp add: Codes_def)
  have "sch_check codes_schema ?c" "sch_refs codes_schema ?v ?c" "\<not> list_ex (\<lambda>s. sch_clash codes_schema s ?c) (tbl_rows (codes w))"
    using c assms(2-4,6)
    by (auto simp: codes_schema_def code_for_def has_row_iff rows_def list_ex_iff OAuthClients_def Users_def simp del: b64_encode.simps)
  then have "gorm_insert Codes (m_created Codes (clock ?E (Suc (ticks w))) (new_code req client user (RawURLEncode b) ?now)) ?v
      = (Inr ?c, ?v\<lparr>codes := codes w\<lparr>tbl_rows := rows Codes w @ [?c], tbl_next := tbl_next (codes w) + 1\<rparr>\<rparr>)"
    by (simp add: gorm_insert_def table_insert_def Let_def rows_def Codes_def)
  with assms(1,5) have "run_state (authorize_issue A req client user) w = (authorize_success ?E req (RawURLEncode b),
      ?v\<lparr>codes := codes w\<lparr>tbl_rows := rows Codes w @ [?c], tbl_next := tbl_next (codes w) + 1\<rparr>\<rparr>)"
    by (simp add: authorize_issue_def run_Generate run_Now gormCodeRepo_Create_def Create_def sql_def calm_def Let_def)
  with c show ?thesis by (auto simp: rows_def Codes_def)
qed

text \<open>A request that passes the checks of the authorization endpoint.\<close>

definition grantable :: "world \<Rightarrow> authorize_request \<Rightarrow> oauth_client \<Rightarrow> application \<Rightarrow> bool" where
  "grantable w req client application \<longleftrightarrow>
     client \<in> set (rows OAuthClients w) \<and> Client_ClientID client = Req_ClientID req \<and> Req_ClientID req \<noteq> []
     \<and> Req_RedirectURI req \<in> set (Client_RedirectURIs client) \<and> Req_RedirectURI req \<noteq> []
     \<and> application \<in> set (rows Applications w) \<and> App_ID application = Client_ApplicationID client
     \<and> Validate req = None \<and> ValidateRequestedScopes application (Req_Scope req)"

lemma application_unique:
  assumes "world_ok E w" and "a \<in> set (rows Applications w)" and "b \<in> set (rows Applications w)" and "App_ID a = App_ID b"
  shows "a = b"
proof -
  have "table_ok applications_schema (applications w)"
    using world_ok_models(5) [OF assms(1)] by (simp add: model_ok_def Applications_def)
  then show ?thesis
    using assms(2-4) by (intro applications_tbl.table_ok_unique_id) (simp_all add: rows_def applications_schema_def Applications_def)
qed

lemma authorize_checks_pass:
  assumes "calm A" and "world_ok (app_env A) w" and "grantable w req client application"
  shows "run_state (authorize_client A req) w = (Inr client, counted 0 1 w)"
    and "run_state (authorize_application A req client) (counted 0 1 w) = (Inr application, counted 0 2 w)"
proof -
  have "lookup (app_env A) OAuthClients (\<lambda>c. Client_ClientID c = Req_ClientID req) w = Inr client"
    using assms(1,3) client_unique [OF assms(2)] by (intro calm_lookup) (simp_all add: grantable_def)
  with assms(3) show "run_state (authorize_client A req) w = (Inr client, counted 0 1 w)"
    by (simp add: authorize_client_def run_lookups grantable_def IsRedirectURIAllowed_def list_ex_iff)
  have "lookup (app_env A) Applications (\<lambda>a. App_ID a = Client_ApplicationID client) (counted 0 1 w) = Inr application"
    using assms(1,3) application_unique [OF assms(2)]
    by (intro calm_lookup) (simp_all add: grantable_def rows_def Applications_def)
  with assms(3) show "run_state (authorize_application A req client) (counted 0 1 w) = (Inr application, counted 0 2 w)"
    by (simp add: authorize_application_def run_lookups grantable_def numeral_2_eq_2)
qed

lemma authorizeHandler_grants:
  assumes "calm A" and "world_ok (app_env A) w" and "grantable w (ParseAuthorizeRequest (URL_Query r)) client application"
    and "req_user r = Some user" and "user \<in> set (rows (Users (app_env A)) w)"
    and "entropy (app_env A) (entropy_reads w) 32 = Some b" and "\<forall>c \<in> set (rows Codes w). Code_CodeHash c \<noteq> Sum256 (RawURLEncode b)"
  shows "\<exists>c w'. run_state (authorizeHandler A r) w = (authorize_success (app_env A) (ParseAuthorizeRequest (URL_Query r)) (RawURLEncode b), w')
    \<and> rows Codes w' = rows Codes w @ [c]
    \<and> code_for (ParseAuthorizeRequest (URL_Query r)) client user (RawURLEncode b) (clock (app_env A) (ticks w)) c"
proof -
  let ?req = "ParseAuthorizeRequest (URL_Query r)"
  have "Req_CodeChallengeMethod ?req = ''S256''"
    using assms(3) by (auto simp: grantable_def Validate_def split: if_splits)
  moreover have "rows Codes (counted 0 2 w) = rows Codes w" "rows OAuthClients (counted 0 2 w) = rows OAuthClients w"
    by (simp_all add: rows_def Codes_def OAuthClients_def)
  moreover have "client \<in> set (rows OAuthClients w)" using assms(3) by (simp add: grantable_def)
  ultimately show ?thesis
    using authorize_issue_stores [OF assms(1), of client "counted 0 2 w" user ?req b] assms(4-7)
      authorize_checks_pass [OF assms(1-3)]
    by (simp add: authorizeHandler_def UserFromContext_def Let_def)
qed

section \<open>Properties\<close>

text \<open>
  C7.  Signing in works.  When the callback has set cookies, the first carries the token of a session; the
  identity's provider is linked to a user; and from then on, until the session's lifetime has passed since the
  callback began, every request that returns the cookie is handled as one of that user, whatever requests and
  clean-ups of the server come in between and whatever fails in them, provided the two queries of the middleware for
  this request are answered.  (docs/README.md has such a session carry a single authorization request; the code does not.)
\<close>

theorem sign_in_recognised:
  assumes "mono (clock (app_env A))" and "world_ok (app_env A) w"
    and "run_state (upstreamCallbackHandler A r) w = (resp, w')" and "resp_cookies resp \<noteq> []"
  shows "\<exists>token u row. hd (resp_cookies resp) = Manager_SetCookie (app_sessions A) token
    \<and> row \<in> set (rows UserIdentities w') \<and> Ident_UserID row = User_ID u
    \<and> Ident_Provider row = ToLower (app_env A) (PathValue r ''provider'') \<and> u \<in> set (rows (Users (app_env A)) w')
    \<and> (\<forall>files j v m n r' serve. reaches A files (counted j 0 w') v
        \<and> clock (app_env A) (ticks v + m) \<le> clock (app_env A) (ticks w) + TTL (app_sessions A)
        \<and> db_fault (app_env A) (db_calls v + n) = NoFault \<and> db_fault (app_env A) (Suc (db_calls v + n)) = NoFault
        \<and> Request_Cookie r' (CookieName (app_sessions A)) = Some token
        \<longrightarrow> current_user A (counted m n v) r' = Some u
          \<and> (\<exists>a b. run_state (Session A serve r') (counted m n v) = run_state (serve (r'\<lparr>req_user := Some u\<rparr>)) (counted a b v)))"
proof -
  let ?E = "app_env A"
  from sign_in_leaves [OF assms(2-4)] obtain token u row s k where
    left: "hd (resp_cookies resp) = Manager_SetCookie (app_sessions A) token" "u \<in> set (rows (Users ?E) w')"
      "row \<in> set (rows UserIdentities w')" "Ident_UserID row = User_ID u" "Ident_Provider row = ToLower ?E (PathValue r ''provider'')"
    and s: "s \<in> set (rows Sessions w')" "Session_TokenHash s = Sum256 token" "Session_UserID s = User_ID u" "Session_RevokedAt s = None"
    and life: "Session_ExpiresAt s = clock ?E k + TTL (app_sessions A)" "ticks w \<le> k" .
  have lasts: "clock ?E (ticks w) + TTL (app_sessions A) \<le> Session_ExpiresAt s"
    using monoD [OF assms(1) life(2)] life(1) by simp
  have ok: "world_ok ?E w'"
    using sound_world_ok [OF sound_upstreamCallbackHandler assms(2), of r] assms(3) by simp
  have user: "current_user A (counted m n v) r' = Some u"
    if v: "reaches A files (counted j 0 w') v" and t: "clock ?E (ticks v + m) \<le> clock ?E (ticks w) + TTL (app_sessions A)"
      and c: "Request_Cookie r' (CookieName (app_sessions A)) = Some token" for files j v m n r'
  proof -
    have "clock ?E (ticks v) \<le> clock ?E (ticks v + m)" by (intro monoD [OF assms(1)]) simp
    with t lasts reaches_retains [OF v assms(1), of s u ?E] ok s(1,4) left(2)
    have "world_ok ?E v" "s \<in> set (rows Sessions v)" "u \<in> set (rows (Users ?E) v)" "clock ?E (ticks v + m) \<le> Session_ExpiresAt s"
      by (simp_all add: world_ok_counted rows_def)
    with s c show ?thesis
      by (intro current_userI [of A "counted m n v" r' token s]) (simp_all add: world_ok_counted rows_def add.commute)
  qed
  moreover have "\<exists>a b. run_state (Session A serve r') (counted m n v) = run_state (serve (r'\<lparr>req_user := Some u\<rparr>)) (counted a b v)"
    if cu: "current_user A (counted m n v) r' = Some u"
      and calm: "db_fault ?E (db_calls v + n) = NoFault" "db_fault ?E (Suc (db_calls v + n)) = NoFault" for v m n r' serve
  proof -
    obtain a b where "run_state (Session A serve r') (counted m n v)
        = run_state (serve (r'\<lparr>req_user := Some u\<rparr>)) (counted a b (counted m n v))"
      using Session_runs_current [OF cu, of serve] calm by (auto simp: add.commute)
    then show ?thesis by auto
  qed
  ultimately show ?thesis
    using left by (intro exI [of _ token] exI [of _ u] exI [of _ row]) blast
qed

lemma only_query_changed:
  assumes "target = uri\<lparr>URL_RawQuery := q\<rparr>"
  shows "URL_Host target = URL_Host uri" and "URL_Path target = URL_Path uri"
  using assms by simp_all

lemma broker_world_ok: "world_ok github_env broker_world"
  by (simp add: world_ok_def model_ok_def table_ok_def rows_def model_defs schema_defs has_row_def broker_world_def
      sample_application_def signed_in_defs)

lemma clean_up_ticks: "ticks (snd (run_state (clean_up A) w)) = ticks w + 2"
  by (simp add: clean_up_def Manager_DeleteInactive_def gormSessionRepo_DeleteInactive_def OperatorManager_DeleteInactive_def
      gormOperatorSessionRepo_DeleteInactive_def Delete_def run_Now sql_def Let_def split: fault.split)

text \<open>A callback, a clean-up, and the request that returns the cookie.\<close>

theorem sign_in_recognised_witness:
  "\<exists>token (u :: user) w' v. w' = snd (run_state (upstreamCallbackHandler broker_app callback_request) broker_world)
     \<and> hd (resp_cookies (fst (run_state (upstreamCallbackHandler broker_app callback_request) broker_world)))
        = Manager_SetCookie (app_sessions broker_app) token
     \<and> server_step broker_app no_files w' v \<and> run_state (clean_up broker_app) w' = ((), v)
     \<and> fst (run_state (Session broker_app greeting (sample_request\<lparr>req_cookies := [(CookieName (app_sessions broker_app), token)]\<rparr>)) v)
        = Error (User_Email u) StatusOK"
proof -
  let ?r = "\<lambda>token. sample_request\<lparr>req_cookies := [(CookieName (app_sessions broker_app), token)]\<rparr>"
  obtain resp w' where run: "run_state (upstreamCallbackHandler broker_app callback_request) broker_world = (resp, w')" by fastforce
  then have cookies: "resp_cookies resp \<noteq> []" and t: "ticks w' = 3" using broker_callback by simp_all
  have app: "app_env broker_app = github_env" by (simp add: broker_app_def)
  have mono: "mono (clock (app_env broker_app))" unfolding app by (rule monoI) simp
  have ok: "world_ok (app_env broker_app) broker_world" using broker_world_ok by (simp add: app)
  obtain v where v: "run_state (clean_up broker_app) w' = ((), v)" by (cases "run_state (clean_up broker_app) w'") simp
  then have step: "server_step broker_app no_files w' v" by (rule server_step.tick)
  have reach: "reaches broker_app no_files (counted 0 0 w') v"
    using reaches.more [OF reaches.start step] by simp
  have time: "clock (app_env broker_app) (ticks v + 0) \<le> clock (app_env broker_app) (ticks broker_world) + TTL (app_sessions broker_app)"
    using clean_up_ticks [of broker_app w'] v t
    by (simp add: app broker_world_def signed_in_defs) (simp add: broker_app_def sample_app_def sample_config_def Hour_def Minute_def Second_def)
  from sign_in_recognised [OF mono ok run cookies] obtain token u where
    cookie: "hd (resp_cookies resp) = Manager_SetCookie (app_sessions broker_app) token"
    and flow: "\<And>files j v m n r' serve. reaches broker_app files (counted j 0 w') v
        \<Longrightarrow> clock (app_env broker_app) (ticks v + m) \<le> clock (app_env broker_app) (ticks broker_world) + TTL (app_sessions broker_app)
        \<Longrightarrow> db_fault (app_env broker_app) (db_calls v + n) = NoFault \<Longrightarrow> db_fault (app_env broker_app) (Suc (db_calls v + n)) = NoFault
        \<Longrightarrow> Request_Cookie r' (CookieName (app_sessions broker_app)) = Some token
        \<Longrightarrow> \<exists>a b. run_state (Session broker_app serve r') (counted m n v) = run_state (serve (r'\<lparr>req_user := Some u\<rparr>)) (counted a b v)"
    by blast
  obtain a b where "run_state (Session broker_app greeting (?r token)) v = run_state (greeting ((?r token)\<lparr>req_user := Some u\<rparr>)) (counted a b v)"
    using flow [OF reach time, of 0 "?r token" greeting] by (auto simp: app Request_Cookie_def)
  then have "fst (run_state (Session broker_app greeting (?r token)) v) = Error (User_Email u) StatusOK"
    by (simp add: greeting_def)
  with cookie step v show ?thesis
    unfolding run fst_conv snd_conv by blast
qed

text \<open>
  C8.  A signed-in user's request gets its code.  A request to the authorization endpoint, behind the session
  middleware, whose cookie names a live session of a user and which passes the checks of the client, its redirect
  URI, the request and the scopes is sent back to that URI, with nothing but its query changed, with the request's
  state and a code of 43 characters whose row is stored for that user and that request, provided no statement or
  random read fails and the random code is not one stored before.  (docs/README.md denies that a session serves a second application's request;
  it does.)
\<close>

theorem signed_in_request_granted:
  assumes "calm A" and "world_ok (app_env A) w" and "clients_ok (app_env A) w" and "current_user A w r = Some user"
    and "grantable w (ParseAuthorizeRequest (URL_Query r)) client application"
    and "entropy (app_env A) (entropy_reads w) 32 = Some b" and "\<forall>c \<in> set (rows Codes w). Code_CodeHash c \<noteq> Sum256 (RawURLEncode b)"
  shows "\<exists>uri target raw c w' k. run_state (Session A (authorizeHandler A) r) w = (Redirect (url_String target) StatusFound, w')
    \<and> Parse (app_env A) (Get (URL_Query r) ''redirect_uri'') = Some uri \<and> target = uri\<lparr>URL_RawQuery := URL_RawQuery target\<rparr>
    \<and> Get (Query (URL_RawQuery target)) ''code'' = raw \<and> length raw = 43
    \<and> Get (Query (URL_RawQuery target)) ''state'' = Get (URL_Query r) ''state''
    \<and> rows Codes w' = rows Codes w @ [c] \<and> ticks w \<le> k \<and> k \<le> ticks w'
    \<and> code_for (ParseAuthorizeRequest (URL_Query r)) client user raw (clock (app_env A) k) c"
proof -
  let ?req = "ParseAuthorizeRequest (URL_Query r)"
  have fine: "db_fault (app_env A) k = NoFault" for k using assms(1) by (simp add: calm_def)
  from Session_runs_current [OF assms(4) fine fine] obtain m n where
    run: "run_state (Session A (authorizeHandler A) r) w = run_state (authorizeHandler A (r\<lparr>req_user := Some user\<rparr>)) (counted m n w)"
    by blast
  have query: "URL_Query (r\<lparr>req_user := Some user\<rparr>) = URL_Query r" by (simp add: URL_Query_def)
  have same: "rows Codes (counted m n w) = rows Codes w" "rows OAuthClients (counted m n w) = rows OAuthClients w"
    "rows Applications (counted m n w) = rows Applications w"
    by (simp_all add: rows_def)
  have "user \<in> set (rows (Users (app_env A)) w)"
    using assms(4) by (rule current_userD)
  with authorizeHandler_grants [OF assms(1), of "counted m n w" "r\<lparr>req_user := Some user\<rparr>" client application user b] assms(2,5-7)
  obtain c w' where ran: "run_state (authorizeHandler A (r\<lparr>req_user := Some user\<rparr>)) (counted m n w)
        = (authorize_success (app_env A) ?req (RawURLEncode b), w')"
    and row: "rows Codes w' = rows Codes w @ [c]"
      "code_for ?req client user (RawURLEncode b) (clock (app_env A) (ticks w + m)) c"
    unfolding query by (auto simp: world_ok_counted grantable_def same)
  have "ticks w + m \<le> ticks w'"
    using sound_ticks [OF sound_authorizeHandler _ ran] assms(2) by (simp add: world_ok_counted)
  moreover obtain uri where uri: "Parse (app_env A) (Req_RedirectURI ?req) = Some uri"
    using registered_parses [OF assms(3)] assms(5) by (auto simp: grantable_def)
  moreover obtain target where "authorize_success (app_env A) ?req (RawURLEncode b) = Redirect (url_String target) StatusFound"
    and "target = uri\<lparr>URL_RawQuery := URL_RawQuery target\<rparr>" "Get (Query (URL_RawQuery target)) ''code'' = RawURLEncode b"
      "Get (Query (URL_RawQuery target)) ''state'' = Req_State ?req"
    using authorize_success_code [OF uri] by blast
  moreover have "length b = 32" using assms(1,6) unfolding calm_def by (metis option.inject)
  ultimately show ?thesis
    using run ran row b64_encode_32
    by (intro exI [of _ uri] exI [of _ target] exI [of _ "RawURLEncode b"] exI [of _ c] exI [of _ w'] exI [of _ "ticks w + m"])
      (simp add: ParseAuthorizeRequest_def)
qed

definition returning_request :: request where
  "returning_request = authorize_sample None\<lparr>req_cookies := [(''centrauth_session'', ''tok'')]\<rparr>"

theorem signed_in_request_granted_witness:
  "\<exists>target c w'. run_state (Session sample_app (authorizeHandler sample_app) returning_request) authorize_world
      = (Redirect (url_String target) StatusFound, w')
    \<and> URL_Host target = ''app'' \<and> URL_Path target = ''/cb'' \<and> length (Get (Query (URL_RawQuery target)) ''code'') = 43
    \<and> Get (Query (URL_RawQuery target)) ''state'' = ''st'' \<and> rows Codes w' = [c] \<and> Code_UserID c = User_ID sample_user"
proof -
  have query: "URL_Query returning_request = URL_Query (authorize_sample None)" by (simp add: URL_Query_def returning_request_def)
  have get: "Get (URL_Query returning_request) ''redirect_uri'' = ''https://app/cb''" "Get (URL_Query returning_request) ''state'' = ''st''"
    unfolding query by (simp_all add: URL_Query_def authorize_sample_def Get_Query_Encode) (simp_all add: authorize_values_def Get_def)
  have "calm sample_app" "world_ok (app_env sample_app) authorize_world" "clients_ok (app_env sample_app) authorize_world"
    using authorize_world_ok sample_clients_ok by (simp_all add: calm_def)
  moreover have "current_user sample_app authorize_world returning_request = Some sample_user"
    by (simp add: current_user_def current_of_def Manager_GetCookie_def Request_Cookie_def returning_request_def sample_request_def
        sample_app_def live_session_def live_def user_of_def rows_def authorize_world_def grant_world_def signed_in_defs)
  moreover have "grantable authorize_world (ParseAuthorizeRequest (URL_Query returning_request)) sample_client sample_application"
    using sample_scopes sample_req_valid unfolding query parse_authorize_sample
    by (simp add: grantable_def) (simp add: sample_req_def rows_def authorize_world_def grant_world_def sample_client_def sample_application_def)
  moreover have empty: "rows Codes authorize_world = []" by (simp add: rows_def authorize_world_def empty_table_def)
  moreover have "entropy (app_env sample_app) (entropy_reads authorize_world) 32 = Some (replicate 32 (char_of (entropy_reads authorize_world)))"
    by simp
  ultimately obtain uri target raw c w' where
    "run_state (Session sample_app (authorizeHandler sample_app) returning_request) authorize_world = (Redirect (url_String target) StatusFound, w')"
    "Parse (app_env sample_app) ''https://app/cb'' = Some uri" "target = uri\<lparr>URL_RawQuery := URL_RawQuery target\<rparr>"
    "length (Get (Query (URL_RawQuery target)) ''code'') = 43" "Get (Query (URL_RawQuery target)) ''state'' = ''st''"
    "rows Codes w' = [c]" "Code_UserID c = User_ID sample_user"
    using signed_in_request_granted [of sample_app authorize_world returning_request sample_user sample_client sample_application]
    unfolding get by (fastforce simp: code_for_def)
  moreover from this(2) have "uri = empty_url\<lparr>URL_Scheme := ''https'', URL_Host := ''app'', URL_Path := ''/cb''\<rparr>"
    by (simp add: parse_sample_uri)
  with only_query_changed [OF calculation(3)] have "URL_Host target = ''app''" "URL_Path target = ''/cb''"
    by simp_all
  ultimately show ?thesis by blast
qed

end
