(* ===== verification/Go_Duration.thy ===== *)
theory Go_Duration
  imports Go_Numbers Go_Unicode Go_Strings
begin

text \<open>
  \<open>time.ParseDuration\<close> and \<open>strconv.Atoi\<close>, with their errors, and the paths of the package path/filepath.
\<close>

section \<open>Numbers\<close>

text \<open>
  \<open>strconv.Atoi\<close> on a 64-bit machine.  A number is out of range when it is well formed, or when its digits are
  too many before another byte is met.
\<close>

definition Atoi_complaint :: "string \<Rightarrow> string" where
  "Atoi_complaint s =
     (let u = (if HasPrefix s ''-'' \<or> HasPrefix s ''+'' then tl s else s) in
      if u \<noteq> [] \<and> list_all is_digit u \<or> 2 ^ 64 \<le> digits_value 0 (takeWhile is_digit u) then ''value out of range''
      else ''invalid syntax'')"

definition Atoi :: "env \<Rightarrow> string \<Rightarrow> goerr + int" where
  "Atoi E s =
     (case ParseInt 64 s of
        Some i \<Rightarrow> Inr i
      | None \<Rightarrow> Inl (ErrText (''strconv.Atoi: parsing '' @ Quote E s @ '': '' @ Atoi_complaint s)))"

section \<open>Durations\<close>

definition unit_nanos :: "string \<Rightarrow> nat option" where
  "unit_nanos = map_of
     [(''ns'', 1), (''us'', 1000), ([CHR 0xC2, CHR 0xB5, CHR ''s''], 1000), ([CHR 0xCE, CHR 0xBC, CHR ''s''], 1000),
      (''ms'', 1000000), (''s'', 1000000000), (''m'', 60000000000), (''h'', 3600000000000)]"

text \<open>\<open>leadingFraction\<close>: the digits up to an overflow, and the power of ten they are to be divided by.\<close>

fun leading_fraction :: "nat \<Rightarrow> nat \<Rightarrow> string \<Rightarrow> nat \<times> nat" where
  "leading_fraction x scale [] = (x, scale)"
| "leading_fraction x scale (c # cs) =
     (if x > (2 ^ 63 - 1) div 10 then (x, scale)
      else let y = 10 * x + (of_char c - 48) in
        if y > 2 ^ 63 then (x, scale) else leading_fraction y (10 * scale) cs)"

datatype duration_error = InvalidDuration | MissingUnit | UnknownUnit string

definition unit_byte :: "char \<Rightarrow> bool" where
  "unit_byte c \<longleftrightarrow> c \<noteq> CHR ''.'' \<and> \<not> is_digit c"

text \<open>
  One number with its unit.  The nanoseconds of a fraction are computed in floating point, by
  \<open>float_nanos\<close> from the fraction's digits, their scale and the unit; sums are of 64 bits without a sign.
\<close>

definition duration_term :: "(nat \<Rightarrow> nat \<Rightarrow> nat \<Rightarrow> nat) \<Rightarrow> string \<Rightarrow> duration_error + nat \<times> string" where
  "duration_term float_nanos s =
     (let ds = takeWhile is_digit s; r = dropWhile is_digit s; v = digits_value 0 ds;
          point = HasPrefix r ''.'';
          fs = (if point then takeWhile is_digit (tl r) else []);
          r = (if point then dropWhile is_digit (tl r) else r);
          u = takeWhile unit_byte r; rest = dropWhile unit_byte r in
      if ds = [] \<and> \<not> point \<or> v > 2 ^ 63 \<or> ds = [] \<and> fs = [] then Inl InvalidDuration
      else if u = [] then Inl MissingUnit
      else case unit_nanos u of
        None \<Rightarrow> Inl (UnknownUnit u)
      | Some n \<Rightarrow>
          if v > 2 ^ 63 div n then Inl InvalidDuration
          else case leading_fraction 0 1 fs of (f, scale) \<Rightarrow>
            let w = (if f > 0 then (v * n + float_nanos f scale n) mod 2 ^ 64 else v * n) in
            if w > 2 ^ 63 then Inl InvalidDuration else Inr (w, rest))"

lemma duration_termD:
  assumes "duration_term p s = Inr (w, rest)"
  shows "\<exists>r. length r \<le> length s \<and> takeWhile unit_byte r \<noteq> [] \<and> rest = dropWhile unit_byte r"
proof -
  let ?t = "dropWhile is_digit s"
  let ?r = "if HasPrefix ?t ''.'' then dropWhile is_digit (tl ?t) else ?t"
  have "length (dropWhile is_digit (tl ?t)) \<le> length (tl ?t)" "length ?t \<le> length s" by (rule length_dropWhile_le)+
  then have "length ?r \<le> length s" by (simp, intro impI, linarith)
  moreover have "takeWhile unit_byte ?r \<noteq> []"
    using assms unfolding duration_term_def Let_def by (metis sum.simps(4))
  moreover have "rest = dropWhile unit_byte ?r"
    using assms calculation(2) unfolding duration_term_def Let_def
    by (simp only: if_False sum.simps prod.inject split: if_split_asm option.split_asm prod.split_asm)
       (simp_all only: if_True if_False)
  ultimately show ?thesis by blast
qed

lemma duration_term_shorter: "duration_term p s = Inr (w, rest) \<Longrightarrow> length rest < length s"
proof -
  assume "duration_term p s = Inr (w, rest)"
  then obtain r where r: "length r \<le> length s" "takeWhile unit_byte r \<noteq> []" "rest = dropWhile unit_byte r"
    using duration_termD by blast
  from r(2) have "length (dropWhile unit_byte r) < length r"
    by (cases r) (auto simp: le_imp_less_Suc length_dropWhile_le split: if_splits)
  with r(1,3) show ?thesis by simp
qed

function duration_terms :: "(nat \<Rightarrow> nat \<Rightarrow> nat \<Rightarrow> nat) \<Rightarrow> nat \<Rightarrow> string \<Rightarrow> duration_error + nat" where
  "duration_terms float_nanos d s =
     (if s = [] then Inr d
      else case duration_term float_nanos s of
        Inl e \<Rightarrow> Inl e
      | Inr (v, rest) \<Rightarrow>
          let d = (d + v) mod 2 ^ 64 in
          if d > 2 ^ 63 then Inl InvalidDuration else duration_terms float_nanos d rest)"
  by pat_completeness auto
termination
  by (relation "measure (\<lambda>(p, d, s). length s)") (auto simp: duration_term_shorter)

declare duration_terms.simps [simp del]

text \<open>The quoting of the package time escapes byte by byte.\<close>

definition time_quote :: "string \<Rightarrow> string" where
  "time_quote s = CHR 0x22 # concat (map (\<lambda>c.
     if \<not> c < CHR 0x80 \<or> c < CHR 0x20 then [CHR 0x5C, CHR ''x'', lower_hex (of_char c div 16), lower_hex (of_char c mod 16)]
     else if c = CHR 0x22 \<or> c = CHR 0x5C then [CHR 0x5C, c] else [c]) s) @ [CHR 0x22]"

definition duration_complaint :: "string \<Rightarrow> duration_error \<Rightarrow> goerr" where
  "duration_complaint orig e =
     ErrText (case e of
        InvalidDuration \<Rightarrow> ''time: invalid duration '' @ time_quote orig
      | MissingUnit \<Rightarrow> ''time: missing unit in duration '' @ time_quote orig
      | UnknownUnit u \<Rightarrow> ''time: unknown unit '' @ time_quote u @ '' in duration '' @ time_quote orig)"

definition ParseDuration :: "(nat \<Rightarrow> nat \<Rightarrow> nat \<Rightarrow> nat) \<Rightarrow> string \<Rightarrow> goerr + duration" where
  "ParseDuration float_nanos orig =
     (let neg = HasPrefix orig ''-'';
          s = (if HasPrefix orig ''-'' \<or> HasPrefix orig ''+'' then tl orig else orig) in
      if s = ''0'' then Inr 0
      else if s = [] then Inl (duration_complaint orig InvalidDuration)
      else case duration_terms float_nanos 0 s of
        Inl e \<Rightarrow> Inl (duration_complaint orig e)
      | Inr d \<Rightarrow>
          if neg then Inr (- int d)
          else if d > 2 ^ 63 - 1 then Inl (duration_complaint orig InvalidDuration) else Inr (int d))"

text \<open>A duration has 64 bits.\<close>

lemma duration_terms_bound: "duration_terms p d s = Inr n \<Longrightarrow> d \<le> 2 ^ 63 \<Longrightarrow> n \<le> 2 ^ 63"
  by (induction p d s rule: duration_terms.induct)
     (subst (asm) (2) duration_terms.simps, auto simp: Let_def not_less split: if_splits sum.splits)

lemma ParseDuration_bounds: "ParseDuration p s = Inr d \<Longrightarrow> - (2 ^ 63) \<le> d \<and> d < 2 ^ 63"
proof -
  assume d: "ParseDuration p s = Inr d"
  show ?thesis
  proof (cases "\<exists>n t. duration_terms p 0 t = Inr n \<and> (d = - int n \<or> d = int n \<and> n \<le> 2 ^ 63 - 1)")
    case True
    then obtain n t where "duration_terms p 0 t = Inr n" and n: "d = - int n \<or> d = int n \<and> n \<le> 2 ^ 63 - 1" by blast
    then have "n \<le> 2 ^ 63" using duration_terms_bound by blast
    then have "int n \<le> 2 ^ 63" "n \<le> 2 ^ 63 - 1 \<Longrightarrow> int n \<le> 2 ^ 63 - 1" by simp_all
    with n show ?thesis by auto
  next
    case False
    then have "d = 0" using d by (auto simp: ParseDuration_def Let_def not_less split: if_splits sum.splits)
    then show ?thesis by simp
  qed
qed

section \<open>Paths\<close>

fun clean_parts :: "bool \<Rightarrow> string list \<Rightarrow> string list \<Rightarrow> string list" where
  "clean_parts rooted out [] = rev out"
| "clean_parts rooted out (s # ss) =
     (if s = [] \<or> s = ''.'' then clean_parts rooted out ss
      else if s \<noteq> ''..'' then clean_parts rooted (s # out) ss
      else if out \<noteq> [] \<and> hd out \<noteq> ''..'' then clean_parts rooted (tl out) ss
      else if rooted then clean_parts rooted out ss
      else clean_parts rooted (s # out) ss)"

definition filepath_Clean :: "string \<Rightarrow> string" where
  "filepath_Clean path =
     (let rooted = HasPrefix path ''/''; p = Join ''/'' (clean_parts rooted [] (Split path (CHR ''/''))) in
      if rooted then CHR ''/'' # p else if p = [] then ''.'' else p)"

definition filepath_Dir :: "string \<Rightarrow> string" where
  "filepath_Dir path = filepath_Clean (rev (dropWhile (\<lambda>c. c \<noteq> CHR ''/'') (rev path)))"

end
