(* ===== verification/Key_Files.thy ===== *)
theory Key_Files
  imports Secrets Oidc Go_Duration
begin

text \<open>
  The key files of a server: the signing key (internal/signing/keys.go) and the key of the secrets box
  (internal/secrets/box.go), which are read at the start or made when they are missing.
\<close>

section \<open>Files\<close>

text \<open>
  The contents of the files, and how many file operations and reads of random bytes there have been.  What the
  operating system answers is chosen from outside: the file a path names, and for each operation whether it
  fails; a write may fail before the file is opened or after so many bytes.
\<close>

record disk =
  disk_files :: "string \<Rightarrow> string option"
  disk_ops :: nat
  disk_random :: nat

record disk_env =
  file_named :: "string \<Rightarrow> string"
  read_fails :: "nat \<Rightarrow> string \<Rightarrow> goerr option"
  mkdir_fails :: "nat \<Rightarrow> string \<Rightarrow> goerr option"
  write_fails :: "nat \<Rightarrow> string \<Rightarrow> (goerr \<times> nat option) option"
  disk_entropy :: "nat \<Rightarrow> nat \<Rightarrow> string option"

datatype file_error = NotExist | FileError goerr

definition file_op :: "(nat \<Rightarrow> disk \<Rightarrow> 'a \<times> disk) \<Rightarrow> (disk, 'a) state" where
  "file_op f = State (\<lambda>d. f (disk_ops d) (d\<lparr>disk_ops := Suc (disk_ops d)\<rparr>))"

definition ReadFile :: "disk_env \<Rightarrow> string \<Rightarrow> (disk, file_error + string) state" where
  "ReadFile D path = file_op (\<lambda>k d.
     (case read_fails D k path of
        Some e \<Rightarrow> Inl (FileError e)
      | None \<Rightarrow> (case disk_files d (file_named D path) of None \<Rightarrow> Inl NotExist | Some c \<Rightarrow> Inr c), d))"

definition MkdirAll :: "disk_env \<Rightarrow> string \<Rightarrow> (disk, goerr + unit) state" where
  "MkdirAll D path = file_op (\<lambda>k d. (case mkdir_fails D k path of Some e \<Rightarrow> Inl e | None \<Rightarrow> Inr (), d))"

definition put_file :: "disk_env \<Rightarrow> string \<Rightarrow> string \<Rightarrow> disk \<Rightarrow> disk" where
  "put_file D path content d = d\<lparr>disk_files := (disk_files d)(file_named D path \<mapsto> content)\<rparr>"

definition WriteFile :: "disk_env \<Rightarrow> string \<Rightarrow> string \<Rightarrow> (disk, goerr + unit) state" where
  "WriteFile D path content = file_op (\<lambda>k d.
     case write_fails D k path of
       None \<Rightarrow> (Inr (), put_file D path content d)
     | Some (e, None) \<Rightarrow> (Inl e, d)
     | Some (e, Some n) \<Rightarrow> (Inl e, put_file D path (take n content) d))"

definition ReadRandom :: "disk_env \<Rightarrow> nat \<Rightarrow> (disk, goerr + string) state" where
  "ReadRandom D n = State (\<lambda>d.
     (case disk_entropy D (disk_random d) n of None \<Rightarrow> Inl ErrRand | Some b \<Rightarrow> Inr b, d\<lparr>disk_random := Suc (disk_random d)\<rparr>))"

text \<open>The part both packages have in common: a new file with its directory.\<close>

definition save_new_file ::
    "disk_env \<Rightarrow> (goerr \<Rightarrow> goerr) \<Rightarrow> (goerr \<Rightarrow> goerr) \<Rightarrow> string \<Rightarrow> string \<Rightarrow> 'a \<Rightarrow> (disk, goerr + 'a) state" where
  "save_new_file D dir_error write_error path content result = do {
     made \<leftarrow> (if filepath_Dir path \<noteq> [] \<and> filepath_Dir path \<noteq> ''.'' then MkdirAll D (filepath_Dir path) else ret (Inr ()));
     case made of
       Inl e \<Rightarrow> ret (Inl (dir_error e))
     | Inr _ \<Rightarrow> do {
         written \<leftarrow> WriteFile D path content;
         ret (case written of Inl e \<Rightarrow> Inl (write_error e) | Inr _ \<Rightarrow> Inr result)
       }
   }"

section \<open>The signing key (signing/keys.go)\<close>

text \<open>
  RSA keys, their encodings and signatures are the business of crypto/rsa, crypto/x509, encoding/pem and go-jose,
  whose operations are given; so is AES-GCM for a key.
\<close>

datatype 'key pkcs8 = RSAKey 'key | OtherKey

record 'pub jwk =
  JWK_Key :: 'pub
  JWK_KeyID :: string
  JWK_Algorithm :: string
  JWK_Use :: string

record ('key, 'pub) crypto =
  PublicKey :: "'key \<Rightarrow> 'pub"
  GenerateKey :: "nat \<Rightarrow> nat \<Rightarrow> goerr + 'key" \<comment> \<open>at the so many-th use of the random source, of so many bits\<close>
  MarshalPKCS8PrivateKey :: "'key \<Rightarrow> goerr + string"
  pem_EncodeToMemory :: "string \<Rightarrow> string \<Rightarrow> string"
  pem_Decode :: "string \<Rightarrow> string option" \<comment> \<open>the bytes of the first block\<close>
  ParsePKCS8PrivateKey :: "string \<Rightarrow> goerr + 'key pkcs8"
  ParsePKCS1PrivateKey :: "string \<Rightarrow> goerr + 'key"
  MarshalPKIXPublicKey :: "'pub \<Rightarrow> goerr + string"
  Marshal_jwks :: "'pub jwk list \<Rightarrow> goerr + string"
  NewSigner :: "string \<Rightarrow> 'key \<Rightarrow> (string \<times> string) list \<Rightarrow> goerr + (string \<Rightarrow> goerr + string)"
    \<comment> \<open>algorithm, key and headers; signing includes the compact serialization\<close>
  NewGCM :: "string \<Rightarrow> goerr + aead"

text \<open>What is encoded is read back.\<close>

definition keys_reread :: "('key, 'pub) crypto \<Rightarrow> bool" where
  "keys_reread C \<longleftrightarrow> (\<forall>t b. pem_Decode C (pem_EncodeToMemory C t b) = Some b)
     \<and> (\<forall>key der. MarshalPKCS8PrivateKey C key = Inr der \<longrightarrow> ParsePKCS8PrivateKey C der = Inr (RSAKey key))"

record ('key, 'pub) key_manager =
  km_privateKey :: 'key
  km_keyID :: string
  km_jwks :: "'pub jwk list"

definition rsaKeySize :: nat where
  "rsaKeySize = 2048"

definition parsePrivateKey :: "('key, 'pub) crypto \<Rightarrow> string \<Rightarrow> goerr + 'key" where
  "parsePrivateKey C data =
     (case pem_Decode C data of
        None \<Rightarrow> Inl (ErrText ''signing key file does not contain a PEM block'')
      | Some bytes \<Rightarrow>
          (case ParsePKCS8PrivateKey C bytes of
             Inr (RSAKey key) \<Rightarrow> Inr key
           | Inr OtherKey \<Rightarrow> Inl (ErrText ''signing key is not an RSA key'')
           | Inl _ \<Rightarrow>
               (case ParsePKCS1PrivateKey C bytes of
                  Inl e \<Rightarrow> Inl (ErrWrapped ''parse signing key: '' e)
                | Inr key \<Rightarrow> Inr key)))"

definition keyIDFor :: "('key, 'pub) crypto \<Rightarrow> 'pub \<Rightarrow> string" where
  "keyIDFor C pub =
     (case MarshalPKIXPublicKey C pub of Inl _ \<Rightarrow> [] | Inr der \<Rightarrow> hex_encode (take 8 (Sum256 der)))"

text \<open>Making a key: the reads of the random source are counted as one.\<close>

definition generate_rsa :: "('key, 'pub) crypto \<Rightarrow> nat \<Rightarrow> (disk, goerr + 'key) state" where
  "generate_rsa C bits = State (\<lambda>d. (GenerateKey C (disk_random d) bits, d\<lparr>disk_random := Suc (disk_random d)\<rparr>))"

definition signing_loadOrGenerateKey :: "env \<Rightarrow> disk_env \<Rightarrow> ('key, 'pub) crypto \<Rightarrow> string \<Rightarrow> (disk, goerr + 'key) state" where
  "signing_loadOrGenerateKey E D C keyPath = do {
     data \<leftarrow> ReadFile D keyPath;
     case data of
       Inr content \<Rightarrow> ret (parsePrivateKey C content)
     | Inl (FileError e) \<Rightarrow> ret (Inl (ErrWrapped (''read signing key '' @ Quote E keyPath @ '': '') e))
     | Inl NotExist \<Rightarrow> do {
         made \<leftarrow> generate_rsa C rsaKeySize;
         case made of
           Inl e \<Rightarrow> ret (Inl (ErrWrapped ''generate signing key: '' e))
         | Inr key \<Rightarrow>
             (case MarshalPKCS8PrivateKey C key of
                Inl e \<Rightarrow> ret (Inl (ErrWrapped ''marshal signing key: '' e))
              | Inr der \<Rightarrow>
                  save_new_file D (ErrWrapped ''create signing key directory: '')
                    (ErrWrapped (''write signing key '' @ Quote E keyPath @ '': '')) keyPath
                    (pem_EncodeToMemory C ''PRIVATE KEY'' der) key)
       }
   }"

definition key_manager_for :: "('key, 'pub) crypto \<Rightarrow> 'key \<Rightarrow> ('key, 'pub) key_manager" where
  "key_manager_for C key =
     (let keyID = keyIDFor C (PublicKey C key) in
      \<lparr>km_privateKey = key, km_keyID = keyID,
       km_jwks = [\<lparr>JWK_Key = PublicKey C key, JWK_KeyID = keyID, JWK_Algorithm = ''RS256'', JWK_Use = ''sig''\<rparr>]\<rparr>)"

definition NewKeyManager :: "env \<Rightarrow> disk_env \<Rightarrow> ('key, 'pub) crypto \<Rightarrow> string \<Rightarrow> (disk, goerr + ('key, 'pub) key_manager) state" where
  "NewKeyManager E D C keyPath = do {
     key \<leftarrow> signing_loadOrGenerateKey E D C keyPath;
     ret (case key of Inl e \<Rightarrow> Inl e | Inr key \<Rightarrow> Inr (key_manager_for C key))
   }"

definition KeyManager_Signer :: "('key, 'pub) crypto \<Rightarrow> ('key, 'pub) key_manager \<Rightarrow> goerr + (string \<Rightarrow> goerr + string)" where
  "KeyManager_Signer C km = NewSigner C ''RS256'' (km_privateKey km) [(''typ'', ''JWT''), (''kid'', km_keyID km)]"

definition KeyManager_JWKS :: "('key, 'pub) crypto \<Rightarrow> ('key, 'pub) key_manager \<Rightarrow> string" where
  "KeyManager_JWKS C km =
     (case Marshal_jwks C (km_jwks km) of Inl _ \<Rightarrow> json_object [(''keys'', ''[]'')] | Inr data \<Rightarrow> data)"

text \<open>Signing a payload: the calls of \<open>IDTokenIssuer.Issue\<close> on the key manager.\<close>

definition sign_payload :: "('key, 'pub) crypto \<Rightarrow> ('key, 'pub) key_manager \<Rightarrow> string \<Rightarrow> goerr + string" where
  "sign_payload C km payload = (case KeyManager_Signer C km of Inl e \<Rightarrow> Inl e | Inr sign \<Rightarrow> sign payload)"

section \<open>The key of the secrets box (secrets/box.go)\<close>

definition keySize :: nat where
  "keySize = 32"

definition NewBox :: "('key, 'pub) crypto \<Rightarrow> string \<Rightarrow> goerr + aead" where
  "NewBox C key =
     (if length key \<noteq> keySize
      then Inl (ErrText (''encryption key must be '' @ Itoa (int keySize) @ '' bytes, got '' @ Itoa (int (length key))))
      else NewGCM C key)"

definition secrets_loadOrGenerateKey :: "env \<Rightarrow> disk_env \<Rightarrow> string \<Rightarrow> (disk, goerr + string) state" where
  "secrets_loadOrGenerateKey E D keyPath = do {
     data \<leftarrow> ReadFile D keyPath;
     case data of
       Inr key \<Rightarrow>
         ret (if length key \<noteq> keySize
              then Inl (ErrText (''encryption key '' @ Quote E keyPath @ '' must be '' @ Itoa (int keySize) @ '' bytes, got ''
                                 @ Itoa (int (length key))))
              else Inr key)
     | Inl (FileError e) \<Rightarrow> ret (Inl (ErrWrapped (''read encryption key '' @ Quote E keyPath @ '': '') e))
     | Inl NotExist \<Rightarrow> do {
         made \<leftarrow> ReadRandom D keySize;
         case made of
           Inl e \<Rightarrow> ret (Inl e)
         | Inr key \<Rightarrow>
             save_new_file D (\<lambda>e. e) (ErrWrapped (''write encryption key '' @ Quote E keyPath @ '': '')) keyPath key key
       }
   }"

definition NewBoxFromKeyFile :: "env \<Rightarrow> disk_env \<Rightarrow> ('key, 'pub) crypto \<Rightarrow> string \<Rightarrow> (disk, goerr + aead) state" where
  "NewBoxFromKeyFile E D C keyPath = do {
     key \<leftarrow> secrets_loadOrGenerateKey E D keyPath;
     ret (case key of Inl e \<Rightarrow> Inl e | Inr key \<Rightarrow> NewBox C key)
   }"

section \<open>What a start leaves on the disk\<close>

text \<open>Files that exist stay as they are; new ones are among those named.\<close>

definition only_new_files :: "string set \<Rightarrow> disk \<Rightarrow> disk \<Rightarrow> bool" where
  "only_new_files F d d' \<longleftrightarrow> (\<forall>f. disk_files d' f = disk_files d f \<or> f \<in> F \<and> disk_files d f = None)"

lemma only_new_files_trans: "only_new_files F d d' \<Longrightarrow> only_new_files G d' d'' \<Longrightarrow> only_new_files (F \<union> G) d d''"
  unfolding only_new_files_def by (metis UnI1 UnI2)

lemma only_new_files_same: "disk_files d' = disk_files d \<Longrightarrow> only_new_files F d d'"
  by (simp add: only_new_files_def)

lemma only_new_files_put: "disk_files d f = None \<Longrightarrow> disk_files d' = (disk_files d)(f \<mapsto> c) \<Longrightarrow> only_new_files {f} d d'"
  by (simp add: only_new_files_def)

lemma only_new_filesD: "only_new_files F d d' \<Longrightarrow> disk_files d f = Some c \<Longrightarrow> disk_files d' f = Some c"
  unfolding only_new_files_def by (metis option.distinct(1))

lemma ReadFile_cases:
  obtains (failed) e where "run_state (ReadFile D path) d = (Inl (FileError e), d\<lparr>disk_ops := Suc (disk_ops d)\<rparr>)"
  | (missing) "run_state (ReadFile D path) d = (Inl NotExist, d\<lparr>disk_ops := Suc (disk_ops d)\<rparr>)"
      and "disk_files d (file_named D path) = None"
  | (found) c where "run_state (ReadFile D path) d = (Inr c, d\<lparr>disk_ops := Suc (disk_ops d)\<rparr>)"
      and "disk_files d (file_named D path) = Some c"
  by (cases "read_fails D (disk_ops d) path"; cases "disk_files d (file_named D path)") (auto simp: ReadFile_def file_op_def)

lemma save_new_fileE:
  assumes "run_state (save_new_file D dir_error write_error path content x) d = (r, d')"
  obtains (failed) e where "r = Inl e" and "disk_files d' = disk_files d"
  | (partly) e c where "r = Inl e" and "disk_files d' = (disk_files d)(file_named D path \<mapsto> c)"
  | (saved) "r = Inr x" and "disk_files d' = (disk_files d)(file_named D path \<mapsto> content)"
  using assms
  by (auto simp: save_new_file_def MkdirAll_def WriteFile_def file_op_def put_file_def Let_def split: if_splits option.splits prod.splits)

lemma signing_key_on_disk:
  assumes "run_state (signing_loadOrGenerateKey E D C path) d = (r, d')"
  shows "only_new_files {file_named D path} d d'
    \<and> (\<forall>key. r = Inr key \<longrightarrow> keys_reread C \<longrightarrow> (\<exists>c. disk_files d' (file_named D path) = Some c \<and> parsePrivateKey C c = Inr key))"
proof (cases rule: ReadFile_cases [of D path d])
  case (failed e)
  with assms show ?thesis by (auto simp: signing_loadOrGenerateKey_def intro: only_new_files_same)
next
  case (found c)
  with assms show ?thesis by (auto simp: signing_loadOrGenerateKey_def intro: only_new_files_same)
next
  case missing
  let ?d = "d\<lparr>disk_ops := Suc (disk_ops d), disk_random := Suc (disk_random d)\<rparr>"
  show ?thesis
  proof (cases "\<exists>key der. GenerateKey C (disk_random d) rsaKeySize = Inr key \<and> MarshalPKCS8PrivateKey C key = Inr der")
    case False
    with assms missing show ?thesis
      by (auto simp: signing_loadOrGenerateKey_def generate_rsa_def intro: only_new_files_same split: sum.splits)
  next
    case True
    then obtain key der where key: "GenerateKey C (disk_random d) rsaKeySize = Inr key" "MarshalPKCS8PrivateKey C key = Inr der" by blast
    with assms missing(1) have "run_state (save_new_file D (ErrWrapped ''create signing key directory: '')
        (ErrWrapped (''write signing key '' @ Quote E path @ '': '')) path (pem_EncodeToMemory C ''PRIVATE KEY'' der) key) ?d = (r, d')"
      by (simp add: signing_loadOrGenerateKey_def generate_rsa_def)
    then show ?thesis
    proof (cases rule: save_new_fileE)
      case (failed e)
      then show ?thesis by (auto intro: only_new_files_same)
    next
      case (partly e c)
      with missing(2) show ?thesis by (auto intro: only_new_files_put)
    next
      case saved
      then show ?thesis
        using missing(2) key(2) by (auto simp: keys_reread_def parsePrivateKey_def intro: only_new_files_put)
    qed
  qed
qed

lemma signing_key_reloaded:
  assumes "disk_files d (file_named D path) = Some c" and "parsePrivateKey C c = Inr key" and "read_fails D (disk_ops d) path = None"
  shows "run_state (NewKeyManager E D C path) d = (Inr (key_manager_for C key), d\<lparr>disk_ops := Suc (disk_ops d)\<rparr>)"
  using assms by (simp add: NewKeyManager_def signing_loadOrGenerateKey_def ReadFile_def file_op_def)

lemma key_manager_on_disk:
  assumes "run_state (NewKeyManager E D C path) d = (r, d')"
  shows "only_new_files {file_named D path} d d'
    \<and> (\<forall>km. r = Inr km \<longrightarrow> keys_reread C \<longrightarrow>
        (\<exists>c key. disk_files d' (file_named D path) = Some c \<and> parsePrivateKey C c = Inr key \<and> km = key_manager_for C key))"
proof -
  obtain k where k: "run_state (signing_loadOrGenerateKey E D C path) d = (k, d')"
    and r: "r = (case k of Inl e \<Rightarrow> Inl e | Inr key \<Rightarrow> Inr (key_manager_for C key))"
    using assms by (auto simp: NewKeyManager_def split: prod.splits)
  then show ?thesis using signing_key_on_disk [OF k] by (auto split: sum.splits)
qed

lemma secrets_key_on_disk:
  assumes "run_state (NewBoxFromKeyFile E D C path) d = (r, d')"
  shows "only_new_files {file_named D path} d d'
    \<and> (\<forall>box. r = Inr box \<longrightarrow> (\<exists>key. disk_files d' (file_named D path) = Some key \<and> NewBox C key = Inr box))"
proof (cases rule: ReadFile_cases [of D path d])
  case (failed e)
  with assms show ?thesis
    by (auto simp: NewBoxFromKeyFile_def secrets_loadOrGenerateKey_def intro: only_new_files_same)
next
  case (found c)
  with assms show ?thesis
    by (auto simp: NewBoxFromKeyFile_def secrets_loadOrGenerateKey_def intro: only_new_files_same split: if_splits)
next
  case missing
  let ?d = "d\<lparr>disk_ops := Suc (disk_ops d), disk_random := Suc (disk_random d)\<rparr>"
  show ?thesis
  proof (cases "disk_entropy D (disk_random d) keySize")
    case None
    with assms missing show ?thesis
      by (auto simp: NewBoxFromKeyFile_def secrets_loadOrGenerateKey_def ReadRandom_def intro: only_new_files_same)
  next
    case (Some key)
    then obtain k where k: "run_state (save_new_file D (\<lambda>e. e) (ErrWrapped (''write encryption key '' @ Quote E path @ '': '')) path key key) ?d
        = (k, d')" and r: "r = (case k of Inl e \<Rightarrow> Inl e | Inr key \<Rightarrow> NewBox C key)"
      using assms missing(1) by (auto simp: NewBoxFromKeyFile_def secrets_loadOrGenerateKey_def ReadRandom_def split: prod.splits)
    from k show ?thesis
    proof (cases rule: save_new_fileE)
      case (failed e)
      with r show ?thesis by (auto intro: only_new_files_same)
    next
      case (partly e c)
      with missing(2) r show ?thesis by (auto intro: only_new_files_put)
    next
      case saved
      with missing(2) r show ?thesis by (auto intro: only_new_files_put)
    qed
  qed
qed

lemma secrets_key_reloaded:
  assumes "disk_files d (file_named D path) = Some key" and "NewBox C key = Inr box" and "read_fails D (disk_ops d) path = None"
  shows "run_state (NewBoxFromKeyFile E D C path) d = (Inr box, d\<lparr>disk_ops := Suc (disk_ops d)\<rparr>)"
  using assms
  by (simp add: NewBoxFromKeyFile_def secrets_loadOrGenerateKey_def ReadFile_def file_op_def NewBox_def split: if_splits)

end
