(* ===== verification/Config.thy ===== *)
theory Config
  imports Go_Duration Redirect_URIs Session_Managers
begin

text \<open>
  The configuration of a server from environment variables (internal/config.go) and the address of its
  database (internal/db/db.go).
\<close>

section \<open>Configuration\<close>

text \<open>The environment variables, and the floating-point arithmetic of durations with a fraction.\<close>

record process_env =
  Getenv :: "string \<Rightarrow> string"
  float_nanos :: "nat \<Rightarrow> nat \<Rightarrow> nat \<Rightarrow> nat"

record server_config =
  Conf_Addr :: string
  Conf_IssuerURL :: string
  Conf_SigningKeyPath :: string
  Conf_ProviderSecretKeyPath :: string
  Conf_IDTokenTTL :: duration
  Conf_ReadTimeout :: duration
  Conf_WriteTimeout :: duration
  Conf_IdleTimeout :: duration

record db_config =
  DB_Host :: string
  DB_User :: string
  DB_Password :: string
  DB_Name :: string
  DB_Port :: int

record app_config =
  ServerConfig :: server_config
  DBConfig :: db_config
  SessionConfig :: session_config
  OperatorSessionConfig :: session_config

text \<open>A variable or its default, and a duration, whose error names the variable.\<close>

definition env_or :: "process_env \<Rightarrow> string \<Rightarrow> string \<Rightarrow> string" where
  "env_or P name fallback = (if Getenv P name = [] then fallback else Getenv P name)"

definition env_duration :: "process_env \<Rightarrow> string \<Rightarrow> duration \<Rightarrow> goerr + duration" where
  "env_duration P name fallback =
     (if Getenv P name = [] then Inr fallback
      else case ParseDuration (float_nanos P) (Getenv P name) of
             Inl e \<Rightarrow> Inl (ErrWrapped (''invalid '' @ name @ '': '') e)
           | Inr d \<Rightarrow> Inr d)"

definition session_settings :: "string \<Rightarrow> duration \<Rightarrow> url \<Rightarrow> session_config" where
  "session_settings cookieName ttl parsedIssuer =
     \<lparr>CookieName = cookieName, TTL = ttl, Secure = (URL_Scheme parsedIssuer = ''https'')\<rparr>"

definition LoadConfig :: "env \<Rightarrow> process_env \<Rightarrow> goerr + app_config" where
  "LoadConfig E P =
     (case Parse E (env_or P ''ISSUER_URL'' ''http://localhost:8080'') of
        None \<Rightarrow> Inl (ErrWrapped ''invalid ISSUER_URL: '' (ErrText (url_error E (env_or P ''ISSUER_URL'' ''http://localhost:8080''))))
      | Some parsedIssuer \<Rightarrow>
      case env_duration P ''ID_TOKEN_TTL'' (10 * Minute) of
        Inl e \<Rightarrow> Inl e
      | Inr idTokenTTL \<Rightarrow>
      case env_duration P ''SESSION_TTL'' (24 * Hour) of
        Inl e \<Rightarrow> Inl e
      | Inr sessionTTL \<Rightarrow>
      case env_duration P ''OPERATOR_SESSION_TTL'' sessionTTL of
        Inl e \<Rightarrow> Inl e
      | Inr operatorSessionTTL \<Rightarrow>
      case Atoi E (Getenv P ''DB_PORT'') of
        Inl e \<Rightarrow> Inl (ErrWrapped ''invalid DB_PORT: '' e)
      | Inr dbPort \<Rightarrow>
        Inr \<lparr>ServerConfig =
               \<lparr>Conf_Addr = env_or P ''SERVER_ADDR'' '':8080'',
                Conf_IssuerURL = env_or P ''ISSUER_URL'' ''http://localhost:8080'',
                Conf_SigningKeyPath = env_or P ''SIGNING_KEY_PATH'' ''./signing-key.pem'',
                Conf_ProviderSecretKeyPath = env_or P ''PROVIDER_SECRET_KEY_PATH'' ''./provider-secret.key'',
                Conf_IDTokenTTL = idTokenTTL, Conf_ReadTimeout = 10 * Second, Conf_WriteTimeout = 15 * Second,
                Conf_IdleTimeout = 60 * Second\<rparr>,
             DBConfig =
               \<lparr>DB_Host = Getenv P ''DB_HOST'', DB_User = Getenv P ''DB_USERNAME'', DB_Password = Getenv P ''DB_PASSWORD'',
                DB_Name = Getenv P ''DB_DATABASE'', DB_Port = dbPort\<rparr>,
             SessionConfig = session_settings (env_or P ''SESSION_COOKIE_NAME'' ''centrauth_session'') sessionTTL parsedIssuer,
             OperatorSessionConfig =
               session_settings (env_or P ''OPERATOR_SESSION_COOKIE_NAME'' ''centrauth_operator'') operatorSessionTTL parsedIssuer\<rparr>)"

lemma LoadConfig_paths:
  assumes "LoadConfig E P = Inr cfg"
  shows "Conf_SigningKeyPath (ServerConfig cfg) = env_or P ''SIGNING_KEY_PATH'' ''./signing-key.pem''"
    and "Conf_ProviderSecretKeyPath (ServerConfig cfg) = env_or P ''PROVIDER_SECRET_KEY_PATH'' ''./provider-secret.key''"
  using assms by (auto simp: LoadConfig_def split: option.splits sum.splits)

lemma env_duration_refused:
  "env_duration P name fallback = Inl e \<Longrightarrow> Getenv P name \<noteq> []
     \<and> (\<exists>cause. e = ErrWrapped (''invalid '' @ name @ '': '') cause \<and> ParseDuration (float_nanos P) (Getenv P name) = Inl cause)"
  by (auto simp: env_duration_def split: if_splits sum.splits)

text \<open>What is wrong with a variable.\<close>

definition bad_setting :: "env \<Rightarrow> process_env \<Rightarrow> string \<Rightarrow> goerr \<Rightarrow> bool" where
  "bad_setting E P name cause \<longleftrightarrow>
     name = ''ISSUER_URL'' \<and> Parse E (env_or P name ''http://localhost:8080'') = None
   \<or> name \<in> {''ID_TOKEN_TTL'', ''SESSION_TTL'', ''OPERATOR_SESSION_TTL''} \<and> Getenv P name \<noteq> []
       \<and> ParseDuration (float_nanos P) (Getenv P name) = Inl cause
   \<or> name = ''DB_PORT'' \<and> Atoi E (Getenv P name) = Inl cause"

lemma LoadConfig_refused:
  assumes "LoadConfig E P = Inl e"
  shows "\<exists>name cause. e = ErrWrapped (''invalid '' @ name @ '': '') cause \<and> bad_setting E P name cause"
proof -
  from assms consider cause where "Parse E (env_or P ''ISSUER_URL'' ''http://localhost:8080'') = None" "e = ErrWrapped ''invalid ISSUER_URL: '' cause"
    | name t where "env_duration P name t = Inl e" "name \<in> {''ID_TOKEN_TTL'', ''SESSION_TTL'', ''OPERATOR_SESSION_TTL''}"
    | cause where "Atoi E (Getenv P ''DB_PORT'') = Inl cause" "e = ErrWrapped ''invalid DB_PORT: '' cause"
    unfolding LoadConfig_def by (auto split: option.splits sum.splits)
  then show ?thesis
  proof cases
    case (1 cause)
    then show ?thesis by (intro exI [of _ "''ISSUER_URL''"] exI [of _ cause]) (simp add: bad_setting_def)
  next
    case (2 name t)
    from env_duration_refused [OF 2(1)] obtain cause where "Getenv P name \<noteq> []" "e = ErrWrapped (''invalid '' @ name @ '': '') cause"
      "ParseDuration (float_nanos P) (Getenv P name) = Inl cause" by blast
    with 2(2) show ?thesis unfolding bad_setting_def by (intro exI [of _ name] exI [of _ cause] conjI disjI2 disjI1)
  next
    case (3 cause)
    then show ?thesis by (intro exI [of _ "''DB_PORT''"] exI [of _ cause]) (simp add: bad_setting_def)
  qed
qed

text \<open>\<open>db.New\<close>: the data source name it opens.  Nothing in it is quoted.\<close>

definition dsn :: "db_config \<Rightarrow> string" where
  "dsn c = ''host='' @ DB_Host c @ '' user='' @ DB_User c @ '' password='' @ DB_Password c @ '' dbname='' @ DB_Name c
     @ '' port='' @ Itoa (DB_Port c)"

text \<open>So a password with a space in it can name another database.\<close>

lemma dsn_ambiguous:
  "dsn \<lparr>DB_Host = h, DB_User = u, DB_Password = ''x dbname=other'', DB_Name = d, DB_Port = p\<rparr>
   = dsn \<lparr>DB_Host = h, DB_User = u, DB_Password = ''x'', DB_Name = ''other dbname='' @ d, DB_Port = p\<rparr>"
  by (simp add: dsn_def)

section \<open>The scheme of the issuer\<close>

definition letter :: "char \<Rightarrow> bool" where
  "letter c \<longleftrightarrow> (97 \<le> (of_char c :: nat) \<and> (of_char c :: nat) \<le> 122) \<or> (65 \<le> (of_char c :: nat) \<and> (of_char c :: nat) \<le> 90)"

lemma get_scheme_letters:
  "list_all letter s \<Longrightarrow> acc \<noteq> [] \<or> s \<noteq> [] \<Longrightarrow> get_scheme raw acc (s @ CHR '':'' # rest) = Some (rev acc @ s, rest)"
  by (induction s arbitrary: acc) (auto simp: letter_def Let_def)

lemma ascii_lower_letter: "ascii_lower c = d \<Longrightarrow> letter d \<Longrightarrow> letter c"
  by (auto simp: ascii_lower_def letter_def of_char_of split: if_splits)

lemma lower_https_letters: "map ascii_lower s = ''https'' \<Longrightarrow> list_all letter s \<and> s \<noteq> [] \<and> CHR ''#'' \<notin> set s"
proof -
  assume s: "map ascii_lower s = ''https''"
  then have "\<forall>c \<in> set s. ascii_lower c \<in> set ''https''" by (metis image_eqI image_set)
  moreover have "\<forall>d \<in> set ''https''. letter d" by (simp add: letter_def)
  ultimately have "\<forall>c \<in> set s. letter c" using ascii_lower_letter by blast
  moreover have "\<not> letter (CHR ''#'')" by (simp add: letter_def)
  ultimately have "list_all letter s" "CHR ''#'' \<notin> set s"
    unfolding list_all_iff by blast+
  moreover have "s \<noteq> []" using s by (cases s) simp_all
  ultimately show ?thesis by simp
qed

lemma Cut_after: "d \<notin> set p \<Longrightarrow> Cut d (p @ s) = (case Cut d s of (a, b, f) \<Rightarrow> (p @ a, b, f))"
  by (induction p) (auto split: prod.splits)

lemma Parse_https:
  assumes "Parse E raw = Some u"
  shows "URL_Scheme u = ''https'' \<longleftrightarrow> (\<exists>s rest. raw = s @ CHR '':'' # rest \<and> map ascii_lower s = ''https'')"
proof
  assume "URL_Scheme u = ''https''"
  with Parse_scheme [OF assms] show "\<exists>s rest. raw = s @ CHR '':'' # rest \<and> map ascii_lower s = ''https''"
    by simp metis
next
  assume "\<exists>s rest. raw = s @ CHR '':'' # rest \<and> map ascii_lower s = ''https''"
  then obtain s rest where raw: "raw = s @ CHR '':'' # rest" "map ascii_lower s = ''https''" by (elim exE conjE)
  note s = lower_https_letters [OF raw(2)]
  obtain before frag f where cut: "Cut (CHR ''#'') rest = (before, frag, f)" by (metis prod_cases3)
  then have "Cut (CHR ''#'') raw = (s @ CHR '':'' # before, frag, f)"
    using s Cut_after [of "CHR ''#''" "s @ [CHR '':'']" rest] by (simp add: raw(1))
  then obtain v where v: "parse_no_fragment E (s @ CHR '':'' # before) = Some v" "URL_Scheme v = URL_Scheme u"
    using assms by (auto simp: Parse_def dest: set_fragment_frame split: if_splits option.splits)
  have "get_scheme (s @ CHR '':'' # before) [] (s @ CHR '':'' # before) = Some (s, before)"
    using s get_scheme_letters [of s "[]" "s @ CHR '':'' # before" before] by simp
  moreover have "s @ CHR '':'' # before \<noteq> ''*''" using s by (cases s) auto
  ultimately have "URL_Scheme v = map ascii_lower s"
    using v(1) by (auto simp: parse_no_fragment_def Let_def empty_url_def dest!: set_path_frame split: if_splits option.splits prod.splits)
  with v(2) raw(2) show "URL_Scheme u = ''https''" by simp
qed

definition https_url :: "string \<Rightarrow> bool" where
  "https_url raw \<longleftrightarrow> map ascii_lower (take 6 raw) = ''https:''"

lemma https_url_iff: "https_url raw \<longleftrightarrow> (\<exists>s rest. raw = s @ CHR '':'' # rest \<and> map ascii_lower s = ''https'')"
proof
  assume https: "https_url raw"
  have len: "length (map ascii_lower (take 6 raw)) = 6" unfolding iffD1 [OF https_url_def https] by simp
  then have six: "take 6 raw = take 5 raw @ [raw ! 5]" using take_Suc_conv_app_nth [of 5 raw] by simp
  from https have two: "map ascii_lower (take 5 raw) @ [ascii_lower (raw ! 5)] = ''https'' @ '':''"
    unfolding https_url_def six by (simp only: map_append list.map append.simps)
  have lower: "map ascii_lower (take 5 raw) = ''https''" and colon: "ascii_lower (raw ! 5) = CHR '':''"
    using conjunct1 [OF iffD1 [OF append1_eq_conv two]] conjunct2 [OF iffD1 [OF append1_eq_conv two]] by (simp_all only:)
  from arg_cong [OF colon, of "of_char :: char \<Rightarrow> nat"] have "(of_char (raw ! 5) :: nat) = of_char (CHR '':'')"
    by (simp add: ascii_lower_def of_char_of split: if_splits)
  then have "raw ! 5 = CHR '':''" by (simp only: of_char_eq_iff)
  with six have "raw = take 5 raw @ CHR '':'' # drop 6 raw" by (metis append_Cons append_Nil append_assoc append_take_drop_id)
  with lower show "\<exists>s rest. raw = s @ CHR '':'' # rest \<and> map ascii_lower s = ''https''" by (intro exI conjI)
next
  assume "\<exists>s rest. raw = s @ CHR '':'' # rest \<and> map ascii_lower s = ''https''"
  then obtain s rest where raw: "raw = s @ CHR '':'' # rest" and s: "map ascii_lower s = ''https''" by (elim exE conjE)
  have "length s = 5" using arg_cong [OF s, of length] by simp
  then have "take 6 raw = s @ '':''" by (simp add: raw)
  moreover have "map ascii_lower '':'' = '':''" by code_simp
  ultimately show "https_url raw" unfolding https_url_def by (simp add: s)
qed

end
