(* ===== verification/Start_Up.thy ===== *)
theory Start_Up
  imports Server Key_Files Config
begin

text \<open>
  The start of a server (\<open>NewApp\<close> of internal/app.go, \<open>New\<close> of internal/db/db.go and cmd/centrauth/main.go up to
  \<open>Run\<close>): from environment variables, a database and a disk to the routes it serves.
\<close>

section \<open>Starting\<close>

record http_server =
  Srv_Addr :: string
  Srv_Handler :: handler
  Srv_ReadTimeout :: duration
  Srv_WriteTimeout :: duration
  Srv_IdleTimeout :: duration

definition app_for :: "env \<Rightarrow> ('key, 'pub) crypto \<Rightarrow> app_config \<Rightarrow> ('key, 'pub) key_manager \<Rightarrow> aead \<Rightarrow> app" where
  "app_for E C cfg keyManager secretBox =
     \<lparr>app_env = E,
      app_sessions = SessionConfig cfg,
      app_operatorSessions = OperatorSessionConfig cfg,
      app_discovery = NewDiscoveryConfig (Conf_IssuerURL (ServerConfig cfg)),
      app_idTokens = NewIDTokenIssuer (sign_payload C keyManager) (Conf_IssuerURL (ServerConfig cfg)) (Conf_IDTokenTTL (ServerConfig cfg)),
      app_secrets = secretBox,
      app_jwks = KeyManager_JWKS C keyManager\<rparr>"

definition server_for :: "(request \<Rightarrow> response) \<Rightarrow> app_config \<Rightarrow> app \<Rightarrow> http_server" where
  "server_for files cfg A =
     \<lparr>Srv_Addr = Conf_Addr (ServerConfig cfg), Srv_Handler = routes A files,
      Srv_ReadTimeout = Conf_ReadTimeout (ServerConfig cfg), Srv_WriteTimeout = Conf_WriteTimeout (ServerConfig cfg),
      Srv_IdleTimeout = Conf_IdleTimeout (ServerConfig cfg)\<rparr>"

text \<open>The database is part of the outside world; \<open>None\<close> is the nil pointer.\<close>

definition NewApp ::
    "env \<Rightarrow> disk_env \<Rightarrow> ('key, 'pub) crypto \<Rightarrow> (request \<Rightarrow> response) \<Rightarrow> app_config \<Rightarrow> 'db option
      \<Rightarrow> (disk, goerr + app \<times> http_server) state" where
  "NewApp E D C files cfg database =
     (case database of
        None \<Rightarrow> ret (Inl (ErrText ''centrauth: NewApp requires a non-nil database''))
      | Some _ \<Rightarrow> do {
          keyManager \<leftarrow> NewKeyManager E D C (Conf_SigningKeyPath (ServerConfig cfg));
          case keyManager of
            Inl e \<Rightarrow> ret (Inl (ErrWrapped ''initialize signing key: '' e))
          | Inr keyManager \<Rightarrow> do {
              secretBox \<leftarrow> NewBoxFromKeyFile E D C (Conf_ProviderSecretKeyPath (ServerConfig cfg));
              ret (case secretBox of
                     Inl e \<Rightarrow> Inl (ErrWrapped ''initialize provider secret key: '' e)
                   | Inr secretBox \<Rightarrow>
                       let a = app_for E C cfg keyManager secretBox in Inr (a, server_for files cfg a))
            }
        })"

text \<open>\<open>db.New\<close>, with gorm's opening of a data source given.\<close>

definition db_New :: "(string \<Rightarrow> goerr + 'db) \<Rightarrow> db_config \<Rightarrow> goerr + 'db" where
  "db_New gorm_Open cfg = gorm_Open (dsn cfg)"

text \<open>\<open>main\<close> up to \<open>Run\<close>; each error ends the process.\<close>

definition start_server ::
    "env \<Rightarrow> process_env \<Rightarrow> disk_env \<Rightarrow> ('key, 'pub) crypto \<Rightarrow> (request \<Rightarrow> response) \<Rightarrow> (string \<Rightarrow> goerr + 'db)
      \<Rightarrow> (disk, goerr + app \<times> http_server) state" where
  "start_server E P D C files gorm_Open =
     (case LoadConfig E P of
        Inl e \<Rightarrow> ret (Inl e)
      | Inr cfg \<Rightarrow>
          (case db_New gorm_Open (DBConfig cfg) of
             Inl e \<Rightarrow> ret (Inl e)
           | Inr database \<Rightarrow> NewApp E D C files cfg (Some database)))"

section \<open>Running\<close>

text \<open>
  What \<open>Run\<close> waits for: a tick of the clean-up, the end of listening, or the end of its context.  It returns the
  error, if any; \<open>None\<close> is that it still runs.  How the shutdown of the server and the closing of the
  database end is given.
\<close>

datatype listen_end = ErrServerClosed | ListenError goerr

datatype run_event = Tick | ListenEnded listen_end | Cancelled

fun Run :: "app \<Rightarrow> goerr option \<Rightarrow> goerr option \<Rightarrow> run_event list \<Rightarrow> (world, goerr option option) state" where
  "Run A shutdown close [] = ret None"
| "Run A shutdown close (Tick # es) = do { _ \<leftarrow> clean_up A; Run A shutdown close es }"
| "Run A shutdown close (ListenEnded e # es) = ret (Some (case e of ErrServerClosed \<Rightarrow> None | ListenError err \<Rightarrow> Some err))"
| "Run A shutdown close (Cancelled # es) = ret (Some (case shutdown of Some err \<Rightarrow> Some err | None \<Rightarrow> close))"

lemma Run_writes: "writes {TSessions, TOperatorSessions} (Run A shutdown close es)"
  by (induction A shutdown close es rule: Run.induct) (simp_all add: writes_ret writes_bind clean_up_writes)

section \<open>What a start does\<close>

lemma NewAppE:
  assumes "run_state (NewApp E D C files cfg database) d = (res, d')"
  obtains (failed) e where "res = Inl e"
      and "only_new_files {file_named D (Conf_SigningKeyPath (ServerConfig cfg)), file_named D (Conf_ProviderSecretKeyPath (ServerConfig cfg))} d d'"
  | (started) km box d1 where "res = Inr (app_for E C cfg km box, server_for files cfg (app_for E C cfg km box))"
      and "run_state (NewKeyManager E D C (Conf_SigningKeyPath (ServerConfig cfg))) d = (Inr km, d1)"
      and "run_state (NewBoxFromKeyFile E D C (Conf_ProviderSecretKeyPath (ServerConfig cfg))) d1 = (Inr box, d')"
proof (cases database)
  case None
  with assms show thesis by (auto simp: NewApp_def intro: that(1) only_new_files_same)
next
  case (Some db)
  let ?k = "Conf_SigningKeyPath (ServerConfig cfg)" and ?b = "Conf_ProviderSecretKeyPath (ServerConfig cfg)"
  obtain k d1 where k: "run_state (NewKeyManager E D C ?k) d = (k, d1)" by fastforce
  note first = conjunct1 [OF key_manager_on_disk [OF k]]
  show thesis
  proof (cases k)
    case (Inl e)
    with assms k Some have "res = Inl (ErrWrapped ''initialize signing key: '' e)" "d' = d1" by (simp_all add: NewApp_def)
    with first show thesis by (intro that(1)) (auto simp: only_new_files_def)
  next
    case (Inr km)
    obtain b d2 where b: "run_state (NewBoxFromKeyFile E D C ?b) d1 = (b, d2)" by fastforce
    have both: "only_new_files {file_named D ?k, file_named D ?b} d d2"
      using only_new_files_trans [OF first conjunct1 [OF secrets_key_on_disk [OF b]]] by (simp add: insert_commute)
    from assms k Some Inr b have "d' = d2" and "res = (case b of Inl e \<Rightarrow> Inl (ErrWrapped ''initialize provider secret key: '' e)
        | Inr box \<Rightarrow> Inr (app_for E C cfg km box, server_for files cfg (app_for E C cfg km box)))"
      by (simp_all add: NewApp_def Let_def split: sum.splits)
    with both k b Inr show thesis by (cases b) (auto intro: that)
  qed
qed

lemma NewApp_files:
  assumes "run_state (NewApp E D C files cfg database) d = (res, d')"
  shows "only_new_files {file_named D (Conf_SigningKeyPath (ServerConfig cfg)), file_named D (Conf_ProviderSecretKeyPath (ServerConfig cfg))} d d'"
  using assms
proof (cases rule: NewAppE)
  case (started km box d1)
  then show ?thesis
    using only_new_files_trans [OF conjunct1 [OF key_manager_on_disk [OF started(2)]] conjunct1 [OF secrets_key_on_disk [OF started(3)]]]
    by (simp add: insert_commute)
qed

section \<open>A first start\<close>

text \<open>A disk without files, on which everything works, a toy RSA, and an environment that sets the port only.\<close>

definition sample_disk_env :: disk_env where
  "sample_disk_env =
     \<lparr>file_named = (\<lambda>path. path), read_fails = (\<lambda>_ _. None), mkdir_fails = (\<lambda>_ _. None), write_fails = (\<lambda>_ _. None),
      disk_entropy = (\<lambda>k n. Some (replicate n (char_of k)))\<rparr>"

definition sample_crypto :: "(string, nat) crypto" where
  "sample_crypto =
     \<lparr>PublicKey = length, GenerateKey = (\<lambda>k bits. Inr ''key''), MarshalPKCS8PrivateKey = Inr,
      pem_EncodeToMemory = (\<lambda>t b. b), pem_Decode = Some, ParsePKCS8PrivateKey = (\<lambda>b. Inr (RSAKey b)),
      ParsePKCS1PrivateKey = Inr, MarshalPKIXPublicKey = (\<lambda>n. Inr (replicate n (CHR ''n''))), Marshal_jwks = (\<lambda>_. Inr ''keys''),
      NewSigner = (\<lambda>alg key headers. Inr Inr), NewGCM = (\<lambda>key. Inr \<lparr>NonceSize = 12, Seal = (\<lambda>n p. p), Open = (\<lambda>n p. Some p)\<rparr>)\<rparr>"

definition sample_process :: process_env where
  "sample_process = \<lparr>Getenv = (\<lambda>name. if name = ''DB_PORT'' then ''5432'' else []), float_nanos = (\<lambda>_ _ _. 0)\<rparr>"

definition blank_disk :: disk where
  "blank_disk = \<lparr>disk_files = (\<lambda>_. None), disk_ops = 0, disk_random = 0\<rparr>"

definition sample_start :: "(disk, goerr + app \<times> http_server) state" where
  "sample_start = start_server calm_env sample_process sample_disk_env sample_crypto no_files (\<lambda>name. Inr name)"

lemma keys_reread_sample: "keys_reread sample_crypto"
  by (simp add: keys_reread_def sample_crypto_def)

lemma sample_config: "\<exists>cfg. LoadConfig calm_env sample_process = Inr cfg"
proof -
  have "Itoa 5432 = ''5432''"
    by (simp add: Itoa_def decimal.simps [of 5432] decimal.simps [of 543] decimal.simps [of 54] decimal.simps [of 5] char_of_def bit_0)
  with ParseInt_Itoa [of 5432] have "Atoi calm_env ''5432'' = Inr 5432" by (simp add: Atoi_def)
  moreover have "Parse calm_env ''http://localhost:8080'' \<noteq> None" by code_simp
  ultimately show ?thesis
    by (auto simp: LoadConfig_def sample_process_def env_or_def env_duration_def)
qed

lemma sample_app_starts:
  "\<exists>A srv d'. run_state (NewApp calm_env sample_disk_env sample_crypto no_files cfg (Some database)) blank_disk = (Inr (A, srv), d')"
  if "Conf_SigningKeyPath (ServerConfig cfg) = ''./signing-key.pem''"
    and "Conf_ProviderSecretKeyPath (ServerConfig cfg) = ''./provider-secret.key''"
  using that
  by (simp add: NewApp_def NewKeyManager_def signing_loadOrGenerateKey_def NewBoxFromKeyFile_def secrets_loadOrGenerateKey_def
      ReadFile_def ReadRandom_def generate_rsa_def save_new_file_def MkdirAll_def WriteFile_def file_op_def put_file_def NewBox_def
      keySize_def sample_disk_env_def sample_crypto_def blank_disk_def Let_def)

lemma sample_paths:
  "LoadConfig calm_env sample_process = Inr cfg \<Longrightarrow> Conf_SigningKeyPath (ServerConfig cfg) = ''./signing-key.pem''
     \<and> Conf_ProviderSecretKeyPath (ServerConfig cfg) = ''./provider-secret.key''"
  by (simp add: LoadConfig_paths env_or_def sample_process_def)

lemma sample_start_runs: "\<exists>A srv d'. run_state sample_start blank_disk = (Inr (A, srv), d')"
proof -
  obtain cfg where "LoadConfig calm_env sample_process = Inr cfg" using sample_config by blast
  with sample_app_starts [of cfg] sample_paths [of cfg] show ?thesis
    by (simp add: sample_start_def start_server_def db_New_def)
qed

section \<open>Properties\<close>

text \<open>
  C37.  What a started server publishes and signs.  It serves its routes at the configured address.  The JSON
  Web Key Set holds one key, for RS256 signatures, and ID tokens are signed with the private half of that
  key under the identifier it is published with.  The issuer of the discovery document is the configured
  URL without slashes at its end, while the issuer of ID tokens is the configured URL: they agree exactly when
  it does not end in a slash.  The cookies of both kinds of sessions are restricted to https exactly when
  the configured issuer begins with \<open>https:\<close>, in capitals or not.
\<close>

theorem started_server:
  assumes "run_state (start_server E P D C files gorm_Open) d = (Inr (A, srv), d')"
  shows "app_env A = E \<and> Srv_Handler srv = routes A files \<and> Srv_Addr srv = env_or P ''SERVER_ADDR'' '':8080''
    \<and> (\<exists>key kid. kid = keyIDFor C (PublicKey C key)
        \<and> (\<forall>data. Marshal_jwks C [\<lparr>JWK_Key = PublicKey C key, JWK_KeyID = kid, JWK_Algorithm = ''RS256'', JWK_Use = ''sig''\<rparr>] = Inr data
            \<longrightarrow> app_jwks A = data)
        \<and> (\<forall>sign. NewSigner C ''RS256'' key [(''typ'', ''JWT''), (''kid'', kid)] = Inr sign \<longrightarrow> Issuer_sign (app_idTokens A) = sign))
    \<and> Issuer (app_discovery A) = TrimRight (env_or P ''ISSUER_URL'' ''http://localhost:8080'') (CHR ''/'')
    \<and> (Issuer_URL (app_idTokens A) = Issuer (app_discovery A)
        \<longleftrightarrow> last (env_or P ''ISSUER_URL'' ''http://localhost:8080'') \<noteq> CHR ''/'')
    \<and> Secure (app_sessions A) = Secure (app_operatorSessions A)
    \<and> (Secure (app_sessions A) \<longleftrightarrow> https_url (Getenv P ''ISSUER_URL''))"
proof -
  let ?url = "env_or P ''ISSUER_URL'' ''http://localhost:8080''"
  obtain cfg database where cfg: "LoadConfig E P = Inr cfg"
    and run: "run_state (NewApp E D C files cfg (Some (database :: 'c))) d = (Inr (A, srv), d')"
    using assms by (auto simp: start_server_def split: sum.splits)
  from run obtain km box d1 where A: "A = app_for E C cfg km box" "srv = server_for files cfg A"
    and k: "run_state (NewKeyManager E D C (Conf_SigningKeyPath (ServerConfig cfg))) d = (Inr km, d1)"
    by (cases rule: NewAppE) auto
  obtain key where key: "km = key_manager_for C key"
    using k by (auto simp: NewKeyManager_def split: prod.splits sum.splits)
  obtain u where u: "Parse E ?url = Some u" and conf: "Conf_IssuerURL (ServerConfig cfg) = ?url"
      "Conf_Addr (ServerConfig cfg) = env_or P ''SERVER_ADDR'' '':8080''"
      "Secure (SessionConfig cfg) = (URL_Scheme u = ''https'')" "Secure (OperatorSessionConfig cfg) = (URL_Scheme u = ''https'')"
    using cfg by (auto simp: LoadConfig_def session_settings_def split: option.splits sum.splits)
  have "?url \<noteq> []" by (simp add: env_or_def)
  then have "?url = TrimRight ?url (CHR ''/'') \<longleftrightarrow> last ?url \<noteq> CHR ''/''"
    using TrimRight_same_iff [of ?url "CHR ''/''"] by auto
  moreover have "\<not> https_url []" and "\<not> https_url ''http://localhost:8080''" by code_simp+
  then have "URL_Scheme u = ''https'' \<longleftrightarrow> https_url (Getenv P ''ISSUER_URL'')"
    unfolding Parse_https [OF u] https_url_iff [symmetric] env_or_def by presburger
  ultimately show ?thesis
    by (intro conjI exI [of _ key] exI [of _ "keyIDFor C (PublicKey C key)"])
       (simp_all add: A app_for_def server_for_def conf NewDiscoveryConfig_def Let_def NewIDTokenIssuer_def KeyManager_JWKS_def
          sign_payload_def KeyManager_Signer_def key key_manager_for_def fun_eq_iff)
qed

theorem started_server_witness:
  "\<exists>A srv d'. run_state sample_start blank_disk = (Inr (A, srv), d')
     \<and> Issuer (app_discovery A) = Issuer_URL (app_idTokens A) \<and> \<not> Secure (app_sessions A)"
proof -
  obtain A srv d' where run: "run_state sample_start blank_disk = (Inr (A, srv), d')" using sample_start_runs by blast
  have "\<not> https_url []" by code_simp
  with started_server [OF run [unfolded sample_start_def]] run show ?thesis
    by (intro exI [of _ A] exI [of _ srv] exI [of _ d']) (auto simp: env_or_def sample_process_def)
qed

text \<open>
  C39.  What a start leaves on the disk.  No file that exists is ever changed, however the start ends, and
  new files are only the two key files the configuration names.  When the configuration is refused, nothing is
  written at all, and the error names the variable: the issuer when it is no URL, a lifetime that is
  set and no duration, or the port of the database when it is no number.
\<close>

theorem start_keeps_files:
  assumes "run_state (start_server E P D C files gorm_Open) d = (res, d')"
  shows "only_new_files {file_named D (env_or P ''SIGNING_KEY_PATH'' ''./signing-key.pem''),
      file_named D (env_or P ''PROVIDER_SECRET_KEY_PATH'' ''./provider-secret.key'')} d d'
    \<and> (\<forall>e. LoadConfig E P = Inl e \<longrightarrow> res = Inl e \<and> d' = d \<and>
        (\<exists>name cause. e = ErrWrapped (''invalid '' @ name @ '': '') cause \<and> bad_setting E P name cause))"
proof (cases "LoadConfig E P")
  case (Inl e)
  from LoadConfig_refused [OF this] assms this show ?thesis by (simp add: start_server_def only_new_files_same)
next
  case (Inr cfg)
  have conf: "Conf_SigningKeyPath (ServerConfig cfg) = env_or P ''SIGNING_KEY_PATH'' ''./signing-key.pem''"
    "Conf_ProviderSecretKeyPath (ServerConfig cfg) = env_or P ''PROVIDER_SECRET_KEY_PATH'' ''./provider-secret.key''"
    using LoadConfig_paths [OF Inr] by simp_all
  show ?thesis
  proof (cases "db_New gorm_Open (DBConfig cfg)")
    case (Inl e)
    with assms Inr show ?thesis by (simp add: start_server_def only_new_files_same)
  next
    case b: (Inr database)
    from assms Inr b have "run_state (NewApp E D C files cfg (Some database)) d = (res, d')" by (simp add: start_server_def)
    with Inr NewApp_files [OF this] show ?thesis by (simp add: conf)
  qed
qed

theorem start_keeps_files_witness:
  "only_new_files {''./signing-key.pem'', ''./provider-secret.key''} blank_disk (snd (run_state sample_start blank_disk))"
proof -
  obtain res d' where run: "run_state sample_start blank_disk = (res, d')" by fastforce
  from start_keeps_files [OF run [unfolded sample_start_def]] run show ?thesis
    by (simp add: sample_disk_env_def sample_process_def env_or_def)
qed

text \<open>
  C38.  A restart keeps the keys.  When a server has started, every later start with the same
  configuration whose disk still holds the files of then, and lets them be read, succeeds as the same
  server: it publishes the same keys, signs ID tokens in the same way, so that those given out stay valid,
  and opens the secrets sealed before.  It writes nothing.
\<close>

theorem restart_same_keys:
  assumes "run_state (NewApp E D C files cfg (Some database)) d = (Inr (A, srv), d')" and "keys_reread C"
    and "\<And>f c. disk_files d' f = Some c \<Longrightarrow> disk_files d2 f = Some c"
    and "file_named D2 = file_named D" and "\<And>k path. read_fails D2 k path = None"
  shows "\<exists>srv2 d3. run_state (NewApp E2 D2 C files cfg (Some database2)) d2 = (Inr (A\<lparr>app_env := E2\<rparr>, srv2), d3)
    \<and> disk_files d3 = disk_files d2 \<and> Srv_Handler srv2 = routes (A\<lparr>app_env := E2\<rparr>) files"
  using assms(1)
proof (cases rule: NewAppE)
  case (started km box d1)
  let ?k = "Conf_SigningKeyPath (ServerConfig cfg)" and ?b = "Conf_ProviderSecretKeyPath (ServerConfig cfg)"
  obtain c key where key: "disk_files d1 (file_named D ?k) = Some c" "parsePrivateKey C c = Inr key" "km = key_manager_for C key"
    using key_manager_on_disk [OF started(2)] assms(2) by blast
  obtain secret where secret: "disk_files d' (file_named D ?b) = Some secret" "NewBox C secret = Inr box"
    using secrets_key_on_disk [OF started(3)] by blast
  have "disk_files d' (file_named D ?k) = Some c"
    using secrets_key_on_disk [OF started(3)] key(1) only_new_filesD by blast
  then have "run_state (NewKeyManager E2 D2 C ?k) d2 = (Inr km, d2\<lparr>disk_ops := Suc (disk_ops d2)\<rparr>)"
    unfolding key(3) by (intro signing_key_reloaded [OF _ key(2)] assms(5)) (simp add: assms(3,4))
  moreover have "run_state (NewBoxFromKeyFile E2 D2 C ?b) (d2\<lparr>disk_ops := Suc (disk_ops d2)\<rparr>)
      = (Inr box, d2\<lparr>disk_ops := Suc (Suc (disk_ops d2))\<rparr>)"
    using secrets_key_reloaded [of "d2\<lparr>disk_ops := Suc (disk_ops d2)\<rparr>" D2 ?b secret C box E2] secret assms(3,4,5) by simp
  moreover have "app_for E2 C cfg km box = A\<lparr>app_env := E2\<rparr>"
    using started(1) by (simp add: app_for_def)
  ultimately show ?thesis
    by (auto simp: NewApp_def Let_def server_for_def)
qed simp

theorem restart_same_keys_witness:
  "\<exists>cfg A srv d' srv2 d3. run_state (NewApp calm_env sample_disk_env sample_crypto no_files cfg (Some ())) blank_disk = (Inr (A, srv), d')
     \<and> run_state (NewApp calm_env sample_disk_env sample_crypto no_files cfg (Some ())) d' = (Inr (A\<lparr>app_env := calm_env\<rparr>, srv2), d3)
     \<and> disk_files d3 = disk_files d'"
proof -
  obtain cfg where "LoadConfig calm_env sample_process = Inr cfg" using sample_config by blast
  with sample_app_starts [of cfg "()"] sample_paths [of cfg] obtain A srv d'
    where run: "run_state (NewApp calm_env sample_disk_env sample_crypto no_files cfg (Some ())) blank_disk = (Inr (A, srv), d')"
    by blast
  have "read_fails sample_disk_env k path = None" for k path by (simp add: sample_disk_env_def)
  from restart_same_keys [OF run keys_reread_sample _ refl this, where ?d2.0 = d' and ?E2.0 = calm_env and ?database2.0 = "()"] run
  show ?thesis by blast
qed

end
