(* ===== verification/Responses.thy ===== *)
theory Responses
  imports Server
begin

text \<open>
  What every response of the server looks like: its status, when it carries a location, and how its cookies are
  protected.
\<close>

section \<open>Proper responses\<close>

text \<open>The server is configured for https: every cookie is to be restricted to it.\<close>

definition https_only :: "app \<Rightarrow> bool" where
  "https_only A \<longleftrightarrow> Secure (app_sessions A) \<and> Secure (app_operatorSessions A) \<and> HasPrefix (Issuer (app_discovery A)) ''https://''"

definition hardened :: "app \<Rightarrow> cookie \<Rightarrow> bool" where
  "hardened A c \<longleftrightarrow> cookie_HttpOnly c \<and> cookie_SameSite c = SameSiteLaxMode \<and> cookie_Path c = ''/''
     \<and> (https_only A \<longrightarrow> cookie_Secure c)"

text \<open>A status of 0 is a connection closed after a panic.\<close>

definition proper :: "app \<Rightarrow> response \<Rightarrow> bool" where
  "proper A resp \<longleftrightarrow> resp_status resp \<in> {0, 200, 302, 303, 307, 400, 401, 403, 404, 405, 500, 503}
     \<and> (resp_location resp \<noteq> None \<longleftrightarrow> resp_status resp \<in> {302, 303, 307})
     \<and> (\<forall>c \<in> set (resp_cookies resp). hardened A c)"

definition proper_left :: "app \<Rightarrow> response + 'a \<Rightarrow> bool" where
  "proper_left A x \<longleftrightarrow> (case x of Inl resp \<Rightarrow> proper A resp | Inr _ \<Rightarrow> True)"

definition proper_some :: "app \<Rightarrow> response option \<Rightarrow> bool" where
  "proper_some A x \<longleftrightarrow> (case x of Some resp \<Rightarrow> proper A resp | None \<Rightarrow> True)"

lemma proper_sides [simp]:
  "proper_left A (Inl resp) = proper A resp" "proper_left A (Inr a)" "proper_some A (Some resp) = proper A resp" "proper_some A None"
  by (simp_all add: proper_left_def proper_some_def)

lemma proper_redirect [simp]: "proper A (Redirect u n) \<longleftrightarrow> n \<in> {302, 303, 307}"
  by (auto simp: proper_def)

lemma proper_page [simp]: "proper A (renderPage n p d) \<longleftrightarrow> n \<in> {0, 200, 400, 401, 403, 404, 405, 500, 503}"
  by (auto simp: proper_def)

lemma proper_error [simp]: "proper A (Error m n) \<longleftrightarrow> n \<in> {0, 200, 400, 401, 403, 404, 405, 500, 503}"
  by (auto simp: proper_def)

lemma proper_cookies [simp]: "proper A (with_cookies cs r) \<longleftrightarrow> proper A r \<and> (\<forall>c \<in> set cs. hardened A c)"
  by (auto simp: proper_def)

lemma proper_header [simp]: "proper A (with_header k v r) = proper A r"
  by (simp add: proper_def with_header_def)

lemma proper_status [simp]: "proper A (renderStatus n p d) \<longleftrightarrow> n \<in> {0, 200, 400, 401, 403, 404, 405, 500, 503}"
  by (auto simp: renderStatus_def proper_def split: option.split)

lemma hardened_cookies [simp]:
  "hardened A (Manager_SetCookie (app_sessions A) token)" "hardened A (OperatorManager_SetCookie (app_operatorSessions A) token)"
  "hardened A (OperatorManager_ClearCookie (app_operatorSessions A))" "hardened A (authorize_cookie A value)"
  "hardened A (upstream_cookie A name value n)"
  by (simp_all add: hardened_def https_only_def Manager_SetCookie_def OperatorManager_SetCookie_def OperatorManager_ClearCookie_def
      authorize_cookie_def upstream_cookie_def)

lemma proper_answers [simp]:
  "proper A NotFound" "proper A internal_error" "proper A aborted" "proper A (renderOperatorLogin e)" "proper A (renderSetup e)"
  "proper A (render p d)" "proper A invalid_form" "proper A (writeTokenResponse t)" "proper A (invalid_request m)"
  "proper A (invalid_grant m)" "proper A (server_error m)" "proper A upstream_start_failed" "proper A upstream_state_invalid"
  by (simp_all add: NotFound_def internal_error_def renderOperatorLogin_def renderSetup_def render_def invalid_form_def status_defs
      upstream_start_failed_def upstream_state_invalid_def renderAuthorizeError_def)
     (simp_all add: proper_def aborted_def writeTokenResponse_def invalid_request_def invalid_grant_def server_error_def
      writeTokenError_def status_defs)

lemma proper_token_error [simp]: "proper A (writeTokenError n c m) \<longleftrightarrow> n \<in> {0, 200, 400, 401, 403, 404, 405, 500, 503}"
  by (auto simp: proper_def writeTokenError_def)

lemma proper_authorize [simp]:
  "proper A (renderAuthorizeError n c m) \<longleftrightarrow> n \<in> {0, 200, 400, 401, 403, 404, 405, 500, 503}"
  "proper A (redirectAuthorizeError E req e)" "proper A (authorize_success E req code)"
  by (simp_all add: redirectAuthorizeError_def authorize_success_def renderAuthorizeError_def Let_def status_defs split: option.split)

section \<open>Operations and what they answer\<close>

definition answers :: "('a \<Rightarrow> bool) \<Rightarrow> (world, 'a) state \<Rightarrow> bool" where
  "answers Q m \<longleftrightarrow> (\<forall>w. Q (fst (run_state m w)))"

named_theorems answer_intros \<open>operations with what they answer\<close>

lemma answersD: "answers Q m \<Longrightarrow> run_state m w = (a, w') \<Longrightarrow> Q a"
  unfolding answers_def by (metis fst_conv)

lemma answers_ret [answer_intros]: "Q x \<Longrightarrow> answers Q (ret x)"
  by (simp add: answers_def)

lemma answers_after: "answers R m \<Longrightarrow> (\<And>a. R a \<Longrightarrow> answers Q (f a)) \<Longrightarrow> answers Q (m \<bind> f)"
  by (auto simp: answers_def split: prod.split) (metis fst_conv)

lemma answers_bind [answer_intros]: "(\<And>a. answers Q (f a)) \<Longrightarrow> answers Q (m \<bind> f)"
  by (rule answers_after [of "\<lambda>_. True"]) (simp_all add: answers_def)

lemma answers_cases [answer_intros]:
  "answers Q m \<Longrightarrow> answers Q n \<Longrightarrow> answers Q (if b then m else n)"
  "answers Q n \<Longrightarrow> (\<And>a. answers Q (g a)) \<Longrightarrow> answers Q (case x of None \<Rightarrow> n | Some a \<Rightarrow> g a)"
  "(\<And>e. answers Q (k e)) \<Longrightarrow> (\<And>a. answers Q (h a)) \<Longrightarrow> answers Q (case y of Inl e \<Rightarrow> k e | Inr a \<Rightarrow> h a)"
  "(\<And>a b. answers Q (p a b)) \<Longrightarrow> answers Q (case z of (a, b) \<Rightarrow> p a b)"
  "answers Q (l u) \<Longrightarrow> answers Q (let v = u in l v)"
  by (auto split: option.split sum.split prod.split)

text \<open>The response an earlier part has already given.\<close>

lemma answers_left: "proper_left A x \<Longrightarrow> (\<And>a. answers (proper A) (h a)) \<Longrightarrow> answers (proper A) (case x of Inl resp \<Rightarrow> ret resp | Inr a \<Rightarrow> h a)"
  by (cases x) (simp_all add: answers_ret)

lemma answers_some: "proper_some A x \<Longrightarrow> answers (proper A) n \<Longrightarrow> answers (proper A) (case x of Some resp \<Rightarrow> ret resp | None \<Rightarrow> n)"
  by (cases x) (simp_all add: answers_ret)

lemma answers_part:
  "answers (proper_left A) m \<Longrightarrow> (\<And>a. answers (proper A) (h a)) \<Longrightarrow>
     answers (proper A) (m \<bind> (\<lambda>x. case x of Inl resp \<Rightarrow> ret resp | Inr a \<Rightarrow> h a))"
  by (rule answers_after [OF _ answers_left])

lemma answers_check:
  "answers (proper_some A) m \<Longrightarrow> answers (proper A) n \<Longrightarrow>
     answers (proper A) (m \<bind> (\<lambda>x. case x of Some resp \<Rightarrow> ret resp | None \<Rightarrow> n))"
  by (rule answers_after [OF _ answers_some])

section \<open>The parts of the handlers\<close>

lemma token_parts:
  "answers (proper_left A) (token_client B r p)" "answers (proper_left A) (token_code B p c)"
  "answers (proper_some A) (token_consume B code)" "answers (proper_left A) (token_id_token B c code)"
  unfolding token_client_def token_code_def token_consume_def token_id_token_def Let_def
  by (intro answer_intros; simp add: authenticateTokenClient_def status_defs split: sum.split option.split prod.split)+

lemma token_form_proper: "proper_left A (token_form r)"
  unfolding token_form_def Let_def by (simp add: status_defs split: prod.split)

lemma page_parts:
  "answers (proper_left A) (loadApp B r)" "answers (proper_some A) (setupAvailable B)"
  "answers (proper_left A) (authorize_client B req)" "answers (proper_left A) (authorize_application B req c)"
  "answers (proper_left A) (upstream_application B u)" "answers (proper_left A) (upstream_provider B i n)"
  unfolding loadApp_def setupAvailable_def authorize_client_def authorize_application_def upstream_application_def upstream_provider_def
  by (intro answer_intros; simp add: status_defs split: sum.split option.split prod.split)+

lemma answers_with_operator [answer_intros]:
  "(\<And>p. answers (proper A) (serve p)) \<Longrightarrow> answers (proper A) (with_operator r serve)"
  unfolding with_operator_def by (intro answer_intros; simp add: status_defs)

lemma answers_with_app [answer_intros]:
  "(\<And>p a. answers (proper A) (serve p a)) \<Longrightarrow> answers (proper A) (with_app B r serve)"
  unfolding with_app_def by (intro answers_with_operator answers_part page_parts)

lemma token_answers: "answers (proper A) (tokenHandler B r)"
proof -
  have "answers (proper A) (token_answer B p c code)" for p c code
    unfolding token_answer_def Let_def
    by (intro answers_ret answers_cases answers_after [OF token_parts(4)] answers_bind; auto split: sum.split)
  then show ?thesis
    unfolding tokenHandler_def by (intro answers_left answers_part answers_check token_form_proper token_parts)
qed

lemma authorize_answers: "answers (proper A) (authorizeHandler A r)"
proof -
  have store: "answers (\<lambda>cs. \<forall>c \<in> set cs. hardened A c) (storeAuthorizeRequest A r)"
    unfolding storeAuthorizeRequest_def by (intro answer_intros) (auto split: sum.splits)
  have "answers (proper A) (authorize_prompt A r c a)" for c a
    unfolding authorize_prompt_def
    by (intro answers_ret answers_cases answers_after [OF store] answers_bind [of _ _ "promptsForApp A (App_ID a)"]; simp add: status_defs)
  moreover have "answers (proper A) (authorize_issue A req c u)" for req c u
    unfolding authorize_issue_def by (intro answer_intros; simp split: sum.split)
  ultimately show ?thesis
    unfolding authorizeHandler_def Let_def by (intro answers_part answers_cases(2) page_parts)
qed

lemma upstream_answers: "answers (proper A) (upstreamStartHandler A r)" "answers (proper A) (upstreamCallbackHandler A r)"
proof -
  have cookie: "answers (\<lambda>x. case x of Inl e \<Rightarrow> True | Inr c \<Rightarrow> hardened A c) (setUpstreamStateCookie A s)" for s
    unfolding setUpstreamStateCookie_def by (intro answer_intros) (auto split: sum.splits)
  have "answers (proper A) (upstream_redirect A n u a c)" for n u a c
    unfolding upstream_redirect_def Let_def
    by (intro answers_ret answers_cases(3,4) answers_bind [of _ _ "upstream_secrets A c"] answers_bind [of _ _ "Now (app_env A)"]
        answers_after [OF cookie]; auto simp: status_defs split: sum.splits)
  then show "answers (proper A) (upstreamStartHandler A r)"
    unfolding upstreamStartHandler_def Let_def
    by (intro answers_part page_parts answers_ret answers_cases(1,2); simp add: status_defs)
  show "answers (proper A) (upstreamCallbackHandler A r)"
    unfolding upstreamCallbackHandler_def upstream_complete_def upstream_finish_def clearUpstreamCookies_def Let_def
    by (intro answer_intros; simp add: status_defs split: sum.split)
qed

lemma operator_answers:
  "answers (proper A) (operatorLoginPageHandler r)" "answers (proper A) (operatorLoginHandler A r)"
  "answers (proper A) (operatorLogoutHandler A r)" "answers (proper A) (setupPageHandler A r)" "answers (proper A) (setupHandler A r)"
proof -
  have start: "answers (proper A) (start_operator_session A i)" for i
    unfolding start_operator_session_def by (intro answer_intros) (simp add: status_defs split: sum.split)
  then have "answers (proper A) (setup_create A e p)" for e p
    unfolding setup_create_def by (intro answer_intros; simp add: status_defs)
  then show "answers (proper A) (setupHandler A r)"
    unfolding setupHandler_def Let_def by (intro answers_check page_parts answers_cases(2) answers_ret; simp)
  show "answers (proper A) (operatorLoginPageHandler r)" "answers (proper A) (operatorLoginHandler A r)"
    "answers (proper A) (operatorLogoutHandler A r)"
    unfolding operatorLoginPageHandler_def operatorLoginHandler_def operatorLogoutHandler_def
    by (intro answer_intros start; simp add: status_defs split: option.split)+
  show "answers (proper A) (setupPageHandler A r)"
    unfolding setupPageHandler_def by (intro answers_after [OF page_parts(2) [of A]] answers_ret) (auto split: option.splits)
qed

lemma public_answers:
  "answers (proper A) (healthHandler B r)" "answers (proper A) (jwksHandler B r)" "answers (proper A) (discoveryHandler B r)"
  "answers (proper A) (rootHandler B r)"
  unfolding healthHandler_def jwksHandler_def discoveryHandler_def rootHandler_def
  by (intro answer_intros; simp add: proper_def status_defs split: sum.split)+

lemma console_answers: "console_handler B e = Some serve \<Longrightarrow> answers (proper A) (serve r)"
proof -
  note renders = renderAppNew_def renderAppEdit_def renderClientNew_def renderProviderForm_def app_registered_def client_registered_def
    status_defs Let_def
  have apps: "answers (proper A) (dashboardHandler B r)" "answers (proper A) (appListHandler B r)" "answers (proper A) (appNewHandler B r)"
      "answers (proper A) (appCreateHandler B r)" "answers (proper A) (appDetailHandler B r)" "answers (proper A) (appEditHandler B r)"
      "answers (proper A) (appUpdateHandler B r)"
    unfolding dashboardHandler_def appListHandler_def appNewHandler_def appCreateHandler_def appDetailHandler_def appEditHandler_def
      appUpdateHandler_def
    by (intro answer_intros; simp add: renders split: sum.split option.split prod.split)+
  have clients: "answers (proper A) (clientNewHandler B r)" "answers (proper A) (clientCreateHandler B r)"
      "answers (proper A) (clientDetailHandler B r)"
    unfolding clientNewHandler_def clientCreateHandler_def clientDetailHandler_def client_detail_def
    by (intro answer_intros; simp add: renders split: sum.split option.split)+
  have providers: "answers (proper A) (providerNewHandler B r)" "answers (proper A) (providerEditHandler B r)"
      "answers (proper A) (providerSaveHandler B r)" "answers (proper A) (providerToggleHandler B r)"
      "answers (proper A) (providerDeleteHandler B r)"
    unfolding providerNewHandler_def providerEditHandler_def providerSaveHandler_def providerToggleHandler_def providerDeleteHandler_def
      find_provider_def
    by (intro answer_intros; simp add: renders split: sum.split option.split)+
  assume "console_handler B e = Some serve"
  then show ?thesis using apps clients providers by (cases e) auto
qed

lemma endpoint_answers:
  assumes "\<And>r. Q (files r)" and "\<And>resp. proper A resp \<Longrightarrow> Q resp"
  shows "answers Q (endpoint_handler A files e r)"
proof -
  have mono: "answers (proper A) m \<Longrightarrow> answers Q m" for m by (simp add: answers_def assms(2))
  show ?thesis
  proof (cases "console_handler A e")
    case (Some serve)
    with console_answers [OF this] show ?thesis
      by (auto simp: endpoint_handler_def RequireOperator_def status_defs intro!: mono answers_ret assms(2) split: option.split)
  next
    case None
    then show ?thesis
      using token_answers authorize_answers upstream_answers operator_answers public_answers mono answers_ret [of Q] assms(1)
      by (cases e) (simp_all add: endpoint_handler_def)
  qed
qed

section \<open>Properties\<close>

lemma answers_ServeMux:
  assumes "\<And>h r. answers Q (serve h r)" and "\<And>resp. proper A resp \<Longrightarrow> Q resp"
  shows "answers Q (ServeMux table serve r)"
proof -
  have "proper A resp" if "findHandler table r = Answered resp" for resp
    using that by (auto simp: findHandler_def redirect_path_def Let_def proper_def StatusMethodNotAllowed_def status_defs NotFound_def
        split: if_splits option.splits)
  moreover have "proper A \<lparr>resp_status = StatusBadRequest, resp_location = None, resp_headers = hs, resp_cookies = [], resp_body = NoBody\<rparr>" for hs
    by (simp add: proper_def status_defs)
  ultimately show ?thesis
    unfolding ServeMux_def by (auto intro!: answers_ret assms split: routed.split)
qed

lemma answers_Logger: "(\<And>r. answers Q (serve r)) \<Longrightarrow> answers Q (Logger E serve r)"
  unfolding Logger_def Logger_line_def answers_def by (simp split: prod.split) (metis fst_conv)

lemma answers_middleware:
  assumes "\<And>r. answers Q (serve r)"
  shows "answers Q (Session A serve r)" "answers Q (OperatorSession A serve r)"
  unfolding Session_def OperatorSession_def by (intro answer_intros assms)+

lemma answers_CSRF:
  assumes "\<And>r. answers Q (serve r)" and "\<And>err. Q (Error err StatusForbidden)"
  shows "answers Q (CSRFExcept E serve exempt r)"
  unfolding CSRFExcept_def CSRF_def by (auto intro: answers_ret assms split: option.split)

text \<open>
  C6.  Every response is proper.  Whatever the request, the state and the failures, a response that is not a
  static file has one of the statuses the handlers use, names a location exactly when it redirects, and sets
  only cookies that scripts cannot read, that other sites' requests do not carry, that hold for the whole
  site, and that are restricted to https when the server is configured for it.
\<close>

theorem responses_proper:
  assumes "run_state (routes A files r) w = (resp, w')"
  shows "resp \<in> range files \<or>
    resp_status resp \<in> {0, 200, 302, 303, 307, 400, 401, 403, 404, 405, 500, 503}
    \<and> (resp_location resp \<noteq> None \<longleftrightarrow> resp_status resp \<in> {302, 303, 307})
    \<and> (\<forall>c \<in> set (resp_cookies resp). cookie_HttpOnly c \<and> cookie_SameSite c = SameSiteLaxMode \<and> cookie_Path c = ''/''
        \<and> (https_only A \<longrightarrow> cookie_Secure c))"
proof -
  let ?Q = "\<lambda>resp. resp \<in> range files \<or> proper A resp"
  have "answers ?Q (routes A files r)"
    unfolding routes_def
    by (intro answers_Logger answers_CSRF answers_middleware answers_ServeMux [where A = A] endpoint_answers; simp add: status_defs)
  from answersD [OF this assms] show ?thesis by (simp add: proper_def hardened_def)
qed

definition logout_request :: request where
  "logout_request = sample_request\<lparr>req_method := ''POST'', req_path := ''/admin/auth/logout'', req_escaped_path := ''/admin/auth/logout''\<rparr>"

lemma logout_routed: "findHandler route_table logout_request = Handled [] Logout"
  by code_simp

theorem responses_proper_witness:
  "\<exists>c. resp_cookies (fst (run_state (routes sample_app no_files logout_request) empty_world)) = [c] \<and> cookie_HttpOnly c \<and> cookie_Secure c"
proof -
  have "Issuer (app_discovery sample_app) = ''https://idp''" by code_simp
  then have https: "https_only sample_app"
    by (simp add: https_only_def sample_app_def sample_config_def HasPrefix_def)
  obtain resp w' where run: "run_state (routes sample_app no_files logout_request) empty_world = (resp, w')" by fastforce
  have "RequestURI logout_request \<noteq> ''*''" and "logout_request\<lparr>req_path_values := []\<rparr> = logout_request"
    and "req_path logout_request \<noteq> ''/token''" and "CrossOrigin_Check calm_env logout_request = None"
    and "\<And>k. Request_Cookie logout_request k = None"
    by (simp_all add: RequestURI_def logout_request_def sample_request_def CrossOrigin_Check_def Header_Get_def Get_def Request_Cookie_def)
  with run logout_routed
  have "resp = with_cookies [OperatorManager_ClearCookie (app_operatorSessions sample_app)] (Redirect ''/admin/login'' StatusSeeOther)"
    by (simp add: routes_def Logger_def Logger_line_def run_Now CSRFExcept_def CSRF_def OperatorSession_def
        OperatorManager_GetCookie_def Session_def Manager_GetCookie_def ServeMux_def endpoint_handler_def operatorLogoutHandler_def)
  then have "resp_cookies resp = [OperatorManager_ClearCookie (app_operatorSessions sample_app)]" and "resp \<notin> range no_files"
    by (auto simp: no_files_def NotFound_def Error_def Redirect_def with_cookies_def)
  with responses_proper [OF run] https run show ?thesis by simp
qed

text \<open>
  The set-up form, submitted when there is an operator, sends browsers on with the method and the body kept:
  the login page is asked for with POST, which no route takes.
\<close>

definition resubmitted_setup :: request where
  "resubmitted_setup = sample_request\<lparr>req_method := ''POST'', req_path := ''/admin/login'', req_escaped_path := ''/admin/login''\<rparr>"

lemma closed_setup_dead_end:
  assumes "rows (Operators (app_env A)) w \<noteq> []" and "db_fault (app_env A) (db_calls w) = NoFault"
  shows "fst (run_state (setupHandler A r) w) = Redirect ''/admin/login'' StatusTemporaryRedirect"
    and "\<exists>resp. findHandler route_table resubmitted_setup = Answered resp \<and> resp_status resp = StatusMethodNotAllowed"
proof -
  show "fst (run_state (setupHandler A r) w) = Redirect ''/admin/login'' StatusTemporaryRedirect"
    using assms
    by (simp add: setupHandler_def setupAvailable_def gormOperatorRepo_Count_def Count_def Operators.run_sql Operators.rows_counted Suc_le_eq)
  have "findHandler route_table resubmitted_setup = Answered ((Error ''Method Not Allowed'' StatusMethodNotAllowed)
      \<lparr>resp_headers := (''Allow'', ''GET, HEAD'') # resp_headers (Error ''Method Not Allowed'' StatusMethodNotAllowed)\<rparr>)"
    by code_simp
  then show "\<exists>resp. findHandler route_table resubmitted_setup = Answered resp \<and> resp_status resp = StatusMethodNotAllowed"
    by simp
qed

end
