(* ===== verification/Spec2Isabelle.thy ===== *)
theory Spec2Isabelle
  imports Token_Ledger Sign_In Start_Up Responses
begin

text \<open>
  A model of centrauth, an OAuth 2.0 and OpenID Connect provider written in Go, and the properties that
  make it correct.  Paths are relative to the directory src.

  The program.  One process serves HTTP (internal/app.go): the protocol endpoints \<open>/authorize\<close>,
  \<open>/token\<close> and the two discovery documents, sign-in through upstream providers
  (internal/upstream\_flow.go, internal/upstream), an operator console (internal/admin) and its first-time
  set-up (internal/setup.go).  Every request passes the middleware of internal/middleware.  The state is a
  PostgreSQL database reached through gorm (internal/db, internal/repository); cookies carry sessions
  (internal/session) and encrypted pending requests (internal/secrets); services (internal/service) validate
  what operators enter and turn upstream identities into users; internal/oauth and internal/oidc hold the rules
  of the protocols.

  The shape of the model.  A stateful Go function is a value of \<open>('s, 'a) state\<close> over the record \<open>world\<close>
  of the theory Models: the nine tables, and how many times the clock, the random source and the database
  have been used.  What the outside answers at each use is the record \<open>env\<close>: readings of the clock, random
  bytes or their absence, and for each database statement whether it runs, is refused, or runs although
  the reply is lost.  A Go result \<open>(T, error)\<close> is a sum with the error on the left.  A handler maps a
  request to a response; \<open>next.ServeHTTP\<close> is an argument.

  Theories and sources.
  \<^item> Prelude: the running of steps, lists.  Go\_Strings, Go\_Numbers, Codec, Sha256, Go\_Url, Go\_Url\_Parse,
    Go\_Unicode, Go\_Time, Go\_Duration, Go\_Json and Go\_Json\_Parse: what the source uses of the packages strings,
    strconv, encoding/base64 and hex, crypto/sha256, net/url, unicode, time, path/filepath and encoding/json.  Their round trips
    (base64, query strings, decimal numbers, JSON) are proved there.
  \<^item> Models: rows (internal/db/models.go), errors, \<open>env\<close> and \<open>world\<close>.  Database: the constraints of the
    tables, as the migrations state them, and the locale \<open>row\_schema\<close> they all satisfy.  Gorm: gorm's
    statements with defaults, time stamps, constraint violations and transactions; the locale \<open>db\_model\<close>
    states what a statement may rely on and is interpreted for each of the nine tables.  \<open>world\_ok\<close>
    says that all constraints hold, \<open>sound\<close> that an operation keeps them.
  \<^item> Session\_Managers: internal/session and the two session repositories.  Both managers are instances of
    the locales \<open>session\_store\<close> and \<open>session\_manager\<close>, where their lemmas are proved once.
  \<^item> Repositories: the other repositories of internal/repository.
  \<^item> Oauth and Redirect\_URIs: internal/oauth.  Oidc: internal/oidc.  Secrets: internal/secrets/box.go.
    Http: requests and responses.  Apps: the struct \<open>App\<close> of internal/app.go.
  \<^item> Authorize: internal/authorize.go.  Token: internal/token.go, the handler cut at its database statements.
    Interleaving: any number of token requests whose statements run in any order.  Token\_Ledger: the abstract
    specification of the token endpoint, a ledger in which exchanges are authenticated, take grants and are
    given tokens, and the simulation that shows that every interleaving implements it.  Code\_Flow: a code from
    the authorization endpoint to the token endpoint.
  \<^item> App\_Service, Provider\_Service, Password: the services of internal/service.
  \<^item> Upstream and Upstream\_Exchange: internal/upstream/upstream.go.  Upstream\_Flow: internal/upstream\_flow.go.
  \<^item> Middleware: internal/middleware, as functions from handlers to handlers.  Operator\_Login:
    internal/admin/login.go, internal/setup.go, internal/health.go and internal/wellknown.go.
  \<^item> Admin\_Pages, Admin\_Apps and Admin\_Providers: the console of internal/admin; a page is the template's name
    and the data it is rendered with.
  \<^item> Serve\_Mux: the routing of net/http.  Footprint: which tables each operation and handler may write, as
    rules that follow the structure of the code.  Server: the routes and the clean-up of internal/app.go, the
    states the server reaches and their invariant.  Responses: what every response looks like, with rules for
    what operations answer that follow the structure of the code like those of Footprint.  Retention: requests keep
    all sessions and users, clean-ups keep the live sessions.  Sign\_In: from a provider's answer over the session of
    later requests to an authorization code.
  \<^item> Config: internal/config.go and internal/db/db.go.  Key\_Files: the key files of internal/signing/keys.go and
    internal/secrets/box.go, over a disk whose operations may fail.  Start\_Up: \<open>NewApp\<close> and \<open>Run\<close> of internal/app.go
    and the order of cmd/centrauth/main.go.

  What the lemmas show.  A code is redeemed at most once, sequentially and under every interleaving, and
  only by its client with its redirect URI, PKCE verifier and secret: the token endpoint refines a ledger of grants; ID tokens say what was granted; the
  authorization endpoint redirects only to registered URIs; sessions are accepted exactly until they expire or
  are revoked, and a completed sign-in is recognised by every later request until its session ends, in every state
  the server reaches meanwhile (docs/README.md would end it with the first authorization request; the code does not);
  requests that operators did not make never change applications, clients or providers; in every
  state the server reaches all constraints hold and stored clients only have validated redirect URIs; the
  set-up form makes the first operator and no other; passwords are accepted exactly when they derive the stored
  key; an upstream identity keeps its user, an address the provider has not verified never reaches an
  account, and a sign-in completes only for the browser that started it.  Every response has a known status and only
  cookies that are protected; a restart with the same files is the same server, publishes the key it signs
  with, and never overwrites a file.

  Bounds.  Functions are total; loops are recursions on their lists or strings, with a measure where they
  are not structural.  The JSON reader alone has fuel: two units for each character and two more, which is
  enough because every second call consumes a character; its nesting is bounded by 10000, as
  in encoding/json.  Identifiers in paths have 64 bits, as have the durations that are read.

  Parameters.  Clock, random source and database faults; PostgreSQL's \<open>citext\<close> folding; Unicode tables for
  text that is not ASCII; the recognition of IPv6 literals and the wording of URL errors; the cipher of
  the secrets box; the signature of ID tokens; argon2; the answers of upstream providers and the verification
  of their ID tokens (\<open>net\_reply\<close>, \<open>oidc\_verify\<close>); the offset of the local time zone; the static files; environment variables, the file system, the floating-point
  part of fractional durations, and RSA with its encodings and signatures (\<open>crypto\<close>).
  What is assumed of them is a named hypothesis of the theorem that uses it (\<open>entropy\_fills\<close>,
  \<open>clock\_steady\<close>, \<open>aead\_opens\<close>, \<open>keys\_reread\<close>), with a witness.

  Not modelled.  Time stamps are not rounded to PostgreSQL's microseconds; transactions run one at a
  time, and a query without an order returns rows by identifier.  Requests other than those to \<open>/token\<close> are
  handled one after the other.  Logging (but for the status a request is logged with), the rendering of
  templates, the listening socket and how its shutdown goes, signals and the exit status (cmd/centrauth), the
  connection pool (internal/db/db.go) and the migrations are left to the libraries that do them.  Interface types
  and constructors that only store their arguments have no definition of their own: a service is its operations.
\<close>

end
